theory Spec2Isabelle
  imports Main "HOL-Library.Word"
begin

section \<open>Machine words, bytes and buffers\<close>

text \<open>
  The program is C++ for a 64-bit little-endian host: \<^verbatim>\<open>size_t\<close> is a 64-bit word whose
  arithmetic wraps around, \<^verbatim>\<open>sizeof(size_t)\<close> is 8, and a \<^verbatim>\<open>char\<close> is one byte. Bytes are
  modelled by the type \<^typ>\<open>char\<close>, so the content of a host file, a page and a path string
  are all of type \<^typ>\<open>string\<close>.
\<close>

type_synonym size_t = "64 word"

text \<open>\<^verbatim>\<open>static constexpr size_t st_size = sizeof(size_t); const size_t& start = st_size\<close>\<close>

definition st_size :: size_t where
  "st_size = 8"

definition start :: size_t where
  "start = st_size"

text \<open>\<^verbatim>\<open>reinterpret_cast<char*>(&n)\<close>: the eight bytes of a word, lowest first.\<close>

definition size_t_bytes :: "size_t \<Rightarrow> string" where
  "size_t_bytes n = map (\<lambda>i. char_of (unat (drop_bit (8 * i) n))) [0..<8]"

text \<open>\<^verbatim>\<open>*reinterpret_cast<const size_t*>(p)\<close> on the eight bytes at \<^verbatim>\<open>p\<close>.\<close>

definition bytes_size_t :: "string \<Rightarrow> size_t" where
  "bytes_size_t cs = foldr (\<lambda>c a. of_char c + 256 * a) cs 0"

text \<open>
  A \<^verbatim>\<open>const char*\<close> that is read from is either null or a view of memory: a function from
  offsets to bytes. Pointer arithmetic \<^verbatim>\<open>buf + k\<close> shifts the view.
\<close>

type_synonym cptr = "(nat \<Rightarrow> char) option"

definition c_str :: "string \<Rightarrow> nat \<Rightarrow> char" where
  "c_str s i = (if i < length s then s ! i else CHR 0x00)"

definition ptr_add :: "(nat \<Rightarrow> char) \<Rightarrow> size_t \<Rightarrow> nat \<Rightarrow> char" where
  "ptr_add b k i = b (unat k + i)"

text \<open>\<^verbatim>\<open>const Page zeroes_sequence{0}\<close>, read through \<^verbatim>\<open>zeroes_sequence.data()\<close>.\<close>

definition zeroes_sequence :: "nat \<Rightarrow> char" where
  "zeroes_sequence i = CHR 0x00"

section \<open>Errors and results\<close>

text \<open>
  The exceptions of \<^verbatim>\<open>Exceptions.h\<close>, \<^verbatim>\<open>std::out_of_range\<close> (thrown by \<^verbatim>\<open>map::at\<close> and
  \<^verbatim>\<open>string_view::substr\<close>), and one value for behaviour that C++ leaves undefined (an access
  outside an array, a field of an erased map entry). A call that never returns has the
  result \<^term>\<open>None\<close>.
\<close>

datatype error =
    NoFiles | TooManyFiles | RootIsNotDirectory | RootDoesNotExist
  | FileWritingError | FileReadingError | FileAlreadyExists | DirAlreadyExists
  | OutOfRange | UndefinedBehaviour

type_synonym 'a result = "(error + 'a) option"

definition ok :: "'a \<Rightarrow> 'a result" where
  "ok x = Some (Inr x)"

definition throw :: "error \<Rightarrow> 'a result" where
  "throw e = Some (Inl e)"

definition bindR :: "'a result \<Rightarrow> ('a \<Rightarrow> 'b result) \<Rightarrow> 'b result" where
  "bindR m f = (case m of None \<Rightarrow> None | Some (Inl e) \<Rightarrow> Some (Inl e) | Some (Inr x) \<Rightarrow> f x)"

section \<open>PhysicalFile.h\<close>

text \<open>
  A \<^verbatim>\<open>PhysicalFile\<close> owns the stream of one host file. \<open>str\<close> is the content of the host
  file behind the stream, \<open>file_size\<close> the size the object tracks. The stream is taken to
  work: a seek inside the file and a write or read of bytes that exist succeed.
\<close>

record 'p PhysicalFile =
  filepath :: 'p
  str :: string
  file_size :: size_t

text \<open>\<^verbatim>\<open>return file_size ? : fs::file_size(filepath);\<close>\<close>

definition GetSize :: "'p PhysicalFile \<Rightarrow> size_t" where
  "GetSize pf = (if file_size pf \<noteq> 0 then file_size pf else of_nat (length (str pf)))"

definition GetPath :: "'p PhysicalFile \<Rightarrow> 'p" where
  "GetPath pf = filepath pf"

text \<open>The constructor: \<^verbatim>\<open>file_size = GetSize()\<close> with \<^verbatim>\<open>file_size\<close> still 0.\<close>

definition PhysicalFile_new :: "'p \<Rightarrow> string \<Rightarrow> 'p PhysicalFile" where
  "PhysicalFile_new p host_content =
     \<lparr>filepath = p, str = host_content, file_size = of_nat (length host_content)\<rparr>"

text \<open>
  The host file after \<^verbatim>\<open>seekp(pos); write(data)\<close>: the bytes from \<open>pos\<close> on are overwritten
  and the file grows when the data reach past its end (a gap before \<open>pos\<close> would read as
  zero bytes).
\<close>

definition overwrite :: "string \<Rightarrow> nat \<Rightarrow> string \<Rightarrow> string" where
  "overwrite s pos data =
     take pos (s @ replicate (pos - length s) (CHR 0x00)) @ data @ drop (pos + length data) s"

text \<open>\<^verbatim>\<open>size_t Write(const char* buf, size_t length, size_t pos)\<close>\<close>

definition pf_Write :: "'p PhysicalFile \<Rightarrow> cptr \<Rightarrow> size_t \<Rightarrow> size_t \<Rightarrow> size_t \<times> 'p PhysicalFile" where
  "pf_Write pf buf len pos =
     (case buf of
        None \<Rightarrow> (0, pf)
      | Some b \<Rightarrow>
          if len = 0 \<or> pos > GetSize pf then (0, pf)
          else
            let prev = pos;
                data = map b [0..<unat len];
                tellp = pos + of_nat (length data);
                pf1 = pf\<lparr>str := overwrite (str pf) (unat pos) data\<rparr>;
                pf2 = (if pos + len > file_size pf1 then pf1\<lparr>file_size := tellp\<rparr> else pf1)
            in (tellp - prev, pf2))"

text \<open>\<^verbatim>\<open>size_t Write(const char* buf, size_t length)\<close>: append.\<close>

definition pf_Append :: "'p PhysicalFile \<Rightarrow> cptr \<Rightarrow> size_t \<Rightarrow> size_t \<times> 'p PhysicalFile" where
  "pf_Append pf buf len = pf_Write pf buf len (GetSize pf)"

text \<open>
  \<^verbatim>\<open>size_t Read(char* buf, size_t length, size_t pos)\<close>. The destination is written only,
  so it is modelled by whether it is non-null; the result is the bytes stored into it, and
  the returned count \<^verbatim>\<open>tellg() - prev\<close> is their number.
\<close>

definition pf_Read :: "'p PhysicalFile \<Rightarrow> bool \<Rightarrow> size_t \<Rightarrow> size_t \<Rightarrow> size_t \<times> string" where
  "pf_Read pf buf len pos =
     (if \<not> buf \<or> len = 0 \<or> pos \<ge> GetSize pf then (0, [])
      else
        let data = take (unat (min len (GetSize pf - pos))) (drop (unat pos) (str pf))
        in (of_nat (length data), data))"

text \<open>Storing the bytes of a read at the start of a buffer that already holds \<open>buf\<close>.\<close>

definition store :: "string \<Rightarrow> string \<Rightarrow> string" where
  "store buf data = data @ drop (length data) buf"

section \<open>Virtual paths\<close>

text \<open>
  Virtual paths are \<^verbatim>\<open>std::filesystem::path\<close> values in POSIX format, modelled by their
  string. A path has a root directory when it starts with a slash and a relative path when
  it has a character that is not a slash. Comparison with \<^verbatim>\<open>==\<close> is by elements, so runs of
  slashes compare like one slash. \<^verbatim>\<open>parent_path\<close> returns the path itself when it has no
  relative path, else the path without its last element and the slashes before it (the
  root directory stays).
\<close>

definition vRoot :: string where
  "vRoot = ''/''"

definition has_root_directory :: "string \<Rightarrow> bool" where
  "has_root_directory p = (case p of [] \<Rightarrow> False | c # _ \<Rightarrow> c = CHR ''/'')"

definition has_relative_path :: "string \<Rightarrow> bool" where
  "has_relative_path p = list_ex (\<lambda>c. c \<noteq> CHR ''/'') p"

fun squeeze :: "string \<Rightarrow> string" where
  "squeeze (a # b # cs) =
     (if a = CHR ''/'' \<and> b = CHR ''/'' then squeeze (b # cs) else a # squeeze (b # cs))"
| "squeeze cs = cs"

definition path_eq :: "string \<Rightarrow> string \<Rightarrow> bool" where
  "path_eq a b = (squeeze a = squeeze b)"

definition parent_path :: "string \<Rightarrow> string" where
  "parent_path p =
     (if \<not> has_relative_path p then p
      else
        let d = rev (dropWhile (\<lambda>c. c \<noteq> CHR ''/'') (rev p))
        in if d = [] then []
           else if \<not> has_relative_path d then ''/''
           else rev (dropWhile (\<lambda>c. c = CHR ''/'') (rev d)))"

text \<open>\<^verbatim>\<open>vRoot / p\<close> for a path \<open>p\<close> without root directory.\<close>

definition root_slash :: "string \<Rightarrow> string" where
  "root_slash p = vRoot @ p"

text \<open>The first lines of \<^verbatim>\<open>Open\<close> and \<^verbatim>\<open>Create\<close>: \<^verbatim>\<open>// Create absolute path\<close>.\<close>

definition absolute :: "string \<Rightarrow> string" where
  "absolute nm = (if \<not> has_root_directory nm then root_slash nm else nm)"

section \<open>File.h and the members of the class VFS\<close>

datatype FileStatus = openW | openR | closed

record 'p File =
  p_file :: 'p
  name :: string
  data_len :: size_t
  page :: size_t
  status :: FileStatus
  readers :: size_t

text \<open>\<^verbatim>\<open>File(p_file, name, page) : ..., readers(0), data_len(0)\<close>, \<^verbatim>\<open>status = closed\<close>.\<close>

definition File_new :: "'p \<Rightarrow> string \<Rightarrow> size_t \<Rightarrow> 'p File" where
  "File_new pf nm pg =
     \<lparr>p_file = pf, name = nm, data_len = 0, page = pg, status = closed, readers = 0\<rparr>"

text \<open>\<^verbatim>\<open>struct Dir { const fs::path& p_file; size_t page; }\<close>\<close>

record 'p Dir =
  dir_p_file :: 'p
  dir_page :: size_t

text \<open>\<^verbatim>\<open>enum FileType : char { dir = 0b00000111, file = 0b01110000 }\<close>\<close>

datatype FileType = dir | "file"

fun FileType_char :: "FileType \<Rightarrow> char" where
  "FileType_char dir = CHR 0x07"
| "FileType_char file = CHR 0x70"

datatype 'p mutex = editing_files_mutex | v_files_mutex | v_dirs_mutex | io_mutexes 'p

text \<open>
  The object. \<open>page_size\<close> is the template parameter. \<open>physical_files\<close> is a \<^verbatim>\<open>std::map\<close>: an
  association list in the order of its keys. The two \<^verbatim>\<open>unordered_map\<close>s are maps from the
  path string. \<open>locked\<close> is not a member of the class: it records, in order, each mutex a
  \<^verbatim>\<open>lock_guard\<close> of the class VFS has acquired, so that a statement can say that no lock
  was taken. Calls are modelled one at a time; threads are not.

  A \<^verbatim>\<open>PhysicalFile&\<close> is modelled by the key of the entry of \<open>physical_files\<close> it refers to,
  and a \<^verbatim>\<open>File*\<close> by \<^term>\<open>None\<close> for \<^verbatim>\<open>nullptr\<close> or the key of the entry of \<open>virtual_files\<close> it
  points to. \<^verbatim>\<open>InsertFile\<close> stores each \<^verbatim>\<open>File\<close> under its \<^verbatim>\<open>name\<close>, so the key is
  also what \<^verbatim>\<open>f->name\<close> reads. Reading another field through a pointer whose entry was
  erased is \<^term>\<open>UndefinedBehaviour\<close>.

  An operation that throws yields the exception only: the state it had reached is dropped.
\<close>

record 'p VFS =
  page_size :: size_t
  physical_files :: "('p \<times> 'p PhysicalFile) list"
  virtual_files :: "string \<rightharpoonup> 'p File"
  virtual_dirs :: "string \<rightharpoonup> 'p Dir"
  num_of_files :: size_t
  locked :: "'p mutex list"

definition lock_guard :: "'p VFS \<Rightarrow> 'p mutex \<Rightarrow> 'p VFS" where
  "lock_guard st m = st\<lparr>locked := locked st @ [m]\<rparr>"

text \<open>\<^verbatim>\<open>physical_files.at(k)\<close> and writing through the reference it returns.\<close>

definition pfile_at :: "'p VFS \<Rightarrow> 'p \<Rightarrow> 'p PhysicalFile result" where
  "pfile_at st k = (case map_of (physical_files st) k of None \<Rightarrow> throw OutOfRange | Some pf \<Rightarrow> ok pf)"

definition put_pfile :: "'p VFS \<Rightarrow> 'p \<Rightarrow> 'p PhysicalFile \<Rightarrow> 'p VFS" where
  "put_pfile st k pf =
     st\<lparr>physical_files := map (\<lambda>(k', v). if k' = k then (k', pf) else (k', v)) (physical_files st)\<rparr>"

section \<open>Pages\<close>

text \<open>A \<^verbatim>\<open>Page\<close> is \<^verbatim>\<open>std::array<char, page_size>\<close>: a string of length \<open>page_size\<close>.\<close>

definition empty_page :: "size_t \<Rightarrow> string" where
  "empty_page ps = replicate (unat ps) (CHR 0x00)"

definition GetNextPage :: "size_t \<Rightarrow> string \<Rightarrow> size_t" where
  "GetNextPage ps pg = bytes_size_t (take 8 (drop (unat (ps - st_size)) pg))"

definition SetNextPage :: "size_t \<Rightarrow> 'p PhysicalFile \<Rightarrow> size_t \<Rightarrow> size_t \<Rightarrow> 'p PhysicalFile" where
  "SetNextPage ps pf pg next_page =
     snd (pf_Write pf (Some (c_str (size_t_bytes next_page))) st_size
            ((pg + 1) * ps - st_size + start))"

definition GetFileLength :: "string \<Rightarrow> size_t" where
  "GetFileLength pg = bytes_size_t (take 8 pg)"

definition SetFileLength :: "size_t \<Rightarrow> 'p PhysicalFile \<Rightarrow> size_t \<Rightarrow> size_t \<Rightarrow> 'p PhysicalFile" where
  "SetFileLength ps pf pg len =
     snd (pf_Write pf (Some (c_str (size_t_bytes len))) st_size (pg * ps + start))"

definition CreateEmptyPage :: "size_t \<Rightarrow> 'p PhysicalFile \<Rightarrow> 'p PhysicalFile" where
  "CreateEmptyPage ps pf = snd (pf_Append pf (Some zeroes_sequence) ps)"

text \<open>
  \<^verbatim>\<open>ReadFileInfo\<close>. \<^verbatim>\<open>string_view::substr(pos, n)\<close> throws when \<open>pos\<close> is past the end of the
  view and shortens the view otherwise; the casts then read one or eight bytes at the
  start of the view, which is undefined when they are not all inside the page.
\<close>

datatype Info = Info (info_type: char) (info_name: string) (info_page: size_t)

definition ReadFileInfo :: "size_t \<Rightarrow> string \<Rightarrow> size_t \<Rightarrow> (Info \<times> size_t) result" where
  "ReadFileInfo ps pg pos0 =
     (if pos0 > ps then throw OutOfRange
      else if unat pos0 + 1 > length pg then throw UndefinedBehaviour
      else
        let type = pg ! unat pos0; pos = pos0 + 1 in
        if type = CHR 0x00 then ok (Info (CHR 0x00) [] 0, 0)
        else if pos > ps then throw OutOfRange
        else if unat pos + 8 > length pg then throw UndefinedBehaviour
        else
          let name_size = bytes_size_t (take 8 (drop (unat pos) pg)) in
          if pos + st_size > ps then throw OutOfRange
          else
            let nm = take (unat name_size) (drop (unat (pos + st_size)) pg) in
            if pos + st_size + name_size > ps then throw OutOfRange
            else if unat (pos + st_size + name_size) + 8 > length pg then throw UndefinedBehaviour
            else
              let page_num = bytes_size_t (take 8 (drop (unat (pos + st_size + name_size)) pg))
              in ok (Info type nm page_num, pos + st_size + name_size + st_size))"

text \<open>\<^verbatim>\<open>std::string_view::find\<close>: the first position where the query occurs.\<close>

primrec find_from :: "string \<Rightarrow> string \<Rightarrow> nat \<Rightarrow> nat option" where
  "find_from q [] i = (if q = [] then Some i else None)"
| "find_from q (c # cs) i =
     (if take (length q) (c # cs) = q then Some i else find_from q cs (Suc i))"

definition npos :: size_t where
  "npos = - 1"

definition FindFileInPage :: "string \<Rightarrow> string \<Rightarrow> FileType \<Rightarrow> size_t" where
  "FindFileInPage pg file_name type =
     (let name_size = (of_nat (length file_name) :: size_t);
          query = FileType_char type # size_t_bytes name_size @ file_name
      in case find_from query pg 0 of None \<Rightarrow> npos | Some i \<Rightarrow> of_nat i)"

text \<open>
  \<^verbatim>\<open>FindPageEnd\<close>. The loop test reads \<^verbatim>\<open>page[pos]\<close> before it compares \<open>pos\<close> with the page
  size.
\<close>

partial_function (option) FindPageEnd_loop :: "size_t \<Rightarrow> string \<Rightarrow> size_t \<Rightarrow> size_t result" where
  "FindPageEnd_loop ps pg pos =
     (if unat pos \<ge> length pg then Some (Inl UndefinedBehaviour)
      else if pg ! unat pos \<noteq> CHR 0x00 \<and> pos < ps then
        (let pos1 = pos + 1 in
         if pos1 > ps then Some (Inl OutOfRange)
         else if unat pos1 + 8 > length pg then Some (Inl UndefinedBehaviour)
         else
           let name_size = bytes_size_t (take 8 (drop (unat pos1) pg))
           in FindPageEnd_loop ps pg (pos1 + (name_size + st_size + st_size)))
      else Some (Inr pos))"

declare FindPageEnd_loop.simps [code]

definition FindPageEnd :: "size_t \<Rightarrow> string \<Rightarrow> size_t result" where
  "FindPageEnd ps pg = bindR (FindPageEnd_loop ps pg 0) (\<lambda>pos. ok (min pos (ps - st_size)))"

section \<open>The index\<close>

definition InsertDir :: "'p VFS \<Rightarrow> string \<Rightarrow> size_t \<Rightarrow> 'p \<Rightarrow> 'p VFS result" where
  "InsertDir st nm pg path =
     (let st1 = lock_guard st v_dirs_mutex in
      if virtual_dirs st1 nm = None
      then ok (st1\<lparr>virtual_dirs := (virtual_dirs st1)(nm \<mapsto> \<lparr>dir_p_file = path, dir_page = pg\<rparr>)\<rparr>)
      else throw DirAlreadyExists)"

definition InsertFile :: "'p VFS \<Rightarrow> string \<Rightarrow> size_t \<Rightarrow> 'p \<Rightarrow> 'p VFS result" where
  "InsertFile st nm pg path =
     (let st1 = lock_guard st v_files_mutex in
      if virtual_files st1 nm = None
      then ok (st1\<lparr>virtual_files := (virtual_files st1)(nm \<mapsto> File_new path nm pg)\<rparr>)
      else throw FileAlreadyExists)"

definition IncrementNumOfFiles :: "'p VFS \<Rightarrow> 'p \<Rightarrow> 'p VFS result" where
  "IncrementNumOfFiles st k =
     bindR (pfile_at st k) (\<lambda>pf.
       let (n, data) = pf_Read pf True st_size 0 in
       if st_size \<noteq> n then throw FileReadingError
       else
         let counter = bytes_size_t (store (replicate 8 (CHR 0x00)) data) + 1;
             (m, pf1) = pf_Write pf (Some (c_str (size_t_bytes counter))) st_size 0
         in if st_size \<noteq> m then throw FileWritingError
            else ok ((put_pfile st k pf1)\<lparr>num_of_files := num_of_files st + 1\<rparr>))"

text \<open>
  \<^verbatim>\<open>std::min_element\<close> over the map in key order, comparing \<^verbatim>\<open>GetSize()\<close>: the first of the
  smallest. On an empty map it would dereference \<^verbatim>\<open>end()\<close>.
\<close>

definition FindSmallestPFile :: "'p VFS \<Rightarrow> 'p result" where
  "FindSmallestPFile st =
     (case physical_files st of
        [] \<Rightarrow> throw UndefinedBehaviour
      | x # xs \<Rightarrow>
          ok (fst (foldl (\<lambda>smallest y. if GetSize (snd y) < GetSize (snd smallest) then y else smallest) x xs)))"

section \<open>Writing records and data\<close>

text \<open>The loop of \<^verbatim>\<open>WriteToFile\<close>: \<^verbatim>\<open>while (len - written_bytes)\<close>.\<close>

partial_function (option) WriteToFile_loop ::
  "size_t \<Rightarrow> 'p PhysicalFile \<Rightarrow> cptr \<Rightarrow> size_t \<Rightarrow> size_t \<Rightarrow> size_t \<Rightarrow> (size_t \<times> 'p PhysicalFile) result" where
  "WriteToFile_loop ps pf buf len pg written_bytes =
     (if len - written_bytes \<noteq> 0 then
        (let pf1 = SetNextPage ps pf pg ((GetSize pf - st_size) div ps);
             (n, pf2) = pf_Append pf1 (map_option (\<lambda>b. ptr_add b written_bytes) buf)
                          (min (ps - st_size) (len - written_bytes))
         in WriteToFile_loop ps pf2 buf len pg (written_bytes + n))
      else Some (Inr (written_bytes, pf)))"

declare WriteToFile_loop.simps [code]

definition WriteToFile ::
  "'p VFS \<Rightarrow> cptr \<Rightarrow> 'p \<Rightarrow> 'p \<Rightarrow> size_t \<Rightarrow> size_t \<Rightarrow> size_t \<Rightarrow> bool \<Rightarrow> (size_t \<times> 'p VFS) result" where
  "WriteToFile st buf k p_file_path len pg pos carry =
     (let ps = page_size st in
      if map_of (physical_files st) p_file_path = None then throw OutOfRange
      else
        let st1 = lock_guard st (io_mutexes p_file_path) in
        bindR (pfile_at st1 k) (\<lambda>pf.
          if len \<le> ps - pos - st_size then
            (let (n, pf1) = pf_Write pf buf len (pg * ps + pos + start)
             in ok (n, put_pfile st1 k pf1))
          else
            let (written_bytes, pf1) =
                  (if carry then pf_Write pf buf (ps - pos - st_size) (pg * ps + pos + start)
                   else (0, pf))
            in bindR (WriteToFile_loop ps pf1 buf len pg written_bytes) (\<lambda>(written_bytes, pf2).
                 let pf3 = snd (pf_Append pf2 (Some zeroes_sequence) (ps - (written_bytes mod ps)))
                 in ok (written_bytes, put_pfile st1 k pf3))))"

text \<open>The loop of \<^verbatim>\<open>CreateFile\<close> that follows the chain of the parent directory.\<close>

partial_function (option) CreateFile_chain ::
  "size_t \<Rightarrow> 'p PhysicalFile \<Rightarrow> size_t \<Rightarrow> string \<Rightarrow> (size_t \<times> string) result" where
  "CreateFile_chain ps pf pg buf =
     (let next_page = GetNextPage ps buf in
      if next_page \<noteq> 0
      then CreateFile_chain ps pf next_page (store buf (snd (pf_Read pf True ps (ps * next_page + start))))
      else Some (Inr (pg, buf)))"

declare CreateFile_chain.simps [code]

definition CreateFile :: "'p VFS \<Rightarrow> string \<Rightarrow> string \<Rightarrow> 'p \<Rightarrow> 'p \<Rightarrow> FileType \<Rightarrow> 'p VFS result" where
  "CreateFile st parent_dir fl k p_file_path type =
     (let ps = page_size st in
      bindR (pfile_at st k) (\<lambda>pf0.
        let pf = CreateEmptyPage ps pf0;
            st1 = put_pfile st k pf
        in bindR (if path_eq parent_dir vRoot then ok 0
                  else case virtual_dirs st1 parent_dir of
                         None \<Rightarrow> throw OutOfRange
                       | Some d \<Rightarrow> ok (dir_page d)) (\<lambda>pg0.
           bindR (CreateFile_chain ps pf pg0
                    (store (empty_page ps) (snd (pf_Read pf True ps (ps * pg0 + start))))) (\<lambda>(pg, buf).
             let name_size = (of_nat (length fl) :: size_t);
                 next_page = (GetSize pf - st_size) div ps - 1;
                 file_info = FileType_char type # size_t_bytes name_size @ fl @ size_t_bytes next_page
             in bindR (FindPageEnd ps buf) (\<lambda>page_end.
                bindR (WriteToFile st1 (Some (c_str file_info)) k p_file_path
                         (1 + st_size + name_size + st_size) pg page_end False) (\<lambda>(_, st2).
                  case type of
                    file \<Rightarrow> bindR (InsertFile st2 fl next_page p_file_path) (\<lambda>st3.
                              IncrementNumOfFiles st3 k)
                  | dir \<Rightarrow> InsertDir st2 fl next_page p_file_path))))))"

section \<open>Finding directories and files on disk\<close>

text \<open>
  \<^verbatim>\<open>OpenExistingDirectories\<close>, first loop: climbs from \<open>file_path\<close> to the nearest directory
  that is in \<open>virtual_dirs\<close> or to the root, and stacks the paths passed (the head of the
  list is the top of the stack).
\<close>

partial_function (option) OED_climb ::
  "(string \<rightharpoonup> 'p Dir) \<Rightarrow> string \<Rightarrow> string list \<Rightarrow> (string list \<times> string) result" where
  "OED_climb vd file_path dirs =
     (if vd file_path = None \<and> \<not> path_eq file_path vRoot
      then OED_climb vd (parent_path file_path) (file_path # dirs)
      else Some (Inr (dirs, file_path)))"

declare OED_climb.simps [code]

text \<open>The inner \<^verbatim>\<open>do ... while (page)\<close>: looks for the directory record of \<open>target\<close>.\<close>

partial_function (option) OED_find ::
  "'p VFS \<Rightarrow> 'p \<Rightarrow> string \<Rightarrow> size_t \<Rightarrow> (size_t \<times> 'p VFS) result" where
  "OED_find st k target pg =
     (case pfile_at st k of
        None \<Rightarrow> None
      | Some (Inl e) \<Rightarrow> Some (Inl e)
      | Some (Inr pf) \<Rightarrow>
          (let ps = page_size st;
               (n, buf) = pf_Read pf True ps (ps * pg + start) in
           if ps \<noteq> n then Some (Inl FileReadingError)
           else
             let pos = FindFileInPage buf target dir in
             if pos = npos then
               (let pg1 = GetNextPage ps buf in
                if pg1 \<noteq> 0 then OED_find st k target pg1 else Some (Inr (pg1, st)))
             else
               bindR (ReadFileInfo ps buf pos) (\<lambda>(info, new_pos).
                 bindR (InsertDir st (info_name info) (info_page info) k) (\<lambda>st1.
                   ok (info_page info, st1)))))"

declare OED_find.simps [code]

text \<open>The outer \<^verbatim>\<open>while (!dirs.empty())\<close>.\<close>

partial_function (option) OED_walk ::
  "'p VFS \<Rightarrow> 'p \<Rightarrow> string list \<Rightarrow> string \<Rightarrow> size_t \<Rightarrow> (string list \<times> string \<times> 'p VFS) result" where
  "OED_walk st k dirs file_path pg =
     (case dirs of
        [] \<Rightarrow> Some (Inr (dirs, file_path, st))
      | top_dir # rest \<Rightarrow>
          (case OED_find st k top_dir pg of
             None \<Rightarrow> None
           | Some (Inl e) \<Rightarrow> Some (Inl e)
           | Some (Inr (pg1, st1)) \<Rightarrow>
               if pg1 = 0 then Some (Inr (dirs, file_path, st1))
               else OED_walk st1 k rest top_dir pg1))"

declare OED_walk.simps [code]

text \<open>
  \<^verbatim>\<open>OpenExistingDirectories(fs::path& file_path)\<close>: returns the stack of directories that
  were not found, the path left in the caller's variable, and the state.
\<close>

definition OpenExistingDirectories :: "'p VFS \<Rightarrow> string \<Rightarrow> (string list \<times> string \<times> 'p VFS) result" where
  "OpenExistingDirectories st file_path0 =
     bindR (if \<not> path_eq file_path0 vRoot then OED_climb (virtual_dirs st) file_path0 []
            else ok ([], file_path0)) (\<lambda>(dirs, file_path).
       if dirs \<noteq> [] \<and> \<not> path_eq file_path vRoot then
         (case virtual_dirs st file_path of
            None \<Rightarrow> throw OutOfRange
          | Some open_dir \<Rightarrow> OED_walk st (dir_p_file open_dir) dirs file_path (dir_page open_dir))
       else ok (dirs, file_path, st))"

partial_function (option) OpenExistingFile_loop ::
  "'p VFS \<Rightarrow> 'p \<Rightarrow> string \<Rightarrow> size_t \<Rightarrow> (bool \<times> 'p VFS) result" where
  "OpenExistingFile_loop st k file_path pg =
     (case pfile_at st k of
        None \<Rightarrow> None
      | Some (Inl e) \<Rightarrow> Some (Inl e)
      | Some (Inr pf) \<Rightarrow>
          (let ps = page_size st;
               (n, buf) = pf_Read pf True ps (ps * pg + start) in
           if ps \<noteq> n then Some (Inl FileReadingError)
           else
             let pos = FindFileInPage buf file_path file in
             if pos = npos then
               (let pg1 = GetNextPage ps buf in
                if pg1 \<noteq> 0 then OpenExistingFile_loop st k file_path pg1
                else Some (Inr (False, st)))
             else
               bindR (ReadFileInfo ps buf pos) (\<lambda>(info, new_pos).
                 bindR (InsertFile st file_path (info_page info) (GetPath pf)) (\<lambda>st1.
                   ok (True, st1)))))"

declare OpenExistingFile_loop.simps [code]

definition OpenExistingFile :: "'p VFS \<Rightarrow> 'p \<Rightarrow> string \<Rightarrow> (bool \<times> 'p VFS) result" where
  "OpenExistingFile st k file_path =
     (case virtual_dirs st (parent_path file_path) of
        None \<Rightarrow> throw OutOfRange
      | Some d \<Rightarrow> OpenExistingFile_loop st k file_path (dir_page d))"

section \<open>The public operations\<close>

definition Open :: "'p VFS \<Rightarrow> string option \<Rightarrow> (string option \<times> 'p VFS) result" where
  "Open st nm_opt =
     (case nm_opt of
        None \<Rightarrow> ok (None, st)
      | Some nm \<Rightarrow>
          let v_file_path = absolute nm; ps = page_size st in
          if path_eq v_file_path vRoot \<or> path_eq (parent_path v_file_path) vRoot then ok (None, st)
          else
            let st1 = lock_guard st editing_files_mutex in
            (case virtual_files st1 v_file_path of
              Some f \<Rightarrow>
                if status f \<noteq> openR then ok (None, st1)
                else ok (Some v_file_path,
                         st1\<lparr>virtual_files := (virtual_files st1)(v_file_path \<mapsto> f\<lparr>readers := readers f + 1\<rparr>)\<rparr>)
            | None \<Rightarrow>
                bindR (OpenExistingDirectories st1 (parent_path v_file_path)) (\<lambda>(dirs, parent, st2).
                  if dirs \<noteq> [] then ok (None, st2)
                  else
                    case virtual_dirs st2 parent of
                      None \<Rightarrow> throw OutOfRange
                    | Some d \<Rightarrow>
                        let k = dir_p_file d in
                        bindR (pfile_at st2 k) (\<lambda>_.
                        bindR (if \<not> path_eq (parent_path v_file_path) vRoot
                               then OpenExistingFile st2 k v_file_path
                               else ok (False, st2)) (\<lambda>(file_found, st3).
                          if file_found then
                            (case virtual_files st3 v_file_path of
                               None \<Rightarrow> throw OutOfRange
                             | Some f \<Rightarrow>
                                 bindR (pfile_at st3 k) (\<lambda>pf.
                                   let (n, buf) = pf_Read pf True ps (page f * ps + start) in
                                   if n \<noteq> ps then throw FileReadingError
                                   else
                                     ok (Some v_file_path,
                                         st3\<lparr>virtual_files := (virtual_files st3)(v_file_path \<mapsto>
                                               f\<lparr>data_len := GetFileLength buf, status := openR,
                                                 readers := readers f + 1\<rparr>)\<rparr>)))
                          else ok (None, st3))))))"

text \<open>The loop of \<^verbatim>\<open>Create\<close> that creates the directories of the stack.\<close>

fun Create_dirs :: "'p VFS \<Rightarrow> 'p \<Rightarrow> 'p \<Rightarrow> string list \<Rightarrow> 'p VFS result" where
  "Create_dirs st k p_file_path [] = ok st"
| "Create_dirs st k p_file_path (parent # dirs) =
     (case CreateFile st (parent_path parent) parent k p_file_path dir of
        None \<Rightarrow> None
      | Some (Inl e) \<Rightarrow> Some (Inl e)
      | Some (Inr st1) \<Rightarrow> Create_dirs st1 k p_file_path dirs)"

definition Create :: "'p VFS \<Rightarrow> string option \<Rightarrow> (string option \<times> 'p VFS) result" where
  "Create st nm_opt =
     (case nm_opt of
        None \<Rightarrow> ok (None, st)
      | Some nm \<Rightarrow>
          let v_file_path = absolute nm; ps = page_size st in
          if path_eq v_file_path vRoot \<or> path_eq (parent_path v_file_path) vRoot then ok (None, st)
          else
            let st1 = lock_guard st editing_files_mutex in
            if virtual_files st1 v_file_path \<noteq> None then ok (None, st1)
            else
              bindR (OpenExistingDirectories st1 (parent_path v_file_path)) (\<lambda>(dirs, parent, st2).
              bindR (if path_eq parent vRoot then FindSmallestPFile st2
                     else case virtual_dirs st2 parent of
                            None \<Rightarrow> throw OutOfRange
                          | Some d \<Rightarrow> bindR (pfile_at st2 (dir_p_file d)) (\<lambda>_. ok (dir_p_file d))) (\<lambda>k.
              bindR (if dirs = [] \<and> \<not> path_eq (parent_path v_file_path) vRoot
                     then OpenExistingFile st2 k v_file_path
                     else ok (False, st2)) (\<lambda>(file_found, st3).
              bindR (pfile_at st3 k) (\<lambda>pf.
                let p_file_path = GetPath pf in
                if map_of (physical_files st3) p_file_path = None then throw OutOfRange
                else
                  let st4 = lock_guard st3 (io_mutexes p_file_path) in
                  bindR (Create_dirs st4 k p_file_path dirs) (\<lambda>st5.
                  bindR (if \<not> file_found
                         then CreateFile st5 (parent_path v_file_path) v_file_path k p_file_path file
                         else
                           case virtual_files st5 v_file_path of
                             None \<Rightarrow> throw OutOfRange
                           | Some f \<Rightarrow>
                               bindR (pfile_at st5 k) (\<lambda>pf1.
                                 let (n, buf) = pf_Read pf1 True ps (page f * ps + start) in
                                 if n \<noteq> ps then throw FileReadingError
                                 else ok (st5\<lparr>virtual_files := (virtual_files st5)(v_file_path \<mapsto>
                                                f\<lparr>data_len := GetFileLength buf\<rparr>)\<rparr>))) (\<lambda>st6.
                    case virtual_files st6 v_file_path of
                      None \<Rightarrow> throw OutOfRange
                    | Some f \<Rightarrow>
                        ok (Some v_file_path,
                            st6\<lparr>virtual_files := (virtual_files st6)(v_file_path \<mapsto>
                                  f\<lparr>status := openW\<rparr>)\<rparr>))))))))"

text \<open>
  The loop of \<^verbatim>\<open>Read\<close>. \<open>out\<close> is what the caller's buffer holds so far; each read is stored
  at \<^verbatim>\<open>buff + read_bytes\<close>.
\<close>

partial_function (option) Read_loop ::
  "size_t \<Rightarrow> 'p PhysicalFile \<Rightarrow> 'p File \<Rightarrow> size_t \<Rightarrow> size_t \<Rightarrow> size_t \<Rightarrow> string \<Rightarrow> (size_t \<times> string) result" where
  "Read_loop ps pf f len pg read_bytes out =
     (if read_bytes \<noteq> len then
        (let pg1 = bytes_size_t (store (size_t_bytes pg)
                     (snd (pf_Read pf True st_size ((pg + 1) * ps - st_size + start))));
             (n, data) = pf_Read pf True (min (ps - st_size) (len - read_bytes))
                           (page f * ps + start + st_size)
         in Read_loop ps pf f len pg1 (read_bytes + n) (overwrite out (unat read_bytes) data))
      else Some (Inr (read_bytes, out)))"

declare Read_loop.simps [code]

text \<open>
  \<^verbatim>\<open>Read\<close> returns the count and the bytes stored into \<^verbatim>\<open>buff\<close>; it does not change the
  object, so no state is returned. \<open>buff\<close> says whether the destination is non-null.
\<close>

definition Read :: "'p VFS \<Rightarrow> string option \<Rightarrow> bool \<Rightarrow> size_t \<Rightarrow> (size_t \<times> string) result" where
  "Read st f_opt buff len0 =
     (case f_opt of
        None \<Rightarrow> ok (0, [])
      | Some h \<Rightarrow>
          if \<not> buff \<or> len0 = 0 then ok (0, [])
          else
            (case virtual_files st h of
              None \<Rightarrow> throw UndefinedBehaviour
            | Some f \<Rightarrow>
                if status f \<noteq> openR then ok (0, [])
                else
                  bindR (pfile_at st (p_file f)) (\<lambda>pf.
                    let ps = page_size st;
                        len = (if len0 \<le> data_len f then len0 else data_len f) in
                    if len \<le> ps - st_size - st_size
                    then ok (pf_Read pf True len (page f * ps + start + st_size))
                    else
                      let (read_bytes, out) =
                            pf_Read pf True (ps - st_size - st_size) (page f * ps + start + st_size)
                      in Read_loop ps pf f len (page f) read_bytes out)))"

definition Write :: "'p VFS \<Rightarrow> string option \<Rightarrow> cptr \<Rightarrow> size_t \<Rightarrow> (size_t \<times> 'p VFS) result" where
  "Write st f_opt buff len =
     (case f_opt of
        None \<Rightarrow> ok (0, st)
      | Some h \<Rightarrow>
          if buff = None \<or> len = 0 then ok (0, st)
          else
            (case virtual_files st h of
              None \<Rightarrow> throw UndefinedBehaviour
            | Some f \<Rightarrow>
                if status f \<noteq> openW then ok (0, st)
                else
                  let ps = page_size st in
                  bindR (pfile_at st (p_file f)) (\<lambda>_.
                  bindR (WriteToFile st buff (p_file f) (p_file f) len (page f)
                           ((data_len f mod (ps - st_size)) + st_size) True) (\<lambda>(written_bytes, st1).
                    let f1 = f\<lparr>data_len := data_len f + written_bytes\<rparr>;
                        st2 = st1\<lparr>virtual_files := (virtual_files st1)(h \<mapsto> f1)\<rparr>
                    in bindR (pfile_at st2 (p_file f)) (\<lambda>pf.
                         ok (written_bytes,
                             put_pfile st2 (p_file f) (SetFileLength ps pf (page f) (data_len f1))))))))"

definition Close :: "'p VFS \<Rightarrow> string option \<Rightarrow> 'p VFS" where
  "Close st f_opt =
     (case f_opt of
        None \<Rightarrow> st
      | Some h \<Rightarrow>
          (case virtual_files st h of
             None \<Rightarrow> st
           | Some f \<Rightarrow>
               if readers f \<noteq> 0 \<and> readers f - 1 \<noteq> 0
               then st\<lparr>virtual_files := (virtual_files st)(h \<mapsto> f\<lparr>readers := readers f - 1\<rparr>)\<rparr>
               else
                 let st1 = lock_guard st editing_files_mutex
                 in st1\<lparr>virtual_files := (virtual_files st1)(h := None)\<rparr>))"

section \<open>Construction\<close>

text \<open>The inner loop of \<^verbatim>\<open>Init\<close>: the records of one page.\<close>

partial_function (option) Init_records :: "'p VFS \<Rightarrow> 'p \<Rightarrow> string \<Rightarrow> size_t \<Rightarrow> 'p VFS result" where
  "Init_records st path buf pos =
     (case ReadFileInfo (page_size st) buf pos of
        None \<Rightarrow> None
      | Some (Inl e) \<Rightarrow> Some (Inl e)
      | Some (Inr (info, new_pos)) \<Rightarrow>
          (case (if info_type info = FileType_char dir
                 then InsertDir st (info_name info) (info_page info) path
                 else ok st) of
             None \<Rightarrow> None
           | Some (Inl e) \<Rightarrow> Some (Inl e)
           | Some (Inr st1) \<Rightarrow>
               if new_pos > 0 \<and> new_pos < page_size st - st_size
               then Init_records st1 path buf new_pos
               else Some (Inr st1)))"

declare Init_records.simps [code]

text \<open>The outer loop of \<^verbatim>\<open>Init\<close>: the pages of the chain of page 0.\<close>

partial_function (option) Init_pages :: "'p VFS \<Rightarrow> 'p \<Rightarrow> 'p PhysicalFile \<Rightarrow> size_t \<Rightarrow> 'p VFS result" where
  "Init_pages st path pf pg =
     (let ps = page_size st;
          (n, buf) = pf_Read pf True ps (pg * ps + start) in
      if n \<noteq> ps then Some (Inl FileReadingError)
      else
        case Init_records st path buf 0 of
          None \<Rightarrow> None
        | Some (Inl e) \<Rightarrow> Some (Inl e)
        | Some (Inr st1) \<Rightarrow>
            (let pg1 = GetNextPage ps buf in
             if pg1 > 0 then Init_pages st1 path pf pg1 else Some (Inr st1)))"

declare Init_pages.simps [code]

definition Init :: "'p VFS \<Rightarrow> 'p \<Rightarrow> 'p PhysicalFile \<Rightarrow> 'p VFS result" where
  "Init st path pf =
     (let (n, st_buf) = pf_Read pf True st_size 0 in
      if st_size \<noteq> n then throw FileReadingError
      else if bytes_size_t st_buf = 0 then ok st
      else Init_pages (st\<lparr>num_of_files := num_of_files st + bytes_size_t st_buf\<rparr>) path pf 0)"

text \<open>
  The constructor. The host file system is outside the model: \<open>root_is_directory\<close> is
  what \<^verbatim>\<open>fs::is_directory(root)\<close> returns, \<open>files\<close> are the paths made absolute, and \<open>host p\<close> is
  the content of the host file \<open>p\<close> when it is opened (empty when it did not exist). The
  \<^verbatim>\<open>Init\<close> tasks are run one after the other, in key order.
\<close>

fun VFS_files :: "'p::linorder VFS \<Rightarrow> ('p \<Rightarrow> string) \<Rightarrow> 'p list \<Rightarrow> 'p VFS result" where
  "VFS_files st host [] = ok st"
| "VFS_files st host (f # files) =
     (if map_of (physical_files st) f \<noteq> None then throw FileAlreadyExists
      else
        let pf = PhysicalFile_new f (host f) in
        if GetSize pf = 0 then
          (let (n, pf1) = pf_Append pf (Some zeroes_sequence) st_size in
           if st_size \<noteq> n then throw FileWritingError
           else VFS_files (st\<lparr>physical_files :=
                  insort_key fst (f, CreateEmptyPage (page_size st) pf1) (physical_files st)\<rparr>) host files)
        else VFS_files (st\<lparr>physical_files := insort_key fst (f, pf) (physical_files st)\<rparr>) host files)"

fun VFS_inits :: "'p VFS \<Rightarrow> ('p \<times> 'p PhysicalFile) list \<Rightarrow> 'p VFS result" where
  "VFS_inits st [] = ok st"
| "VFS_inits st ((path, pf) # rest) =
     (case Init st path pf of
        None \<Rightarrow> None
      | Some (Inl e) \<Rightarrow> Some (Inl e)
      | Some (Inr st1) \<Rightarrow> VFS_inits st1 rest)"

definition VFS_new :: "nat \<Rightarrow> size_t \<Rightarrow> bool \<Rightarrow> ('p::linorder \<Rightarrow> string) \<Rightarrow> 'p list \<Rightarrow> 'p VFS result" where
  "VFS_new max_files ps root_is_directory host files =
     (if length files = 0 then throw NoFiles
      else if length files > max_files then throw TooManyFiles
      else if \<not> root_is_directory then throw RootIsNotDirectory
      else
        bindR (VFS_files \<lparr>page_size = ps, physical_files = [], virtual_files = Map.empty,
                          virtual_dirs = Map.empty, num_of_files = 0, locked = []\<rparr> host files) (\<lambda>st.
          VFS_inits st (physical_files st)))"

section \<open>Sequences of calls\<close>

text \<open>
  A client calls the five public operations one after the other. A call that throws ends the
  sequence with its error; the handle or byte count a call returns is dropped here, only the
  state is passed on.
\<close>

datatype call =
    Open_call "string option"
  | Create_call "string option"
  | Read_call "string option" bool size_t
  | Write_call "string option" cptr size_t
  | Close_call "string option"

fun call_step :: "'p VFS \<Rightarrow> call \<Rightarrow> 'p VFS result" where
  "call_step st (Open_call nm) = bindR (Open st nm) (\<lambda>(h, st'). ok st')"
| "call_step st (Create_call nm) = bindR (Create st nm) (\<lambda>(h, st'). ok st')"
| "call_step st (Read_call f buff len) = bindR (Read st f buff len) (\<lambda>r. ok st)"
| "call_step st (Write_call f buff len) = bindR (Write st f buff len) (\<lambda>(n, st'). ok st')"
| "call_step st (Close_call f) = ok (Close st f)"

fun calls :: "'p VFS \<Rightarrow> call list \<Rightarrow> 'p VFS result" where
  "calls st [] = ok st"
| "calls st (c # cs) = bindR (call_step st c) (\<lambda>st'. calls st' cs)"

text \<open>The path \<open>v\<close> has an entry in \<open>virtual_files\<close> whose status is \<open>openW\<close>.\<close>

definition writer :: "'p VFS \<Rightarrow> string \<Rightarrow> bool" where
  "writer st v = (case virtual_files st v of None \<Rightarrow> False | Some f \<Rightarrow> status f = openW)"

section \<open>A run with the default parameters\<close>

text \<open>
  The states of one run of \<^verbatim>\<open>VFS<5, 4096>\<close> on a single backing file (key 0) that is empty at
  construction: \<^verbatim>\<open>Create("/d1/g")\<close>, \<^verbatim>\<open>Write\<close> of 4081 bytes \<open>D\<close>, \<^verbatim>\<open>Close\<close>, \<^verbatim>\<open>Open("/d1/g")\<close>.
  They are shown below to be what the operations compute.
\<close>

definition vfs0 :: "nat VFS" where
  "vfs0 = \<lparr>page_size = 4096,
      physical_files = [(0, \<lparr>filepath = 0,
         str = replicate 8 (CHR 0x00) @ replicate 4096 (CHR 0x00), file_size = 4104\<rparr>)],
      virtual_files = Map.empty, virtual_dirs = Map.empty, num_of_files = 0, locked = []\<rparr>"

definition rec_d1 :: string where
  "rec_d1 = CHR 0x07 # size_t_bytes 3 @ ''/d1'' @ size_t_bytes 1"

definition rec_g :: string where
  "rec_g = CHR 0x70 # size_t_bytes 5 @ ''/d1/g'' @ size_t_bytes 2"

definition vfs_d1 :: "nat VFS" where
  "vfs_d1 = \<lparr>page_size = 4096,
      physical_files = [(0, \<lparr>filepath = 0,
         str = replicate 8 (CHR 0x00) @ (rec_d1 @ replicate 4076 (CHR 0x00)) @ replicate 4096 (CHR 0x00),
         file_size = 8200\<rparr>)],
      virtual_files = Map.empty,
      virtual_dirs = [''/d1'' \<mapsto> \<lparr>dir_p_file = 0, dir_page = 1\<rparr>],
      num_of_files = 0,
      locked = [editing_files_mutex, io_mutexes 0, io_mutexes 0, v_dirs_mutex]\<rparr>"

definition disk_dirs :: string where
  "disk_dirs = size_t_bytes 1 @ (rec_d1 @ replicate 4076 (CHR 0x00)) @ (rec_g @ replicate 4074 (CHR 0x00))"

definition file_g :: "size_t \<Rightarrow> FileStatus \<Rightarrow> size_t \<Rightarrow> nat File" where
  "file_g len s r = \<lparr>p_file = 0, name = ''/d1/g'', data_len = len, page = 2, status = s, readers = r\<rparr>"

definition vfs_g :: "nat VFS" where
  "vfs_g = \<lparr>page_size = 4096,
      physical_files = [(0, \<lparr>filepath = 0, str = disk_dirs @ replicate 4096 (CHR 0x00), file_size = 12296\<rparr>)],
      virtual_files = [''/d1/g'' \<mapsto> file_g 0 closed 0],
      virtual_dirs = [''/d1'' \<mapsto> \<lparr>dir_p_file = 0, dir_page = 1\<rparr>],
      num_of_files = 1,
      locked = [editing_files_mutex, io_mutexes 0, io_mutexes 0, v_dirs_mutex, io_mutexes 0, v_files_mutex]\<rparr>"

definition vfs1 :: "nat VFS" where
  "vfs1 = vfs_g\<lparr>virtual_files := [''/d1/g'' \<mapsto> file_g 0 openW 0]\<rparr>"

definition disk_written :: "string \<Rightarrow> string" where
  "disk_written D = disk_dirs @ (size_t_bytes 4081 @ take 4080 D @ size_t_bytes 3)
                      @ [D ! 4080] @ replicate 15 (CHR 0x00)"

definition vfs2 :: "string \<Rightarrow> nat VFS" where
  "vfs2 D = vfs1\<lparr>physical_files := [(0, \<lparr>filepath = 0, str = disk_written D, file_size = 12312\<rparr>)],
      virtual_files := [''/d1/g'' \<mapsto> file_g 4081 openW 0],
      locked := locked vfs1 @ [io_mutexes 0]\<rparr>"

definition vfs3 :: "string \<Rightarrow> nat VFS" where
  "vfs3 D = (vfs2 D)\<lparr>virtual_files := Map.empty, locked := locked (vfs2 D) @ [editing_files_mutex]\<rparr>"

definition vfs4 :: "string \<Rightarrow> nat VFS" where
  "vfs4 D = (vfs3 D)\<lparr>virtual_files := [''/d1/g'' \<mapsto> file_g 4081 openR 1],
       locked := locked (vfs3 D) @ [editing_files_mutex, v_files_mutex]\<rparr>"

text \<open>4081 bytes whose last byte differs from the first.\<close>

definition data4081 :: string where
  "data4081 = replicate 4080 (CHR ''a'') @ [CHR ''b'']"

text \<open>
  The sequence of the round trip: \<^verbatim>\<open>Create(p); Write(h, D, |D|); Close(h); h' = Open(p);
  Read(h', out, |D|)\<close>. The result is what \<^verbatim>\<open>Read\<close> returns and stores into \<^verbatim>\<open>out\<close>.
\<close>

definition round_trip :: "'p VFS \<Rightarrow> string \<Rightarrow> string \<Rightarrow> (size_t \<times> string) result" where
  "round_trip st p D =
     bindR (Create st (Some p)) (\<lambda>(h, st1).
     bindR (Write st1 h (Some (c_str D)) (of_nat (length D))) (\<lambda>(n, st2).
     bindR (Open (Close st2 h) (Some p)) (\<lambda>(h', st4).
       Read st4 h' True (of_nat (length D)))))"

text \<open>\<^verbatim>\<open>(size(b) - W) mod PAGE_SIZE\<close> for each backing file, in key order.\<close>

definition size_residues :: "'p VFS \<Rightarrow> size_t list" where
  "size_residues st = map (\<lambda>(k, pf). (GetSize pf - st_size) mod page_size st) (physical_files st)"

section \<open>The on-disk format in the specification's words\<close>

text \<open>
  These definitions follow the data model of the specification, not the code; claim C8 is
  stated against them. A backing file is a header of 8 bytes followed by pages; page \<open>p\<close>
  starts at offset \<open>8 + p * PAGE_SIZE\<close> and is present when it lies inside the file.
\<close>

definition spec_page :: "nat \<Rightarrow> string \<Rightarrow> nat \<Rightarrow> string option" where
  "spec_page ps b p =
     (if 8 + (p + 1) * ps \<le> length b then Some (take ps (drop (8 + p * ps) b)) else None)"

text \<open>The last 8 bytes of a page are the link to the next page.\<close>

definition spec_next_page :: "nat \<Rightarrow> string \<Rightarrow> nat" where
  "spec_next_page ps pg = unat (bytes_size_t (drop (ps - 8) pg))"

text \<open>
  The metadata records of a directory page: they pack from the start of the page, each is a
  type byte, a name length of 8 bytes, the name and a page number of 8 bytes; a type byte
  of 0 ends the sequence, and a record lies before the link.
\<close>

function spec_records :: "nat \<Rightarrow> string \<Rightarrow> nat \<Rightarrow> Info list" where
  "spec_records ps pg pos =
     (if pos + 8 < ps \<and> pos < length pg \<and> pg ! pos \<noteq> CHR 0x00 then
        (let n = unat (bytes_size_t (take 8 (drop (pos + 1) pg))) in
         if pos + 17 + n + 8 \<le> ps
         then Info (pg ! pos) (take n (drop (pos + 9) pg))
                (bytes_size_t (take 8 (drop (pos + 9 + n) pg)))
              # spec_records ps pg (pos + 17 + n)
         else [])
      else [])"
  by pat_completeness auto
termination
  by (relation "measure (\<lambda>(ps, pg, pos). ps - pos)") auto

declare spec_records.simps [simp del]

text \<open>
  \<open>spec_chain ps b p r\<close>: page \<open>r\<close> is on the chain that starts at page \<open>p\<close>. A link of 0 ends
  the chain.
\<close>

inductive spec_chain :: "nat \<Rightarrow> string \<Rightarrow> nat \<Rightarrow> nat \<Rightarrow> bool" for ps :: nat and b :: string where
  here: "spec_page ps b p = Some pg \<Longrightarrow> spec_chain ps b p p"
| link: "spec_page ps b p = Some pg \<Longrightarrow> spec_next_page ps pg = q \<Longrightarrow> q \<noteq> 0 \<Longrightarrow>
         spec_chain ps b q r \<Longrightarrow> spec_chain ps b p r"

code_pred spec_chain .

text \<open>
  A page is well packed when every type byte that is not 0 and lies before the link starts a
  record that ends before the link.
\<close>

function spec_packed :: "nat \<Rightarrow> string \<Rightarrow> nat \<Rightarrow> bool" where
  "spec_packed ps pg pos =
     (if pos + 8 < ps \<and> pos < length pg \<and> pg ! pos \<noteq> CHR 0x00 then
        (let n = unat (bytes_size_t (take 8 (drop (pos + 1) pg))) in
         if pos + 17 + n + 8 \<le> ps then spec_packed ps pg (pos + 17 + n) else False)
      else True)"
  by pat_completeness auto
termination
  by (relation "measure (\<lambda>(ps, pg, pos). ps - pos)") auto

declare spec_packed.simps [simp del]

text \<open>
  \<open>spec_walk ps b p qs\<close>: the chain that starts at page \<open>p\<close> is \<open>p # qs\<close>, every page of it is
  present and the link of the last one is 0. No such \<open>qs\<close> exists for a chain that runs into a
  cycle or leaves the file.
\<close>

primrec spec_walk :: "nat \<Rightarrow> string \<Rightarrow> nat \<Rightarrow> nat list \<Rightarrow> bool" where
  "spec_walk ps b p [] =
     (case spec_page ps b p of None \<Rightarrow> False | Some pg \<Rightarrow> spec_next_page ps pg = 0)"
| "spec_walk ps b p (q # qs) =
     (case spec_page ps b p of None \<Rightarrow> False
      | Some pg \<Rightarrow> spec_next_page ps pg = q \<and> q \<noteq> 0 \<and> spec_walk ps b q qs)"

text \<open>The records of page \<open>p\<close> of a file, and of a list of pages; the names of directory records.\<close>

definition spec_page_records :: "nat \<Rightarrow> string \<Rightarrow> nat \<Rightarrow> Info list" where
  "spec_page_records ps b p =
     (case spec_page ps b p of None \<Rightarrow> [] | Some pg \<Rightarrow> spec_records ps pg 0)"

definition spec_page_packed :: "nat \<Rightarrow> string \<Rightarrow> nat \<Rightarrow> bool" where
  "spec_page_packed ps b p =
     (case spec_page ps b p of None \<Rightarrow> False | Some pg \<Rightarrow> spec_packed ps pg 0)"

definition spec_chain_records :: "nat \<Rightarrow> string \<Rightarrow> nat list \<Rightarrow> Info list" where
  "spec_chain_records ps b pages = concat (map (spec_page_records ps b) pages)"

definition dir_names :: "Info list \<Rightarrow> string list" where
  "dir_names rs = map info_name (filter (\<lambda>r. info_type r = FileType_char dir) rs)"

text \<open>
  The backing file that the run above leaves after \<^verbatim>\<open>Create("/d1/g")\<close>, and a new object bound
  to it before \<^verbatim>\<open>Init\<close> runs.
\<close>

definition pf_dirs :: "nat PhysicalFile" where
  "pf_dirs = \<lparr>filepath = 0, str = disk_dirs @ replicate 4096 (CHR 0x00), file_size = 12296\<rparr>"

definition vfs_boot :: "nat VFS" where
  "vfs_boot = vfs0\<lparr>physical_files := [(0, pf_dirs)]\<rparr>"

text \<open>
  A backing file for page size 64 with three directories in the root: page 0 holds the
  records of \<open>/d1\<close> and \<open>/d2\<close>, a third record does not fit before the link, so page 0 links
  to page 6, which holds the record of \<open>/d3\<close>. Pages 1, 3 and 5 are the pages of the three
  directories, each with the record of one file; pages 2, 4 and 7 are the first pages of
  these files. \<open>vfs_chain\<close> is a new object bound to this file before \<^verbatim>\<open>Init\<close> runs.
\<close>

definition dir_record :: "string \<Rightarrow> size_t \<Rightarrow> string" where
  "dir_record nm pg = FileType_char dir # size_t_bytes (of_nat (length nm)) @ nm @ size_t_bytes pg"

definition file_record :: "string \<Rightarrow> size_t \<Rightarrow> string" where
  "file_record nm pg = FileType_char file # size_t_bytes (of_nat (length nm)) @ nm @ size_t_bytes pg"

definition page0_chain :: string where
  "page0_chain = dir_record ''/d1'' 1 @ dir_record ''/d2'' 3 @ replicate 16 (CHR 0x00) @ size_t_bytes 6"

definition page6_chain :: string where
  "page6_chain = dir_record ''/d3'' 5 @ replicate 36 (CHR 0x00) @ size_t_bytes 0"

definition disk_chain :: string where
  "disk_chain = size_t_bytes 3 @ page0_chain
     @ (file_record ''/d1/g'' 2 @ replicate 42 (CHR 0x00)) @ replicate 64 (CHR 0x00)
     @ (file_record ''/d2/g'' 4 @ replicate 42 (CHR 0x00)) @ replicate 64 (CHR 0x00)
     @ (file_record ''/d3/g'' 7 @ replicate 42 (CHR 0x00))
     @ page6_chain @ replicate 64 (CHR 0x00)"

definition vfs_chain :: "nat VFS" where
  "vfs_chain = \<lparr>page_size = 64, physical_files = [(0, PhysicalFile_new 0 disk_chain)],
      virtual_files = Map.empty, virtual_dirs = Map.empty, num_of_files = 0, locked = []\<rparr>"

section \<open>Basic facts about results\<close>

lemma bindR_ok [simp]: "bindR (ok x) f = f x"
  by (simp add: bindR_def ok_def)

lemma bindR_throw [simp]: "bindR (throw e) f = throw e"
  by (simp add: bindR_def throw_def)

lemma bindR_None [simp]: "bindR None f = None"
  by (simp add: bindR_def)

lemma ok_inject [simp]: "(ok x = ok y) = (x = y)"
  by (simp add: ok_def)

lemma ok_not_throw [simp]:
  "ok x \<noteq> throw e" "throw e \<noteq> ok x" "ok x \<noteq> None" "throw e \<noteq> None"
  "None \<noteq> ok x" "None \<noteq> throw e"
  by (simp_all add: ok_def throw_def)

lemma bindR_eq_ok: "bindR m f = ok y \<longleftrightarrow> (\<exists>x. m = ok x \<and> f x = ok y)"
  by (auto simp: bindR_def ok_def split: option.splits sum.splits)

lemma bindR_okE: "bindR m f = ok y \<Longrightarrow> (\<And>x. m = ok x \<Longrightarrow> f x = ok y \<Longrightarrow> P) \<Longrightarrow> P"
  by (auto simp: bindR_eq_ok)

section \<open>The backing file\<close>

lemma overwrite_inside:
  "pos \<le> length s \<Longrightarrow> overwrite s pos d = take pos s @ d @ drop (pos + length d) s"
  by (simp add: overwrite_def)

lemma pf_Write_unfold:
  "len \<noteq> 0 \<Longrightarrow> pos \<le> GetSize pf \<Longrightarrow>
   pf_Write pf (Some b) len pos =
     (len, pf\<lparr>str := overwrite (str pf) (unat pos) (map b [0..<unat len]),
              file_size := (if pos + len > file_size pf then pos + len else file_size pf)\<rparr>)"
  by (simp add: pf_Write_def Let_def not_less[symmetric])

lemma pf_Write_inside:
  assumes sz: "file_size pf = of_nat (length (str pf))" and bound: "length (str pf) < 2 ^ 64"
    and len: "len \<noteq> 0" and pos: "pos \<le> GetSize pf" and nov: "unat pos + unat len < 2 ^ 64"
  shows "\<exists>pf'. pf_Write pf (Some b) len pos = (len, pf')
           \<and> str pf' = take (unat pos) (str pf) @ map b [0..<unat len]
                          @ drop (unat pos + unat len) (str pf)
           \<and> length (str pf') = max (length (str pf)) (unat pos + unat len)
           \<and> file_size pf' = of_nat (length (str pf'))
           \<and> GetSize pf' = of_nat (length (str pf'))
           \<and> filepath pf' = filepath pf"
proof -
  let ?L = "length (str pf)"
  have gs: "GetSize pf = of_nat ?L" by (simp add: GetSize_def sz)
  have ul: "unat (of_nat ?L :: size_t) = ?L"
    using bound by (simp add: unat_of_nat)
  have pl: "unat pos \<le> ?L" using pos gs ul by (simp add: word_le_nat_alt)
  have ua: "unat (pos + len) = unat pos + unat len"
    using nov by (simp add: unat_add_lem[THEN iffD1])
  have cmp: "(pos + len > file_size pf) = (unat pos + unat len > ?L)"
    by (simp add: sz word_less_nat_alt ul ua)
  define pf' where "pf' = pf\<lparr>str := overwrite (str pf) (unat pos) (map b [0..<unat len]),
              file_size := (if pos + len > file_size pf then pos + len else file_size pf)\<rparr>"
  have w: "pf_Write pf (Some b) len pos = (len, pf')"
    unfolding pf'_def using len pos by (rule pf_Write_unfold)
  have s: "str pf' = take (unat pos) (str pf) @ map b [0..<unat len]
                       @ drop (unat pos + unat len) (str pf)"
    using pl by (simp add: pf'_def overwrite_inside)
  have l: "length (str pf') = max ?L (unat pos + unat len)"
    using pl by (simp add: s max_def)
  have fs: "file_size pf' = (if pos + len > file_size pf then pos + len else file_size pf)"
    by (simp add: pf'_def)
  have f: "file_size pf' = of_nat (length (str pf'))"
    unfolding l fs using cmp by (simp add: max_def sz)
  have g: "GetSize pf' = of_nat (length (str pf'))"
    by (simp add: GetSize_def f)
  have p: "filepath pf' = filepath pf" by (simp add: pf'_def)
  from w s l f g p show ?thesis by blast
qed

text \<open>
  Claim C7, as amended. \<^verbatim>\<open>PhysicalFile::Write(buf, len, pos)\<close> with a non-null buffer and
  \<open>len > 0\<close> writes \<open>len\<close> bytes at \<open>pos\<close>, extends the file when \<open>pos + len\<close> is past its
  end, leaves the tracked size equal to the new size of the file and returns \<open>len\<close>,
  provided that \<open>pos\<close> is not past the end of the file (\<open>pos \<le> GetSize\<close>). The object
  tracks the real size of the host file, as it does after its constructor, and the
  arithmetic does not overflow 64 bits. For every \<open>pos\<close> past the end of the file
  (\<open>GetSize < pos\<close>), whatever the buffer and the length, it returns 0 and leaves the file
  and the tracked size as they were.
\<close>

theorem pf_Write_within_file:
  "(file_size pf = of_nat (length (str pf)) \<and> length (str pf) < 2 ^ 64
      \<and> len \<noteq> 0 \<and> pos \<le> GetSize pf \<and> unat pos + unat len < 2 ^ 64 \<longrightarrow>
      (\<exists>pf'. pf_Write pf (Some b) len pos = (len, pf')
           \<and> str pf' = take (unat pos) (str pf) @ map b [0..<unat len]
                          @ drop (unat pos + unat len) (str pf)
           \<and> length (str pf') = max (length (str pf)) (unat pos + unat len)
           \<and> file_size pf' = of_nat (length (str pf'))
           \<and> GetSize pf' = of_nat (length (str pf'))
           \<and> filepath pf' = filepath pf))
   \<and> (GetSize pf < pos \<longrightarrow> pf_Write pf buf len pos = (0, pf))"
proof (intro conjI impI)
  assume "file_size pf = of_nat (length (str pf)) \<and> length (str pf) < 2 ^ 64
      \<and> len \<noteq> 0 \<and> pos \<le> GetSize pf \<and> unat pos + unat len < 2 ^ 64"
  then show "\<exists>pf'. pf_Write pf (Some b) len pos = (len, pf')
           \<and> str pf' = take (unat pos) (str pf) @ map b [0..<unat len]
                          @ drop (unat pos + unat len) (str pf)
           \<and> length (str pf') = max (length (str pf)) (unat pos + unat len)
           \<and> file_size pf' = of_nat (length (str pf'))
           \<and> GetSize pf' = of_nat (length (str pf'))
           \<and> filepath pf' = filepath pf"
    using pf_Write_inside[of pf len pos b] by blast
next
  assume "GetSize pf < pos"
  then show "pf_Write pf buf len pos = (0, pf)"
    by (simp add: pf_Write_def split: option.splits)
qed

theorem pf_Write_within_file_witness:
  "(\<exists>pf'. pf_Write \<lparr>filepath = (0::nat), str = ''abc'', file_size = 3\<rparr> (Some (c_str ''xyz'')) 2 2 = (2, pf')
      \<and> str pf' = ''abxy'' \<and> file_size pf' = 4)
   \<and> pf_Write \<lparr>filepath = (0::nat), str = ''abc'', file_size = 3\<rparr> (Some (c_str ''xyz'')) 2 5
       = (0, \<lparr>filepath = 0, str = ''abc'', file_size = 3\<rparr>)
   \<and> pf_Write \<lparr>filepath = (0::nat), str = ''abc'', file_size = 3\<rparr> (Some (c_str ''xyz'')) 3 (2 ^ 64 - 1)
       = (0, \<lparr>filepath = 0, str = ''abc'', file_size = 3\<rparr>)"
proof -
  let ?pf = "\<lparr>filepath = (0::nat), str = ''abc'', file_size = 3\<rparr>"
  have past: "pf_Write ?pf (Some (c_str ''xyz'')) 2 5 = (0, ?pf)"
    using pf_Write_within_file[of ?pf 2 5 "c_str ''xyz''" "Some (c_str ''xyz'')"]
    by (simp add: GetSize_def)
  have far: "pf_Write ?pf (Some (c_str ''xyz'')) 3 (2 ^ 64 - 1) = (0, ?pf)"
    using pf_Write_within_file[of ?pf 3 "2 ^ 64 - 1" "c_str ''xyz''" "Some (c_str ''xyz'')"]
    by (simp add: GetSize_def)
  have "\<exists>pf'. pf_Write ?pf (Some (c_str ''xyz'')) 2 2 = (2, pf')
           \<and> str pf' = take (unat (2::size_t)) (str ?pf) @ map (c_str ''xyz'') [0..<unat (2::size_t)]
                          @ drop (unat (2::size_t) + unat (2::size_t)) (str ?pf)
           \<and> length (str pf') = max (length (str ?pf)) (unat (2::size_t) + unat (2::size_t))
           \<and> file_size pf' = of_nat (length (str pf'))
           \<and> GetSize pf' = of_nat (length (str pf'))
           \<and> filepath pf' = filepath ?pf"
    using pf_Write_within_file[of ?pf 2 2 "c_str ''xyz''" None]
    by (simp add: GetSize_def)
  then obtain pf' where w: "pf_Write ?pf (Some (c_str ''xyz'')) 2 2 = (2, pf')"
    and s: "str pf' = take (unat (2::size_t)) (str ?pf) @ map (c_str ''xyz'') [0..<unat (2::size_t)]
                          @ drop (unat (2::size_t) + unat (2::size_t)) (str ?pf)"
    and f: "file_size pf' = of_nat (length (str pf'))"
    by blast
  have s': "str pf' = ''abxy''"
    unfolding s by (simp add: c_str_def upt_rec)
  from w s' f have "\<exists>pf'. pf_Write ?pf (Some (c_str ''xyz'')) 2 2 = (2, pf')
      \<and> str pf' = ''abxy'' \<and> file_size pf' = 4"
    by simp
  with past far show ?thesis by blast
qed

text \<open>
  Claim C7 as stated fails for an offset past the end of the file: nothing is written and
  0 is returned.
\<close>

theorem pf_Write_every_offset_counterexample:
  "pf_Write \<lparr>filepath = (0::nat), str = ''abc'', file_size = 3\<rparr> (Some (c_str ''xyz'')) 2 4
     = (0, \<lparr>filepath = 0, str = ''abc'', file_size = 3\<rparr>)"
  by (simp add: pf_Write_def GetSize_def)

section \<open>Contract violations\<close>

text \<open>
  Claim C10. \<^verbatim>\<open>Open(nullptr)\<close> and \<^verbatim>\<open>Create(nullptr)\<close> return null and leave the whole object
  as it was: the index, the backing files and the record of acquired locks.
\<close>

theorem Open_Create_null_name:
  "Open st None = ok (None, st) \<and> Create st None = ok (None, st)"
  by (simp add: Open_def Create_def)

section \<open>What Create leaves in the index\<close>

lemma case_ok [simp]: "case_option a g (ok x) = g (Inr x)"
  by (simp add: ok_def)

lemma case_throw [simp]: "case_option a g (throw e) = g (Inl e)"
  by (simp add: throw_def)

lemma bindR_Some_Inr [simp]: "bindR (Some (Inr x)) f = f x"
  by (simp add: bindR_def)

lemma InsertDir_ok:
  "InsertDir st nm pg path = ok st' \<Longrightarrow>
     virtual_dirs st' = (virtual_dirs st)(nm \<mapsto> \<lparr>dir_p_file = path, dir_page = pg\<rparr>)
     \<and> virtual_dirs st nm = None \<and> virtual_files st' = virtual_files st
     \<and> physical_files st' = physical_files st \<and> page_size st' = page_size st"
  by (auto simp: InsertDir_def Let_def lock_guard_def split: if_splits)

lemma InsertFile_ok:
  "InsertFile st nm pg path = ok st' \<Longrightarrow>
     virtual_files st' = (virtual_files st)(nm \<mapsto> File_new path nm pg) \<and> virtual_files st nm = None"
  by (auto simp: InsertFile_def Let_def lock_guard_def split: if_splits)

lemma IncrementNumOfFiles_vf:
  "IncrementNumOfFiles st k = ok st' \<Longrightarrow> virtual_files st' = virtual_files st"
  by (auto simp: IncrementNumOfFiles_def Let_def put_pfile_def bindR_eq_ok case_prod_beta
      split: if_splits)

lemma CreateFile_file_entry:
  assumes "CreateFile st parent fl k path file = ok st'"
  shows "\<exists>f. virtual_files st' fl = Some f \<and> readers f = 0"
  using assms
  by (auto simp: CreateFile_def Let_def bindR_eq_ok case_prod_beta File_new_def
      dest!: InsertFile_ok IncrementNumOfFiles_vf)

lemma OpenExistingFile_loop_entry:
  assumes "OpenExistingFile_loop st k fp pg = Some y"
  shows "\<forall>st'. y = Inr (True, st') \<longrightarrow> (\<exists>f. virtual_files st' fp = Some f \<and> readers f = 0)"
proof (rule OpenExistingFile_loop.raw_induct[where P = "\<lambda>st k fp pg y.
         \<forall>st'. y = Inr (True, st') \<longrightarrow> (\<exists>f. virtual_files st' fp = Some f \<and> readers f = 0)",
         OF _ assms])
  fix loop :: "'a VFS \<Rightarrow> 'a \<Rightarrow> string \<Rightarrow> size_t \<Rightarrow> (bool \<times> 'a VFS) result"
  fix st k fp pg y
  assume IH: "\<And>st k fp pg y. loop st k fp pg = Some y \<Longrightarrow>
         \<forall>st'. y = Inr (True, st') \<longrightarrow> (\<exists>f. virtual_files st' fp = Some f \<and> readers f = 0)"
  assume step: "(case pfile_at st k of None \<Rightarrow> None | Some (Inl e) \<Rightarrow> Some (Inl e)
      | Some (Inr pf) \<Rightarrow>
          let ps = page_size st;
              (n, buf) = pf_Read pf True ps (ps * pg + start)
          in if ps \<noteq> n then Some (Inl FileReadingError)
             else let pos = FindFileInPage buf fp file
                  in if pos = npos
                     then let pg1 = GetNextPage ps buf
                          in if pg1 \<noteq> 0
                             then loop st k fp pg1
                             else Some (Inr (False, st))
                     else bindR (ReadFileInfo ps buf pos)
                           (\<lambda>(info, new_pos).
                               bindR
                                (InsertFile st fp (info_page info)
                                  (GetPath pf))
                                (\<lambda>st1. ok (True, st1)))) = Some y"
  from step show "\<forall>st'. y = Inr (True, st') \<longrightarrow> (\<exists>f. virtual_files st' fp = Some f \<and> readers f = 0)"
    by (auto simp: Let_def bindR_def ok_def case_prod_beta File_new_def
          split: option.splits sum.splits if_splits
          dest!: IH InsertFile_ok[unfolded ok_def])
qed

lemma OpenExistingFile_entry:
  "OpenExistingFile st k fp = ok (True, st') \<Longrightarrow>
     \<exists>f. virtual_files st' fp = Some f \<and> readers f = 0"
  by (auto simp: OpenExistingFile_def ok_def throw_def split: option.splits
      dest!: OpenExistingFile_loop_entry)

text \<open>
  A handle returned by \<^verbatim>\<open>Create\<close> is the absolute path; its entry has status \<open>openW\<close> and no
  readers.
\<close>

lemma Create_handle:
  assumes "Create st (Some nm) = ok (Some h, st1)"
  shows "h = absolute nm \<and> \<not> path_eq (absolute nm) vRoot
         \<and> \<not> path_eq (parent_path (absolute nm)) vRoot
         \<and> (\<exists>f. virtual_files st1 h = Some f \<and> status f = openW \<and> readers f = 0)"
  using assms
  apply (simp add: Create_def Let_def split: if_splits)
  apply (erule bindR_okE)
  apply (clarsimp split del: if_split)
  apply (erule bindR_okE)
  apply (erule bindR_okE)
  apply (clarsimp split del: if_split)
  apply (erule bindR_okE)
  apply (simp add: Let_def split: if_splits split del: if_split)
  apply (auto simp: lock_guard_def bindR_eq_ok case_prod_beta Let_def split: option.splits if_splits
       dest!: OpenExistingFile_entry CreateFile_file_entry)
  done

section \<open>Bytes\<close>

lemma length_size_t_bytes [simp]: "length (size_t_bytes n) = 8"
  by (simp add: size_t_bytes_def)

lemma size_t_bytes_unfold:
  "size_t_bytes n = [char_of (unat n), char_of (unat (drop_bit 8 n)), char_of (unat (drop_bit 16 n)),
     char_of (unat (drop_bit 24 n)), char_of (unat (drop_bit 32 n)), char_of (unat (drop_bit 40 n)),
     char_of (unat (drop_bit 48 n)), char_of (unat (drop_bit 56 n))]"
  by (simp add: size_t_bytes_def upt_rec)

lemma of_char_char_of_unat: "(of_char (char_of (unat w)) :: size_t) = take_bit 8 w"
proof -
  have "(of_char (char_of (unat w)) :: size_t) = of_nat (of_char (char_of (unat w)))"
    by (rule of_nat_of_char[symmetric])
  also have "\<dots> = of_nat (unat w mod 256)" by simp
  also have "\<dots> = of_nat (unat (w mod 256))" by (simp add: unat_mod)
  also have "\<dots> = take_bit 8 w" by (simp add: take_bit_eq_mod)
  finally show ?thesis .
qed

lemma low_byte_and_rest: "(w::size_t) = take_bit 8 w + 256 * drop_bit 8 w"
  using bits_ident[of 8 w] by (simp add: push_bit_eq_mult ac_simps)

text \<open>Reading back the eight bytes of a word gives the word.\<close>

lemma bytes_size_t_size_t_bytes [simp]: "bytes_size_t (size_t_bytes n) = n"
proof -
  have d64: "drop_bit 64 n = 0" by (simp add: drop_bit_word_beyond)
  have "n = take_bit 8 n + 256 * (take_bit 8 (drop_bit 8 n) + 256 * (take_bit 8 (drop_bit 16 n)
        + 256 * (take_bit 8 (drop_bit 24 n) + 256 * (take_bit 8 (drop_bit 32 n)
        + 256 * (take_bit 8 (drop_bit 40 n) + 256 * (take_bit 8 (drop_bit 48 n)
        + 256 * (take_bit 8 (drop_bit 56 n) + 256 * drop_bit 64 n)))))))"
    using low_byte_and_rest[of n] low_byte_and_rest[of "drop_bit 8 n"]
      low_byte_and_rest[of "drop_bit 16 n"] low_byte_and_rest[of "drop_bit 24 n"]
      low_byte_and_rest[of "drop_bit 32 n"] low_byte_and_rest[of "drop_bit 40 n"]
      low_byte_and_rest[of "drop_bit 48 n"] low_byte_and_rest[of "drop_bit 56 n"]
    by (simp add: drop_bit_drop_bit)
  then show ?thesis
    by (simp add: size_t_bytes_unfold bytes_size_t_def of_char_char_of_unat d64)
qed

lemma bytes_size_t_zeros [simp]: "bytes_size_t (replicate n (CHR 0x00)) = 0"
  by (induction n) (simp_all add: bytes_size_t_def)

lemma map_c_str: "n \<le> length s \<Longrightarrow> map (c_str s) [0..<n] = take n s"
  by (auto simp: list_eq_iff_nth_eq c_str_def)

lemma map_zeroes [simp]: "map zeroes_sequence xs = replicate (length xs) (CHR 0x00)"
  by (induction xs) (simp_all add: zeroes_sequence_def)

lemma find_from_prefix: "take (length q) pg = q \<Longrightarrow> pg \<noteq> [] \<Longrightarrow> find_from q pg i = Some i"
  by (cases pg) simp_all

lemma FindPageEnd_zero:
  "0 < n \<Longrightarrow> FindPageEnd ps (replicate n (CHR 0x00)) = ok (min 0 (ps - st_size))"
  by (simp add: FindPageEnd_def FindPageEnd_loop.simps[of ps _ 0])

lemma CreateFile_chain_zero:
  "8 \<le> ps \<Longrightarrow> CreateFile_chain ps pf pg (replicate (unat ps) (CHR 0x00))
                = ok (pg, replicate (unat ps) (CHR 0x00))"
  by (subst CreateFile_chain.simps) (simp add: GetNextPage_def st_size_def ok_def)

section \<open>The run, step by step\<close>

lemma VFS_new_fresh: "VFS_new 5 4096 True (\<lambda>_. []) [0::nat] = ok vfs0"
  by (simp add: VFS_new_def PhysicalFile_new_def GetSize_def pf_Append_def pf_Write_def st_size_def
      overwrite_def CreateEmptyPage_def Let_def vfs0_def Init_def pf_Read_def)

lemma OED_climb_d1: "OED_climb Map.empty ''/d1'' [] = ok ([''/d1''], ''/'')"
  apply (subst OED_climb.simps)
  apply (simp add: path_eq_def vRoot_def parent_path_def has_relative_path_def)
  apply (subst OED_climb.simps)
  apply (simp add: path_eq_def vRoot_def ok_def)
  done

lemma CreateFile_d1:
  "CreateFile (vfs0\<lparr>locked := [editing_files_mutex, io_mutexes 0]\<rparr>) ''/'' ''/d1'' 0 0 dir = ok vfs_d1"
  apply (simp add: CreateFile_def vfs0_def pfile_at_def put_pfile_def path_eq_def vRoot_def
        CreateEmptyPage_def pf_Append_def pf_Write_def overwrite_def GetSize_def Let_def)
  apply (simp add: pf_Read_def GetSize_def store_def empty_page_def
        CreateFile_chain_zero[of 4096, simplified] st_size_def start_def FindPageEnd_zero)
  apply (simp add: WriteToFile_def lock_guard_def pfile_at_def st_size_def start_def put_pfile_def)
  apply (simp add: pf_Write_def GetSize_def map_c_str overwrite_def)
  apply (simp add: InsertDir_def lock_guard_def vfs_d1_def rec_d1_def)
  done

lemma CreateFile_g: "CreateFile vfs_d1 ''/d1'' ''/d1/g'' 0 0 file = ok vfs_g"
  apply (simp add: CreateFile_def vfs_d1_def pfile_at_def put_pfile_def path_eq_def vRoot_def
        CreateEmptyPage_def pf_Append_def pf_Write_def overwrite_def GetSize_def Let_def)
  apply (simp add: pf_Read_def GetSize_def store_def empty_page_def
        CreateFile_chain_zero[of 4096, simplified] st_size_def start_def FindPageEnd_zero rec_d1_def)
  apply (simp add: WriteToFile_def lock_guard_def pfile_at_def st_size_def start_def put_pfile_def)
  apply (simp add: pf_Write_def GetSize_def map_c_str overwrite_def)
  apply (simp add: InsertFile_def lock_guard_def File_new_def)
  apply (simp add: IncrementNumOfFiles_def pfile_at_def pf_Read_def GetSize_def st_size_def store_def
        pf_Write_def map_c_str overwrite_def put_pfile_def)
  apply (simp add: vfs_g_def disk_dirs_def rec_d1_def rec_g_def file_g_def)
  done

lemma Create_vfs0: "Create vfs0 (Some ''/d1/g'') = ok (Some ''/d1/g'', vfs1)"
proof -
  have a: "absolute ''/d1/g'' = ''/d1/g''" by (simp add: absolute_def has_root_directory_def)
  have p: "parent_path ''/d1/g'' = ''/d1''" by (simp add: parent_path_def has_relative_path_def)
  have r: "\<not> path_eq ''/d1/g'' vRoot" "\<not> path_eq ''/d1'' vRoot" "path_eq ''/'' vRoot"
    "parent_path ''/d1'' = ''/''"
    by (simp_all add: path_eq_def vRoot_def parent_path_def has_relative_path_def)
  have oed: "OpenExistingDirectories (lock_guard vfs0 editing_files_mutex) ''/d1''
        = ok ([''/d1''], ''/'', lock_guard vfs0 editing_files_mutex)"
    by (simp add: OpenExistingDirectories_def r lock_guard_def vfs0_def OED_climb_d1)
  have fs: "FindSmallestPFile (lock_guard vfs0 editing_files_mutex) = ok 0"
    by (simp add: FindSmallestPFile_def lock_guard_def vfs0_def)
  have l: "lock_guard (lock_guard vfs0 editing_files_mutex) (io_mutexes 0)
             = vfs0\<lparr>locked := [editing_files_mutex, io_mutexes 0]\<rparr>"
    by (simp add: lock_guard_def vfs0_def)
  have pa: "pfile_at (lock_guard vfs0 editing_files_mutex) 0
      = ok \<lparr>filepath = 0, str = replicate 8 (CHR 0x00) @ replicate 4096 (CHR 0x00), file_size = 4104\<rparr>"
    by (simp add: pfile_at_def lock_guard_def vfs0_def)
  have m: "map_of (physical_files (lock_guard vfs0 editing_files_mutex)) 0
      = Some \<lparr>filepath = 0, str = replicate 8 (CHR 0x00) @ replicate 4096 (CHR 0x00), file_size = 4104\<rparr>"
    by (simp add: lock_guard_def vfs0_def)
  have v: "virtual_files (lock_guard vfs0 editing_files_mutex) ''/d1/g'' = None"
    by (simp add: lock_guard_def vfs0_def)
  have g: "virtual_files vfs_g ''/d1/g'' = Some (file_g 0 closed 0)" by (simp add: vfs_g_def)
  show ?thesis
    apply (simp add: Create_def a p r v oed fs pa GetPath_def Let_def)
    apply (simp add: m l CreateFile_d1 p r CreateFile_g g vfs1_def file_g_def)
    apply (simp add: vfs_g_def)
    done
qed

lemma length_disk_dirs [simp]: "length disk_dirs = 8200"
  by (simp add: disk_dirs_def rec_d1_def rec_g_def)

lemma WriteToFile_loop_4081:
  assumes "length D = 4081"
  shows "WriteToFile_loop 4096
      \<lparr>filepath = 0::nat,
         str = disk_dirs @ replicate 8 (CHR 0x00) @ take 4080 D @ replicate 8 (CHR 0x00),
         file_size = 12296\<rparr>
      (Some (c_str D)) 4081 2 4080 =
     ok (4081, \<lparr>filepath = 0::nat,
         str = disk_dirs @ replicate 8 (CHR 0x00) @ take 4080 D @ size_t_bytes 3 @ [D ! 4080],
         file_size = 12297\<rparr>)"
  apply (subst WriteToFile_loop.simps)
  apply (simp add: SetNextPage_def pf_Write_def GetSize_def st_size_def start_def map_c_str
        overwrite_def assms Let_def)
  apply (simp add: pf_Append_def pf_Write_def GetSize_def assms overwrite_def ptr_add_def c_str_def)
  apply (subst WriteToFile_loop.simps)
  apply (simp add: ok_def)
  done

lemma Write_vfs1:
  assumes "length D = 4081"
  shows "Write vfs1 (Some ''/d1/g'') (Some (c_str D)) 4081 = ok (4081, vfs2 D)"
proof -
  define st where "st = vfs1\<lparr>physical_files := [(0, \<lparr>filepath = 0,
        str = disk_dirs @ replicate 8 (CHR 0x00) @ take 4080 D @ size_t_bytes 3 @ [D ! 4080]
                @ replicate 15 (CHR 0x00),
        file_size = 12312\<rparr>)],
      locked := locked vfs1 @ [io_mutexes 0]\<rparr>"
  have v: "virtual_files vfs1 ''/d1/g'' = Some (file_g 0 openW 0)" by (simp add: vfs1_def)
  have pa: "pfile_at vfs1 0
      = ok \<lparr>filepath = 0, str = disk_dirs @ replicate 4096 (CHR 0x00), file_size = 12296\<rparr>"
    by (simp add: pfile_at_def vfs1_def vfs_g_def)
  have w: "WriteToFile vfs1 (Some (c_str D)) 0 0 4081 2 8 True = ok (4081, st)"
    apply (simp add: WriteToFile_def vfs1_def vfs_g_def lock_guard_def pfile_at_def st_size_def
          start_def Let_def)
    apply (simp add: pf_Write_def GetSize_def map_c_str assms overwrite_def
          WriteToFile_loop_4081[OF assms])
    apply (simp add: pf_Append_def pf_Write_def GetSize_def assms overwrite_def put_pfile_def)
    apply (simp add: st_def vfs1_def vfs_g_def)
    done
  have ps: "page_size vfs1 = 4096" by (simp add: vfs1_def vfs_g_def)
  show ?thesis
    apply (simp add: Write_def v file_g_def pa Let_def st_size_def ps w[unfolded file_g_def])
    apply (simp add: st_def pfile_at_def vfs1_def vfs_g_def put_pfile_def SetFileLength_def
          pf_Write_def GetSize_def start_def st_size_def map_c_str overwrite_def assms)
    apply (simp add: vfs2_def vfs1_def vfs_g_def disk_written_def file_g_def)
    done
qed

lemma Close_vfs2: "Close (vfs2 D) (Some ''/d1/g'') = vfs3 D"
  by (simp add: Close_def vfs2_def vfs3_def file_g_def lock_guard_def)

lemma read_page1:
  "pf_Read \<lparr>filepath = 0::nat, str = disk_written D, file_size = 12312\<rparr> True 4096 4104
     = (4096, rec_g @ replicate 4074 (CHR 0x00))"
  by (simp add: pf_Read_def GetSize_def disk_written_def disk_dirs_def rec_d1_def rec_g_def)

lemma read_page2:
  "length D = 4081 \<Longrightarrow>
   pf_Read \<lparr>filepath = 0::nat, str = disk_written D, file_size = 12312\<rparr> True 4096 8200
     = (4096, size_t_bytes 4081 @ take 4080 D @ size_t_bytes 3)"
  by (simp add: pf_Read_def GetSize_def disk_written_def)

lemma FindFileInPage_g: "FindFileInPage (rec_g @ replicate 4074 (CHR 0x00)) ''/d1/g'' file = 0"
  by (simp add: FindFileInPage_def Let_def find_from_prefix rec_g_def)

lemma ReadFileInfo_g:
  "ReadFileInfo 4096 (rec_g @ replicate 4074 (CHR 0x00)) 0 = ok (Info (CHR 0x70) ''/d1/g'' 2, 22)"
  by (simp add: ReadFileInfo_def rec_g_def Let_def st_size_def)

lemma OpenExistingFile_g:
  "OpenExistingFile (lock_guard (vfs3 D) editing_files_mutex) 0 ''/d1/g''
     = ok (True, (vfs3 D)\<lparr>virtual_files := [''/d1/g'' \<mapsto> file_g 0 closed 0],
           locked := locked (vfs3 D) @ [editing_files_mutex, v_files_mutex]\<rparr>)"
  apply (simp add: OpenExistingFile_def parent_path_def has_relative_path_def lock_guard_def
        vfs3_def vfs2_def vfs1_def vfs_g_def)
  apply (subst OpenExistingFile_loop.simps)
  apply (simp add: pfile_at_def start_def st_size_def read_page1 FindFileInPage_g npos_def
        ReadFileInfo_g InsertFile_def lock_guard_def GetPath_def File_new_def file_g_def)
  done

lemma Open_vfs3:
  assumes "length D = 4081"
  shows "Open (vfs3 D) (Some ''/d1/g'') = ok (Some ''/d1/g'', vfs4 D)"
proof -
  have a: "absolute ''/d1/g'' = ''/d1/g''" by (simp add: absolute_def has_root_directory_def)
  have p: "parent_path ''/d1/g'' = ''/d1''" by (simp add: parent_path_def has_relative_path_def)
  have r: "\<not> path_eq ''/d1/g'' vRoot" "\<not> path_eq ''/d1'' vRoot"
    by (simp_all add: path_eq_def vRoot_def)
  have v: "virtual_files (lock_guard (vfs3 D) editing_files_mutex) ''/d1/g'' = None"
    by (simp add: lock_guard_def vfs3_def)
  have vd: "virtual_dirs (lock_guard (vfs3 D) editing_files_mutex) ''/d1''
              = Some \<lparr>dir_p_file = 0, dir_page = 1\<rparr>"
    by (simp add: lock_guard_def vfs3_def vfs2_def vfs1_def vfs_g_def)
  have climb: "OED_climb (virtual_dirs (lock_guard (vfs3 D) editing_files_mutex)) ''/d1'' []
                 = ok ([], ''/d1'')"
    by (subst OED_climb.simps) (simp add: vd ok_def)
  have oed: "OpenExistingDirectories (lock_guard (vfs3 D) editing_files_mutex) ''/d1''
        = ok ([], ''/d1'', lock_guard (vfs3 D) editing_files_mutex)"
    by (simp add: OpenExistingDirectories_def r climb)
  have pa: "pfile_at (lock_guard (vfs3 D) editing_files_mutex) 0
              = ok \<lparr>filepath = 0, str = disk_written D, file_size = 12312\<rparr>"
    by (simp add: pfile_at_def lock_guard_def vfs3_def vfs2_def vfs1_def vfs_g_def)
  have ps: "page_size (vfs3 D) = 4096" by (simp add: vfs3_def vfs2_def vfs1_def vfs_g_def)
  show ?thesis
    apply (simp add: Open_def a p r v oed vd pa OpenExistingFile_g Let_def ps)
    apply (simp add: pfile_at_def vfs3_def vfs2_def vfs1_def vfs_g_def file_g_def start_def
          st_size_def read_page2[OF assms] GetFileLength_def)
    apply (simp add: vfs4_def vfs3_def vfs2_def vfs1_def vfs_g_def file_g_def)
    done
qed

lemma Read_vfs4:
  assumes "length D = 4081"
  shows "Read (vfs4 D) (Some ''/d1/g'') True 4081 = ok (4081, take 4080 D @ [hd D])"
proof -
  let ?pf = "\<lparr>filepath = 0::nat, str = disk_written D, file_size = 12312\<rparr>"
  have v: "virtual_files (vfs4 D) ''/d1/g'' = Some (file_g 4081 openR 1)" by (simp add: vfs4_def)
  have pa: "pfile_at (vfs4 D) 0 = ok ?pf"
    by (simp add: pfile_at_def vfs4_def vfs3_def vfs2_def vfs1_def vfs_g_def)
  have ps: "page_size (vfs4 D) = 4096" by (simp add: vfs4_def vfs3_def vfs2_def vfs1_def vfs_g_def)
  have first: "pf_Read ?pf True 4080 8208 = (4080, take 4080 D)"
    using assms by (simp add: pf_Read_def GetSize_def disk_written_def)
  have again: "pf_Read ?pf True 1 8208 = (1, [hd D])"
    using assms by (cases D) (simp_all add: pf_Read_def GetSize_def disk_written_def)
  have loop: "Read_loop 4096 ?pf (file_g 4081 openR 1) 4081 2 4080 (take 4080 D)
                = ok (4081, take 4080 D @ [hd D])"
    apply (subst Read_loop.simps)
    apply (simp add: Let_def file_g_def start_def st_size_def again overwrite_def assms)
    apply (subst Read_loop.simps)
    apply (simp add: ok_def)
    done
  show ?thesis
    apply (simp add: Read_def v file_g_def pa Let_def ps st_size_def start_def first)
    apply (simp add: loop[unfolded file_g_def])
    done
qed

lemma length_data4081: "length data4081 = 4081"
  by (simp add: data4081_def)

section \<open>Round trip and size of the backing file\<close>

text \<open>
  Claim C1 at the input of the specification's scenario 4: a fresh \<^verbatim>\<open>VFS<5, 4096>\<close>, the path
  \<^verbatim>\<open>/d1/g\<close> and 4081 bytes, 4080 times \<open>a\<close> and then \<open>b\<close>. Every call succeeds and \<^verbatim>\<open>Read\<close>
  returns 4081, but the last byte it delivers is the first byte of the file again, so the
  bytes read are not the bytes written.
\<close>

theorem round_trip_4081_bytes:
  "bindR (VFS_new 5 4096 True (\<lambda>_. []) [0::nat]) (\<lambda>st. round_trip st ''/d1/g'' data4081)
     = ok (4081, replicate 4081 (CHR ''a''))
   \<and> replicate 4081 (CHR ''a'') \<noteq> data4081"
proof -
  have hd: "hd data4081 = CHR ''a''" by (simp add: data4081_def hd_append)
  have tk: "take 4080 data4081 = replicate 4080 (CHR ''a'')" by (simp add: data4081_def)
  have "replicate 4080 (CHR ''a'') @ [CHR ''a''] = replicate (Suc 4080) (CHR ''a'')"
    by (simp only: replicate_append_same replicate_Suc)
  then have out: "take 4080 data4081 @ [hd data4081] = replicate 4081 (CHR ''a'')"
    by (simp add: hd tk)
  have run: "bindR (VFS_new 5 4096 True (\<lambda>_. []) [0::nat]) (\<lambda>st. round_trip st ''/d1/g'' data4081)
               = ok (4081, take 4080 data4081 @ [hd data4081])"
    by (simp add: VFS_new_fresh round_trip_def Create_vfs0 length_data4081
        Write_vfs1[OF length_data4081] Close_vfs2 Open_vfs3[OF length_data4081]
        Read_vfs4[OF length_data4081])
  have ne: "replicate 4081 (CHR ''a'') \<noteq> data4081"
  proof
    assume "replicate 4081 (CHR ''a'') = data4081"
    then have "replicate 4081 (CHR ''a'') ! 4080 = data4081 ! 4080" by simp
    then show False by (simp add: data4081_def nth_append)
  qed
  from run out ne show ?thesis by simp
qed

text \<open>
  Claim C2 at the same input: after \<^verbatim>\<open>Create("/d1/g")\<close> and the \<^verbatim>\<open>Write\<close> of 4081 bytes the
  backing file has 12312 bytes, and \<open>(12312 - 8) mod 4096 = 16\<close>.
\<close>

theorem size_residue_after_Write_4081:
  "bindR (VFS_new 5 4096 True (\<lambda>_. []) [0::nat]) (\<lambda>st.
     bindR (Create st (Some ''/d1/g'')) (\<lambda>(h, st1).
     bindR (Write st1 h (Some (c_str data4081)) 4081) (\<lambda>(n, st2).
       ok (n, map (\<lambda>(k, pf). length (str pf)) (physical_files st2), size_residues st2))))
   = ok (4081, [12312], [16])"
proof -
  have sz: "map (\<lambda>(k, pf). length (str pf)) (physical_files (vfs2 data4081)) = [12312]"
    by (simp add: vfs2_def disk_written_def length_data4081)
  have rs: "size_residues (vfs2 data4081) = [16]"
    by (simp add: size_residues_def vfs2_def vfs1_def vfs_g_def GetSize_def st_size_def)
  show ?thesis
    by (simp add: VFS_new_fresh Create_vfs0 Write_vfs1[OF length_data4081] sz rs)
qed

section \<open>Read and Write\<close>

text \<open>
  Claim C6. \<^verbatim>\<open>Write\<close> returns 0 and leaves the whole object unchanged, and \<^verbatim>\<open>Read\<close> returns 0
  and stores no byte, when the handle is null, the buffer is null, the length is 0, or the
  handle's entry does not have the status the operation needs. (\<^verbatim>\<open>Read\<close> never changes the
  object; its model returns no state.)
\<close>

theorem Read_Write_contract_violation:
  "((f_opt = None \<or> buff = None \<or> len = 0 \<or>
      (\<exists>h f. f_opt = Some h \<and> virtual_files st h = Some f \<and> status f \<noteq> openW))
     \<longrightarrow> Write st f_opt buff len = ok (0, st))
   \<and> ((f_opt = None \<or> \<not> dest \<or> len = 0 \<or>
      (\<exists>h f. f_opt = Some h \<and> virtual_files st h = Some f \<and> status f \<noteq> openR))
     \<longrightarrow> Read st f_opt dest len = ok (0, []))"
  by (auto simp: Write_def Read_def split: option.splits)

theorem Read_Write_contract_violation_witness:
  "Write (vfs4 data4081) (Some ''/d1/g'') (Some (c_str ''x'')) 1 = ok (0, vfs4 data4081)
   \<and> Read vfs1 (Some ''/d1/g'') True 1 = ok (0, [])
   \<and> Write vfs1 None (Some (c_str ''x'')) 1 = ok (0, vfs1)
   \<and> Read (vfs4 data4081) (Some ''/d1/g'') False 1 = ok (0, [])
   \<and> Write vfs1 (Some ''/d1/g'') (Some (c_str ''x'')) 0 = ok (0, vfs1)"
proof -
  have r: "virtual_files (vfs4 data4081) ''/d1/g'' = Some (file_g 4081 openR 1)"
    by (simp add: vfs4_def)
  have w: "virtual_files vfs1 ''/d1/g'' = Some (file_g 0 openW 0)"
    by (simp add: vfs1_def)
  have s: "status (file_g 4081 openR 1) \<noteq> openW" "status (file_g 0 openW 0) \<noteq> openR"
    by (simp_all add: file_g_def)
  show ?thesis
    using Read_Write_contract_violation [of "Some ''/d1/g''" "Some (c_str ''x'')" 1 "vfs4 data4081" False]
      Read_Write_contract_violation [of "Some ''/d1/g''" "Some (c_str ''x'')" 1 vfs1 True]
      Read_Write_contract_violation [of None "Some (c_str ''x'')" 1 vfs1 True]
      Read_Write_contract_violation [of "Some ''/d1/g''" "Some (c_str ''x'')" 0 vfs1 True]
      r w s
    by simp
qed

text \<open>
  Claim C4. For a handle with status \<open>openR\<close>, a non-null destination and \<open>len > 0\<close>, \<^verbatim>\<open>Read\<close>
  clamps \<open>len\<close> to \<open>data_len\<close> and, when the clamped length is at most \<open>page_size - 2 * 8\<close>, is
  one read of the backing file at offset \<open>page * page_size + 2 * 8\<close>, whose count and bytes
  it returns. The handle's backing file is a member of \<open>physical_files\<close>.
\<close>

theorem Read_single_page:
  assumes "virtual_files st h = Some f" and "status f = openR" and "len \<noteq> 0"
    and "map_of (physical_files st) (p_file f) = Some pf"
    and "min len (data_len f) \<le> page_size st - 2 * st_size"
  shows "Read st (Some h) True len =
           ok (pf_Read pf True (min len (data_len f)) (page f * page_size st + 2 * st_size))"
  using assms
  by (simp add: Read_def pfile_at_def Let_def min_def start_def st_size_def add.commute)

theorem Read_single_page_witness:
  "Read (vfs4 data4081) (Some ''/d1/g'') True 100 = ok (100, replicate 100 (CHR ''a''))"
proof -
  let ?pf = "\<lparr>filepath = 0::nat, str = disk_written data4081, file_size = 12312\<rparr>"
  have v: "virtual_files (vfs4 data4081) ''/d1/g'' = Some (file_g 4081 openR 1)"
    by (simp add: vfs4_def)
  have m: "map_of (physical_files (vfs4 data4081)) (p_file (file_g 4081 openR 1)) = Some ?pf"
    by (simp add: vfs4_def vfs3_def vfs2_def vfs1_def vfs_g_def file_g_def)
  have ps: "page_size (vfs4 data4081) = 4096"
    by (simp add: vfs4_def vfs3_def vfs2_def vfs1_def vfs_g_def)
  have f: "status (file_g 4081 openR 1) = openR" "data_len (file_g 4081 openR 1) = 4081"
    "page (file_g 4081 openR 1) = 2"
    by (simp_all add: file_g_def)
  have a: "Read (vfs4 data4081) (Some ''/d1/g'') True 100 =
      ok (pf_Read ?pf True (min 100 (data_len (file_g 4081 openR 1)))
            (page (file_g 4081 openR 1) * page_size (vfs4 data4081) + 2 * st_size))"
    by (rule Read_single_page [OF v f(1) _ m]) (simp_all add: ps f st_size_def)
  have "pf_Read ?pf True 100 8208 = (100, replicate 100 (CHR ''a''))"
    by (simp add: pf_Read_def GetSize_def disk_written_def data4081_def)
  then show ?thesis
    using a by (simp add: ps f st_size_def)
qed

section \<open>Calls that leave the entry of a writer in place\<close>

text \<open>
  What the operations change in \<open>virtual_files\<close>: \<^verbatim>\<open>WriteToFile\<close>, the creation of a directory and
  the search for directories change nothing there; the creation and the search of a file, and
  \<^verbatim>\<open>Open\<close> and \<^verbatim>\<open>Create\<close>, change the entry of their own path only.
\<close>

lemma WriteToFile_frame:
  "WriteToFile st buf k p len pg pos carry = ok (n, st') \<Longrightarrow>
     virtual_files st' = virtual_files st \<and> virtual_dirs st' = virtual_dirs st"
  by (auto simp: WriteToFile_def Let_def bindR_eq_ok case_prod_beta put_pfile_def lock_guard_def
      split: if_splits)

lemma CreateFile_dir_frame:
  "CreateFile st parent fl k path dir = ok st' \<Longrightarrow> virtual_files st' = virtual_files st"
  by (auto simp: CreateFile_def Let_def bindR_eq_ok case_prod_beta put_pfile_def
      dest!: WriteToFile_frame InsertDir_ok split: if_splits)

lemma CreateFile_file_frame:
  "CreateFile st parent fl k path file = ok st' \<Longrightarrow>
     \<forall>v. v \<noteq> fl \<longrightarrow> virtual_files st' v = virtual_files st v"
  by (auto simp: CreateFile_def Let_def bindR_eq_ok case_prod_beta put_pfile_def
      dest!: WriteToFile_frame InsertFile_ok IncrementNumOfFiles_vf split: if_splits)

lemma Create_dirs_frame:
  "Create_dirs st k path dirs = ok st' \<Longrightarrow> virtual_files st' = virtual_files st"
proof (induction dirs arbitrary: st)
  case Nil
  then show ?case by simp
next
  case (Cons d dirs)
  from Cons.prems obtain st1 where c: "CreateFile st (parent_path d) d k path dir = ok st1"
    and r: "Create_dirs st1 k path dirs = ok st'"
    by (auto simp: ok_def split: option.splits sum.splits)
  from Cons.IH[OF r] CreateFile_dir_frame[OF c] show ?case by simp
qed

lemma OED_find_frame:
  assumes "OED_find st k target pg = Some y"
  shows "\<forall>pg' st'. y = Inr (pg', st') \<longrightarrow> virtual_files st' = virtual_files st"
proof (rule OED_find.raw_induct[where P = "\<lambda>st k target pg y.
         \<forall>pg' st'. y = Inr (pg', st') \<longrightarrow> virtual_files st' = virtual_files st", OF _ assms])
  fix loop :: "'a VFS \<Rightarrow> 'a \<Rightarrow> string \<Rightarrow> size_t \<Rightarrow> (size_t \<times> 'a VFS) result"
  fix st k target pg y
  assume IH: "\<And>st k target pg y. loop st k target pg = Some y \<Longrightarrow>
         \<forall>pg' st'. y = Inr (pg', st') \<longrightarrow> virtual_files st' = virtual_files st"
  assume step: "(case pfile_at st k of
        None \<Rightarrow> None
      | Some (Inl e) \<Rightarrow> Some (Inl e)
      | Some (Inr pf) \<Rightarrow>
          (let ps = page_size st;
               (n, buf) = pf_Read pf True ps (ps * pg + start) in
           if ps \<noteq> n then Some (Inl FileReadingError)
           else
             let pos = FindFileInPage buf target dir in
             if pos = npos then
               (let pg1 = GetNextPage ps buf in
                if pg1 \<noteq> 0 then loop st k target pg1 else Some (Inr (pg1, st)))
             else
               bindR (ReadFileInfo ps buf pos) (\<lambda>(info, new_pos).
                 bindR (InsertDir st (info_name info) (info_page info) k) (\<lambda>st1.
                   ok (info_page info, st1))))) = Some y"
  from step show "\<forall>pg' st'. y = Inr (pg', st') \<longrightarrow> virtual_files st' = virtual_files st"
    by (auto simp: Let_def bindR_def ok_def case_prod_beta
          split: option.splits sum.splits if_splits
          dest!: IH InsertDir_ok[unfolded ok_def])
qed

lemma OED_walk_frame:
  assumes "OED_walk st k dirs fp pg = Some y"
  shows "\<forall>d f st'. y = Inr (d, f, st') \<longrightarrow> virtual_files st' = virtual_files st"
proof (rule OED_walk.raw_induct[where P = "\<lambda>st k dirs fp pg y.
         \<forall>d f st'. y = Inr (d, f, st') \<longrightarrow> virtual_files st' = virtual_files st", OF _ assms])
  fix loop :: "'a VFS \<Rightarrow> 'a \<Rightarrow> string list \<Rightarrow> string \<Rightarrow> size_t \<Rightarrow> (string list \<times> string \<times> 'a VFS) result"
  fix st k dirs fp pg y
  assume IH: "\<And>st k dirs fp pg y. loop st k dirs fp pg = Some y \<Longrightarrow>
         \<forall>d f st'. y = Inr (d, f, st') \<longrightarrow> virtual_files st' = virtual_files st"
  assume step: "(case dirs of
        [] \<Rightarrow> Some (Inr (dirs, fp, st))
      | top_dir # rest \<Rightarrow>
          (case OED_find st k top_dir pg of
             None \<Rightarrow> None
           | Some (Inl e) \<Rightarrow> Some (Inl e)
           | Some (Inr (pg1, st1)) \<Rightarrow>
               if pg1 = 0 then Some (Inr (dirs, fp, st1))
               else loop st1 k rest top_dir pg1)) = Some y"
  from step show "\<forall>d f st'. y = Inr (d, f, st') \<longrightarrow> virtual_files st' = virtual_files st"
    by (auto split: list.splits option.splits sum.splits if_splits
          dest!: IH OED_find_frame)
qed

lemma OpenExistingDirectories_frame:
  "OpenExistingDirectories st fp = ok (dirs, fp', st') \<Longrightarrow> virtual_files st' = virtual_files st"
  apply (simp add: OpenExistingDirectories_def split: if_splits)
   apply (simp add: ok_def)
  apply (simp add: ok_def[symmetric])
  apply (erule bindR_okE)
  apply (auto simp: ok_def throw_def split: if_splits option.splits dest!: OED_walk_frame)
  done


lemma OpenExistingFile_loop_frame:
  assumes "OpenExistingFile_loop st k fp pg = Some y"
  shows "\<forall>b st'. y = Inr (b, st') \<longrightarrow> (\<forall>v. v \<noteq> fp \<longrightarrow> virtual_files st' v = virtual_files st v)"
proof (rule OpenExistingFile_loop.raw_induct[where P = "\<lambda>st k fp pg y.
         \<forall>b st'. y = Inr (b, st') \<longrightarrow> (\<forall>v. v \<noteq> fp \<longrightarrow> virtual_files st' v = virtual_files st v)",
         OF _ assms])
  fix loop :: "'a VFS \<Rightarrow> 'a \<Rightarrow> string \<Rightarrow> size_t \<Rightarrow> (bool \<times> 'a VFS) result"
  fix st k fp pg y
  assume IH: "\<And>st k fp pg y. loop st k fp pg = Some y \<Longrightarrow>
         \<forall>b st'. y = Inr (b, st') \<longrightarrow> (\<forall>v. v \<noteq> fp \<longrightarrow> virtual_files st' v = virtual_files st v)"
  assume step: "(case pfile_at st k of None \<Rightarrow> None | Some (Inl e) \<Rightarrow> Some (Inl e)
      | Some (Inr pf) \<Rightarrow>
          let ps = page_size st;
              (n, buf) = pf_Read pf True ps (ps * pg + start)
          in if ps \<noteq> n then Some (Inl FileReadingError)
             else let pos = FindFileInPage buf fp file
                  in if pos = npos
                     then let pg1 = GetNextPage ps buf
                          in if pg1 \<noteq> 0
                             then loop st k fp pg1
                             else Some (Inr (False, st))
                     else bindR (ReadFileInfo ps buf pos)
                           (\<lambda>(info, new_pos).
                               bindR
                                (InsertFile st fp (info_page info)
                                  (GetPath pf))
                                (\<lambda>st1. ok (True, st1)))) = Some y"
  from step show "\<forall>b st'. y = Inr (b, st') \<longrightarrow> (\<forall>v. v \<noteq> fp \<longrightarrow> virtual_files st' v = virtual_files st v)"
    by (auto simp: Let_def bindR_def ok_def case_prod_beta File_new_def
          split: option.splits sum.splits if_splits
          dest!: IH InsertFile_ok[unfolded ok_def])
qed

lemma OpenExistingFile_frame:
  "OpenExistingFile st k fp = ok (b, st') \<Longrightarrow>
     \<forall>v. v \<noteq> fp \<longrightarrow> virtual_files st' v = virtual_files st v"
  by (auto simp: OpenExistingFile_def ok_def throw_def split: option.splits
      dest!: OpenExistingFile_loop_frame)

lemma Open_frame:
  assumes "Open st (Some nm) = ok (r, st')" and "v \<noteq> absolute nm"
  shows "virtual_files st' v = virtual_files st v"
  using assms
  apply (simp add: Open_def Let_def split: if_splits option.splits)
    apply (erule bindR_okE)
    apply (clarsimp split del: if_split)
    apply (frule OpenExistingDirectories_frame)
    apply (simp add: lock_guard_def Let_def split: if_splits option.splits)
    apply (erule bindR_okE)
    apply (erule bindR_okE)
    apply (clarsimp split del: if_split)
    apply (drule OpenExistingFile_frame)
    apply (auto simp: bindR_eq_ok case_prod_beta Let_def split: option.splits if_splits)[1]
   apply (auto simp: lock_guard_def)
  done


lemma Create_frame:
  assumes "Create st (Some nm) = ok (r, st')" and "v \<noteq> absolute nm"
  shows "virtual_files st' v = virtual_files st v"
  using assms
  apply (simp add: Create_def Let_def split: if_splits)
   apply (auto simp: lock_guard_def)[1]
  apply (erule bindR_okE)
  apply (clarsimp split del: if_split)
  apply (frule OpenExistingDirectories_frame)
  apply (erule bindR_okE)
  apply (erule bindR_okE)
  apply (clarsimp split del: if_split)
  apply (erule bindR_okE)
  apply (simp add: Let_def split: if_splits split del: if_split)
  apply (auto simp: lock_guard_def bindR_eq_ok case_prod_beta Let_def split: option.splits if_splits
       dest!: Create_dirs_frame OpenExistingFile_frame CreateFile_file_frame)
  done

text \<open>
  An entry with status \<open>openW\<close> stays one under every call but a \<^verbatim>\<open>Close\<close> of its handle.
\<close>

lemma writer_Open:
  assumes "writer st v" and "Open st nm = ok (r, st')"
  shows "writer st' v"
proof (cases nm)
  case None
  with assms show ?thesis by (simp add: Open_def)
next
  case (Some n)
  show ?thesis
  proof (cases "v = absolute n")
    case True
    with assms Some show ?thesis
      by (auto simp: writer_def Open_def Let_def lock_guard_def split: option.splits if_splits)
  next
    case False
    from Open_frame[OF assms(2)[unfolded Some] False] assms(1) show ?thesis
      by (simp add: writer_def)
  qed
qed

lemma writer_Create:
  assumes "writer st v" and "Create st nm = ok (r, st')"
  shows "writer st' v"
proof (cases nm)
  case None
  with assms show ?thesis by (simp add: Create_def)
next
  case (Some n)
  show ?thesis
  proof (cases "v = absolute n")
    case True
    with assms Some show ?thesis
      by (auto simp: writer_def Create_def Let_def lock_guard_def split: option.splits if_splits)
  next
    case False
    from Create_frame[OF assms(2)[unfolded Some] False] assms(1) show ?thesis
      by (simp add: writer_def)
  qed
qed

lemma writer_Write:
  assumes "writer st v" and "Write st h buff len = ok (n, st')"
  shows "writer st' v"
  using assms
  apply (simp add: Write_def Let_def split: option.splits if_splits)
  apply (erule bindR_okE)
  apply (erule bindR_okE)
  apply (clarsimp split del: if_split)
  apply (drule WriteToFile_frame)
  apply (auto simp: writer_def bindR_eq_ok put_pfile_def split: option.splits if_splits)
  done

lemma writer_Close:
  assumes "writer st v" and "h \<noteq> Some v"
  shows "writer (Close st h) v"
  using assms
  by (auto simp: writer_def Close_def Let_def lock_guard_def split: option.splits)

lemma writer_call_step:
  assumes "writer st v" and "call_step st c = ok st'" and "c \<noteq> Close_call (Some v)"
  shows "writer st' v"
  using assms
  by (cases c) (auto simp: bindR_eq_ok dest: writer_Open writer_Create writer_Write writer_Close)

lemma writer_calls:
  "writer st v \<Longrightarrow> calls st cs = ok st' \<Longrightarrow> Close_call (Some v) \<notin> set cs \<Longrightarrow> writer st' v"
proof (induction cs arbitrary: st)
  case Nil
  then show ?case by simp
next
  case (Cons c cs)
  from Cons.prems(2) obtain st1 where s: "call_step st c = ok st1" and r: "calls st1 cs = ok st'"
    by (auto simp: bindR_eq_ok)
  from Cons.prems(3) have n: "c \<noteq> Close_call (Some v)" "Close_call (Some v) \<notin> set cs" by auto
  from Cons.IH[OF writer_call_step[OF Cons.prems(1) s n(1)] r n(2)] show ?case .
qed

section \<open>Open, Create and Close on a path that is already open\<close>

text \<open>
  Claim C3. After a \<^verbatim>\<open>Create\<close> that returned a handle \<open>h\<close> for \<open>nm\<close>, and after any sequence of
  calls that all returned and among which there is no \<^verbatim>\<open>Close\<close> of \<open>h\<close>, \<^verbatim>\<open>Open\<close> of \<open>nm\<close> returns
  null and only the lock is recorded. In any state where the path has an entry in
  \<open>virtual_files\<close>: if its status is not \<open>openR\<close> (so also when it is \<open>openW\<close>), \<^verbatim>\<open>Open\<close> returns
  null and leaves the index and the backing files as they were; \<^verbatim>\<open>Open\<close> returns a handle
  only if the status is \<open>openR\<close>, the handle is then the same entry and its reader count is
  one more; and for status \<open>openR\<close> (and a path that \<^verbatim>\<open>Open\<close> accepts) it does return it.
\<close>

theorem Open_already_open:
  "(\<forall>st0 h st1 cs. Create st0 (Some nm) = ok (Some h, st1) \<and> calls st1 cs = ok st
         \<and> Close_call (Some h) \<notin> set cs
       \<longrightarrow> Open st (Some nm) = ok (None, lock_guard st editing_files_mutex))
   \<and> (\<forall>f. virtual_files st (absolute nm) = Some f \<longrightarrow>
        (status f \<noteq> openR \<longrightarrow>
           (\<exists>st'. Open st (Some nm) = ok (None, st') \<and> virtual_files st' = virtual_files st
              \<and> virtual_dirs st' = virtual_dirs st \<and> physical_files st' = physical_files st))
      \<and> (\<forall>h st'. Open st (Some nm) = ok (Some h, st') \<longrightarrow>
            status f = openR \<and> h = absolute nm
            \<and> st' = (lock_guard st editing_files_mutex)
                      \<lparr>virtual_files := (virtual_files st)(h \<mapsto> f\<lparr>readers := readers f + 1\<rparr>)\<rparr>)
      \<and> (status f = openR \<and> \<not> path_eq (absolute nm) vRoot
            \<and> \<not> path_eq (parent_path (absolute nm)) vRoot \<longrightarrow>
            Open st (Some nm) = ok (Some (absolute nm), (lock_guard st editing_files_mutex)
                      \<lparr>virtual_files := (virtual_files st)(absolute nm \<mapsto> f\<lparr>readers := readers f + 1\<rparr>)\<rparr>)))"
proof (intro conjI allI impI)
  fix st0 h st1 cs
  assume a: "Create st0 (Some nm) = ok (Some h, st1) \<and> calls st1 cs = ok st
         \<and> Close_call (Some h) \<notin> set cs"
  from Create_handle[OF a[THEN conjunct1]]
  have h: "h = absolute nm" and r: "\<not> path_eq (absolute nm) vRoot"
      "\<not> path_eq (parent_path (absolute nm)) vRoot" and w: "writer st1 h"
    by (auto simp: writer_def)
  from a have "calls st1 cs = ok st" "Close_call (Some h) \<notin> set cs" by simp_all
  from writer_calls[OF w this] have "writer st (absolute nm)" by (simp add: h)
  with r show "Open st (Some nm) = ok (None, lock_guard st editing_files_mutex)"
    by (auto simp: Open_def Let_def lock_guard_def writer_def split: option.splits)
next
  fix f assume "virtual_files st (absolute nm) = Some f" "status f \<noteq> openR"
  then show "\<exists>st'. Open st (Some nm) = ok (None, st') \<and> virtual_files st' = virtual_files st
              \<and> virtual_dirs st' = virtual_dirs st \<and> physical_files st' = physical_files st"
    by (auto simp: Open_def Let_def lock_guard_def)
next
  fix f h st' assume a: "virtual_files st (absolute nm) = Some f" "Open st (Some nm) = ok (Some h, st')"
  then show "status f = openR" by (auto simp: Open_def Let_def lock_guard_def split: if_splits)
  from a show "h = absolute nm" by (auto simp: Open_def Let_def lock_guard_def split: if_splits)
  from a show "st' = (lock_guard st editing_files_mutex)
                      \<lparr>virtual_files := (virtual_files st)(h \<mapsto> f\<lparr>readers := readers f + 1\<rparr>)\<rparr>"
    by (auto simp: Open_def Let_def lock_guard_def split: if_splits)
next
  fix f assume "virtual_files st (absolute nm) = Some f"
    "status f = openR \<and> \<not> path_eq (absolute nm) vRoot \<and> \<not> path_eq (parent_path (absolute nm)) vRoot"
  then show "Open st (Some nm) = ok (Some (absolute nm), (lock_guard st editing_files_mutex)
                      \<lparr>virtual_files := (virtual_files st)(absolute nm \<mapsto> f\<lparr>readers := readers f + 1\<rparr>)\<rparr>)"
    by (auto simp: Open_def Let_def lock_guard_def)
qed

theorem Open_already_open_witness:
  "Open vfs1 (Some ''/d1/g'') = ok (None, lock_guard vfs1 editing_files_mutex)
   \<and> Open (vfs2 data4081) (Some ''/d1/g'') = ok (None, lock_guard (vfs2 data4081) editing_files_mutex)
   \<and> Open (vfs4 data4081) (Some ''/d1/g'')
       = ok (Some ''/d1/g'', (lock_guard (vfs4 data4081) editing_files_mutex)
               \<lparr>virtual_files := [''/d1/g'' \<mapsto> file_g 4081 openR 2]\<rparr>)"
proof -
  have a: "absolute ''/d1/g'' = ''/d1/g''" by (simp add: absolute_def has_root_directory_def)
  have p: "parent_path ''/d1/g'' = ''/d1''" by (simp add: parent_path_def has_relative_path_def)
  have r: "\<not> path_eq ''/d1/g'' vRoot" "\<not> path_eq ''/d1'' vRoot"
    by (simp_all add: path_eq_def vRoot_def)
  have v: "virtual_files (vfs4 data4081) ''/d1/g'' = Some (file_g 4081 openR 1)"
    by (simp add: vfs4_def)
  have f: "status (file_g 4081 openR 1) = openR"
    "(file_g 4081 openR 1)\<lparr>readers := readers (file_g 4081 openR 1) + 1\<rparr> = file_g 4081 openR 2"
    by (simp_all add: file_g_def)
  have u: "(virtual_files (vfs4 data4081))(''/d1/g'' \<mapsto> file_g 4081 openR 2) = [''/d1/g'' \<mapsto> file_g 4081 openR 2]"
    by (simp add: vfs4_def)
  have c: "calls vfs1 [] = ok vfs1"
    "calls vfs1 [Write_call (Some ''/d1/g'') (Some (c_str data4081)) 4081] = ok (vfs2 data4081)"
    using Write_vfs1[OF length_data4081] by simp_all
  from Open_already_open [of "''/d1/g''" vfs1, THEN conjunct1, rule_format,
      of vfs0 "''/d1/g''" vfs1 "[]"] Create_vfs0 c(1)
  have 1: "Open vfs1 (Some ''/d1/g'') = ok (None, lock_guard vfs1 editing_files_mutex)"
    by simp
  from Open_already_open [of "''/d1/g''" "vfs2 data4081", THEN conjunct1, rule_format,
      of vfs0 "''/d1/g''" vfs1 "[Write_call (Some ''/d1/g'') (Some (c_str data4081)) 4081]"]
    Create_vfs0 c(2)
  have 3: "Open (vfs2 data4081) (Some ''/d1/g'')
             = ok (None, lock_guard (vfs2 data4081) editing_files_mutex)"
    by simp
  from Open_already_open [of "''/d1/g''" "vfs4 data4081"] v
  have 2: "Open (vfs4 data4081) (Some ''/d1/g'')
       = ok (Some ''/d1/g'', (lock_guard (vfs4 data4081) editing_files_mutex)
               \<lparr>virtual_files := [''/d1/g'' \<mapsto> file_g 4081 openR 2]\<rparr>)"
    by (simp add: a p r f u)
  from 1 2 3 show ?thesis by simp
qed

text \<open>
  Claim C5. After a \<^verbatim>\<open>Create\<close> that returned a handle \<open>h\<close> for \<open>nm\<close>, and after any sequence of
  calls that all returned and among which there is no \<^verbatim>\<open>Close\<close> of \<open>h\<close> (the empty sequence
  for two consecutive calls), a second \<^verbatim>\<open>Create\<close> of \<open>nm\<close> returns null, and the state differs
  only in the record of acquired locks: the index, the backing files and the file counter are
  unchanged. The same holds in any state where the path has an entry in \<open>virtual_files\<close>.
\<close>

theorem Create_twice:
  "(\<forall>h st1 cs st2. Create st (Some nm) = ok (Some h, st1) \<and> calls st1 cs = ok st2
         \<and> Close_call (Some h) \<notin> set cs \<longrightarrow>
       Create st2 (Some nm) = ok (None, lock_guard st2 editing_files_mutex))
   \<and> (virtual_files st (absolute nm) \<noteq> None \<longrightarrow>
        (\<exists>st'. Create st (Some nm) = ok (None, st') \<and> virtual_files st' = virtual_files st
           \<and> virtual_dirs st' = virtual_dirs st \<and> physical_files st' = physical_files st
           \<and> num_of_files st' = num_of_files st))
   \<and> virtual_files (lock_guard st m) = virtual_files st
   \<and> virtual_dirs (lock_guard st m) = virtual_dirs st
   \<and> physical_files (lock_guard st m) = physical_files st
   \<and> num_of_files (lock_guard st m) = num_of_files st"
proof (intro conjI allI impI)
  fix h st1 cs st2
  assume a: "Create st (Some nm) = ok (Some h, st1) \<and> calls st1 cs = ok st2
         \<and> Close_call (Some h) \<notin> set cs"
  from Create_handle[OF a[THEN conjunct1]]
  have h: "h = absolute nm" and r: "\<not> path_eq (absolute nm) vRoot"
      "\<not> path_eq (parent_path (absolute nm)) vRoot" and w: "writer st1 h"
    by (auto simp: writer_def)
  from a have "calls st1 cs = ok st2" "Close_call (Some h) \<notin> set cs" by simp_all
  from writer_calls[OF w this] have "writer st2 (absolute nm)" by (simp add: h)
  with r show "Create st2 (Some nm) = ok (None, lock_guard st2 editing_files_mutex)"
    by (auto simp: Create_def Let_def lock_guard_def writer_def split: option.splits)
next
  assume "virtual_files st (absolute nm) \<noteq> None"
  then show "\<exists>st'. Create st (Some nm) = ok (None, st') \<and> virtual_files st' = virtual_files st
           \<and> virtual_dirs st' = virtual_dirs st \<and> physical_files st' = physical_files st
           \<and> num_of_files st' = num_of_files st"
    by (auto simp: Create_def Let_def lock_guard_def)
qed (simp_all add: lock_guard_def)

theorem Create_twice_witness:
  "Create vfs1 (Some ''/d1/g'') = ok (None, lock_guard vfs1 editing_files_mutex)
   \<and> Create (vfs2 data4081) (Some ''/d1/g'')
       = ok (None, lock_guard (vfs2 data4081) editing_files_mutex)
   \<and> physical_files (lock_guard vfs1 editing_files_mutex) = physical_files vfs1
   \<and> virtual_files (lock_guard vfs1 editing_files_mutex) = virtual_files vfs1
   \<and> virtual_dirs (lock_guard vfs1 editing_files_mutex) = virtual_dirs vfs1"
proof -
  have c: "calls vfs1 [] = ok vfs1"
    "calls vfs1 [Write_call (Some ''/d1/g'') (Some (c_str data4081)) 4081] = ok (vfs2 data4081)"
    using Write_vfs1[OF length_data4081] by simp_all
  from Create_twice [of vfs0 "''/d1/g''" editing_files_mutex, THEN conjunct1, rule_format,
      of "''/d1/g''" vfs1 "[]" vfs1] Create_vfs0 c(1)
  have 1: "Create vfs1 (Some ''/d1/g'') = ok (None, lock_guard vfs1 editing_files_mutex)"
    by simp
  from Create_twice [of vfs0 "''/d1/g''" editing_files_mutex, THEN conjunct1, rule_format,
      of "''/d1/g''" vfs1 "[Write_call (Some ''/d1/g'') (Some (c_str data4081)) 4081]"
         "vfs2 data4081"] Create_vfs0 c(2)
  have 2: "Create (vfs2 data4081) (Some ''/d1/g'')
             = ok (None, lock_guard (vfs2 data4081) editing_files_mutex)"
    by simp
  from Create_twice [of vfs1 "''/d1/g''" editing_files_mutex]
  have 3: "physical_files (lock_guard vfs1 editing_files_mutex) = physical_files vfs1
   \<and> virtual_files (lock_guard vfs1 editing_files_mutex) = virtual_files vfs1
   \<and> virtual_dirs (lock_guard vfs1 editing_files_mutex) = virtual_dirs vfs1"
    by blast
  from 1 2 3 show ?thesis by simp
qed

text \<open>
  Claim C9. \<^verbatim>\<open>Close\<close> does nothing for a null handle and for a handle whose path has no
  entry. With a reader count that is non-zero and still non-zero after the decrement, it
  stores the decremented count and keeps the entry. Otherwise (count 0 or 1) it removes
  the entry. A handle returned by \<^verbatim>\<open>Create\<close> has count 0, so one \<^verbatim>\<open>Close\<close> removes it. No
  backing file is changed.
\<close>

theorem Close_spec:
  "Close st None = st
   \<and> (virtual_files st h = None \<longrightarrow> Close st (Some h) = st)
   \<and> (\<forall>f. virtual_files st h = Some f \<and> readers f \<noteq> 0 \<and> readers f - 1 \<noteq> 0 \<longrightarrow>
         Close st (Some h) = st\<lparr>virtual_files := (virtual_files st)(h \<mapsto> f\<lparr>readers := readers f - 1\<rparr>)\<rparr>)
   \<and> (\<forall>f. virtual_files st h = Some f \<and> (readers f = 0 \<or> readers f = 1) \<longrightarrow>
         Close st (Some h) = (lock_guard st editing_files_mutex)\<lparr>virtual_files := (virtual_files st)(h := None)\<rparr>)
   \<and> (\<forall>st0 nm. Create st0 (Some nm) = ok (Some h, st) \<longrightarrow>
         Close st (Some h) = (lock_guard st editing_files_mutex)\<lparr>virtual_files := (virtual_files st)(h := None)\<rparr>)
   \<and> physical_files (Close st f_opt) = physical_files st"
proof (intro conjI allI impI)
  fix st0 nm
  assume "Create st0 (Some nm) = ok (Some h, st)"
  from Create_handle[OF this]
  show "Close st (Some h) = (lock_guard st editing_files_mutex)\<lparr>virtual_files := (virtual_files st)(h := None)\<rparr>"
    by (auto simp: Close_def Let_def lock_guard_def)
qed (auto simp: Close_def lock_guard_def Let_def split: option.splits)

theorem Close_spec_witness:
  "Close vfs1 (Some ''/d1/g'') = (lock_guard vfs1 editing_files_mutex)\<lparr>virtual_files := Map.empty\<rparr>
   \<and> Close vfs1 (Some ''/d1/h'') = vfs1
   \<and> Close ((vfs4 data4081)\<lparr>virtual_files := [''/d1/g'' \<mapsto> file_g 4081 openR 2]\<rparr>) (Some ''/d1/g'')
        = vfs4 data4081
   \<and> Close (vfs4 data4081) (Some ''/d1/g'')
        = (lock_guard (vfs4 data4081) editing_files_mutex)\<lparr>virtual_files := Map.empty\<rparr>"
proof -
  let ?st2 = "(vfs4 data4081)\<lparr>virtual_files := [''/d1/g'' \<mapsto> file_g 4081 openR 2]\<rparr>"
  have e: "(virtual_files vfs1)(''/d1/g'' := None) = Map.empty"
    "(virtual_files (vfs4 data4081))(''/d1/g'' := None) = Map.empty"
    by (simp_all add: vfs1_def vfs4_def)
  have n: "virtual_files vfs1 ''/d1/h'' = None" by (simp add: vfs1_def)
  have v2: "virtual_files ?st2 ''/d1/g'' = Some (file_g 4081 openR 2)" by simp
  have v1: "virtual_files (vfs4 data4081) ''/d1/g'' = Some (file_g 4081 openR 1)"
    by (simp add: vfs4_def)
  have f: "readers (file_g 4081 openR 2) \<noteq> 0" "readers (file_g 4081 openR 2) - 1 \<noteq> 0"
    "readers (file_g 4081 openR 1) = 1"
    "(file_g 4081 openR 2)\<lparr>readers := readers (file_g 4081 openR 2) - 1\<rparr> = file_g 4081 openR 1"
    by (simp_all add: file_g_def)
  have u: "(vfs4 data4081)\<lparr>virtual_files := [''/d1/g'' \<mapsto> file_g 4081 openR 1]\<rparr> = vfs4 data4081"
    by (simp add: vfs4_def)
  from Close_spec [of vfs1 "''/d1/g''" None] Create_vfs0
  have "Close vfs1 (Some ''/d1/g'')
          = (lock_guard vfs1 editing_files_mutex)\<lparr>virtual_files := (virtual_files vfs1)(''/d1/g'' := None)\<rparr>"
    by blast
  then have 1: "Close vfs1 (Some ''/d1/g'') = (lock_guard vfs1 editing_files_mutex)\<lparr>virtual_files := Map.empty\<rparr>"
    by (simp add: e)
  from Close_spec [of vfs1 "''/d1/h''" None] n
  have 2: "Close vfs1 (Some ''/d1/h'') = vfs1" by simp
  from Close_spec [of ?st2 "''/d1/g''" None] v2 f
  have 3: "Close ?st2 (Some ''/d1/g'') = vfs4 data4081" by (simp add: u)
  from Close_spec [of "vfs4 data4081" "''/d1/g''" None] v1 f
  have 4: "Close (vfs4 data4081) (Some ''/d1/g'')
        = (lock_guard (vfs4 data4081) editing_files_mutex)\<lparr>virtual_files := Map.empty\<rparr>"
    by (simp add: e)
  from 1 2 3 4 show ?thesis by simp
qed

section \<open>Bootstrap\<close>

lemma unat_add_small:
  fixes a b :: size_t
  shows "unat a + unat b < 2 ^ 64 \<Longrightarrow> unat (a + b) = unat a + unat b"
  by (simp add: unat_add_lem[THEN iffD1])

lemma ReadFileInfo_spec:
  fixes pos ps :: size_t
  assumes len: "length buf = unat ps"
    and t: "buf ! unat pos \<noteq> CHR 0x00"
    and n: "n = unat (bytes_size_t (take 8 (drop (unat pos + 1) buf)))"
    and fit: "unat pos + 17 + n + 8 \<le> unat ps"
  shows "\<exists>new_pos. ReadFileInfo ps buf pos =
           ok (Info (buf ! unat pos) (take n (drop (unat pos + 9) buf))
                 (bytes_size_t (take 8 (drop (unat pos + 9 + n) buf))), new_pos)
         \<and> unat new_pos = unat pos + 17 + n"
proof -
  define ns where "ns = bytes_size_t (take 8 (drop (unat pos + 1) buf))"
  have nn: "n = unat ns" by (simp add: n ns_def)
  have psb: "unat ps < 2 ^ 64" using unsigned_less[of ps] by simp
  have u1: "unat (pos + 1) = unat pos + 1"
    using unat_add_small[of pos 1] fit psb by simp
  have u9: "unat (pos + 1 + 8) = unat pos + 9"
    using unat_add_small[of "pos + 1" 8] fit psb u1 by simp
  have u9n: "unat (pos + 1 + 8 + ns) = unat pos + 9 + n"
    using unat_add_small[of "pos + 1 + 8" ns] fit psb u9 nn by simp
  have u17n: "unat (pos + 1 + 8 + ns + 8) = unat pos + 17 + n"
    using unat_add_small[of "pos + 1 + 8 + ns" 8] fit psb u9n by simp
  have c0: "\<not> pos > ps" using fit by (simp add: word_less_nat_alt)
  have c1: "\<not> pos + 1 > ps" using fit u1 by (simp add: word_less_nat_alt)
  have c2: "\<not> pos + 1 + 8 > ps" using fit u9 by (simp add: word_less_nat_alt)
  have c3: "\<not> pos + 1 + 8 + ns > ps" using fit u9n by (simp add: word_less_nat_alt)
  have name_size: "bytes_size_t (take 8 (drop (unat (pos + 1)) buf)) = ns"
    by (simp add: u1 ns_def)
  show ?thesis
    unfolding ReadFileInfo_def Let_def st_size_def name_size
    using len t fit c0 c1 c2 c3 u1 u9 u9n u17n
    by (simp add: nn)
qed


lemma Init_records_spec:
  assumes "Init_records st path buf pos = Some y"
  shows "\<forall>st'. y = Inr st' \<longrightarrow> length buf = unat (page_size st) \<longrightarrow>
           virtual_dirs st \<subseteq>\<^sub>m virtual_dirs st' \<and> virtual_files st' = virtual_files st
           \<and> physical_files st' = physical_files st \<and> page_size st' = page_size st
           \<and> (\<forall>r \<in> set (spec_records (unat (page_size st)) buf (unat pos)).
                 info_type r = CHR 0x07 \<longrightarrow>
                 virtual_dirs st' (info_name r) = Some \<lparr>dir_p_file = path, dir_page = info_page r\<rparr>)"
    (is "?P st path buf pos y")
proof (rule Init_records.raw_induct[where P = ?P, OF _ assms])
  fix loop :: "'a VFS \<Rightarrow> 'a \<Rightarrow> string \<Rightarrow> size_t \<Rightarrow> 'a VFS result"
  fix st :: "'a VFS" and path :: 'a and buf :: string and pos :: size_t and y
  assume IH: "\<And>st path buf pos y. loop st path buf pos = Some y \<Longrightarrow> ?P st path buf pos y"
  assume step: "(case ReadFileInfo (page_size st) buf pos of
        None \<Rightarrow> None
      | Some (Inl e) \<Rightarrow> Some (Inl e)
      | Some (Inr (info, new_pos)) \<Rightarrow>
          (case (if info_type info = FileType_char dir
                 then InsertDir st (info_name info) (info_page info) path
                 else ok st) of
             None \<Rightarrow> None
           | Some (Inl e) \<Rightarrow> Some (Inl e)
           | Some (Inr st1) \<Rightarrow>
               if new_pos > 0 \<and> new_pos < page_size st - st_size
               then loop st1 path buf new_pos
               else Some (Inr st1))) = Some y"
  show "?P st path buf pos y"
  proof (intro allI impI)
    fix st' assume y: "y = Inr st'" and len: "length buf = unat (page_size st)"
    let ?ps = "page_size st"
    from step y obtain info new_pos st1 where
      rfi: "ReadFileInfo ?ps buf pos = ok (info, new_pos)"
      and ins: "(if info_type info = CHR 0x07
                 then InsertDir st (info_name info) (info_page info) path else ok st) = ok st1"
      and rest: "(if new_pos > 0 \<and> new_pos < ?ps - st_size
                  then loop st1 path buf new_pos else Some (Inr st1)) = Some (Inr st')"
      by (auto simp: ok_def split: option.splits sum.splits)
    from ins have s1: "virtual_dirs st \<subseteq>\<^sub>m virtual_dirs st1" "virtual_files st1 = virtual_files st"
      "physical_files st1 = physical_files st" "page_size st1 = page_size st"
      and d1: "info_type info = CHR 0x07 \<Longrightarrow>
          virtual_dirs st1 (info_name info) = Some \<lparr>dir_p_file = path, dir_page = info_page info\<rparr>"
      by (auto split: if_splits dest!: InsertDir_ok simp: map_le_def)
    have s2: "virtual_dirs st1 \<subseteq>\<^sub>m virtual_dirs st'" "virtual_files st' = virtual_files st1"
      "physical_files st' = physical_files st1" "page_size st' = page_size st1"
      and r2: "new_pos > 0 \<and> new_pos < ?ps - st_size \<Longrightarrow>
          \<forall>r \<in> set (spec_records (unat ?ps) buf (unat new_pos)). info_type r = CHR 0x07 \<longrightarrow>
             virtual_dirs st' (info_name r) = Some \<lparr>dir_p_file = path, dir_page = info_page r\<rparr>"
      using rest IH[of st1 path buf new_pos "Inr st'"] len s1(4)
      by (auto split: if_splits)
    have recs: "\<forall>r \<in> set (spec_records (unat ?ps) buf (unat pos)). info_type r = CHR 0x07 \<longrightarrow>
             virtual_dirs st' (info_name r) = Some \<lparr>dir_p_file = path, dir_page = info_page r\<rparr>"
    proof (cases "unat pos + 8 < unat ?ps \<and> unat pos < length buf \<and> buf ! unat pos \<noteq> CHR 0x00
              \<and> unat pos + 17 + unat (bytes_size_t (take 8 (drop (unat pos + 1) buf))) + 8 \<le> unat ?ps")
      case False
      then have "spec_records (unat ?ps) buf (unat pos) = []"
        by (subst spec_records.simps) (auto simp: Let_def)
      then show ?thesis by simp
    next
      case True
      define n where "n = unat (bytes_size_t (take 8 (drop (unat pos + 1) buf)))"
      from True have fit: "unat pos + 17 + n + 8 \<le> unat ?ps" and t: "buf ! unat pos \<noteq> CHR 0x00"
        by (simp_all add: n_def)
      from ReadFileInfo_spec[OF len t n_def fit] rfi
      have info: "info = Info (buf ! unat pos) (take n (drop (unat pos + 9) buf))
                 (bytes_size_t (take 8 (drop (unat pos + 9 + n) buf)))"
        and np: "unat new_pos = unat pos + 17 + n"
        by auto
      have unf: "spec_records (unat ?ps) buf (unat pos) = info # spec_records (unat ?ps) buf (unat new_pos)"
        using True by (subst spec_records.simps) (simp add: Let_def n_def info np)
      have ps8: "unat (?ps - st_size) = unat ?ps - 8"
        using fit by (simp add: st_size_def unat_sub word_le_nat_alt)
      have tail: "\<forall>r \<in> set (spec_records (unat ?ps) buf (unat new_pos)). info_type r = CHR 0x07 \<longrightarrow>
             virtual_dirs st' (info_name r) = Some \<lparr>dir_p_file = path, dir_page = info_page r\<rparr>"
      proof (cases "new_pos > 0 \<and> new_pos < ?ps - st_size")
        case True
        then show ?thesis by (rule r2)
      next
        case False
        have "new_pos > 0" using np by (simp add: word_less_nat_alt)
        with False have "\<not> unat new_pos < unat ?ps - 8"
          by (simp add: word_less_nat_alt ps8)
        then have "spec_records (unat ?ps) buf (unat new_pos) = []"
          by (subst spec_records.simps) auto
        then show ?thesis by simp
      qed
      have head: "info_type info = CHR 0x07 \<Longrightarrow>
          virtual_dirs st' (info_name info) = Some \<lparr>dir_p_file = path, dir_page = info_page info\<rparr>"
        using d1 s2(1) by (auto simp: map_le_def dom_def)
      show ?thesis unfolding unf using head tail by simp
    qed
    from s1 s2 recs show "virtual_dirs st \<subseteq>\<^sub>m virtual_dirs st' \<and> virtual_files st' = virtual_files st
           \<and> physical_files st' = physical_files st \<and> page_size st' = page_size st
           \<and> (\<forall>r \<in> set (spec_records (unat (page_size st)) buf (unat pos)).
                 info_type r = CHR 0x07 \<longrightarrow>
                 virtual_dirs st' (info_name r) = Some \<lparr>dir_p_file = path, dir_page = info_page r\<rparr>)"
      by (auto intro: map_le_trans)
  qed
qed


lemma pf_Read_full:
  assumes "pf_Read pf True len pos = (len, buf)"
  shows "length buf = unat len \<and> buf = take (unat len) (drop (unat pos) (str pf))"
proof (cases "len = 0 \<or> pos \<ge> GetSize pf")
  case True
  with assms show ?thesis by (auto simp: pf_Read_def)
next
  case False
  define m where "m = min len (GetSize pf - pos)"
  define xs where "xs = drop (unat pos) (str pf)"
  from False assms have b: "buf = take (unat m) xs" and l: "of_nat (length buf) = len"
    by (auto simp: pf_Read_def Let_def m_def xs_def)
  have ml: "unat m \<le> unat len" by (simp add: m_def word_le_nat_alt[symmetric])
  have "length buf \<le> unat m" by (simp add: b)
  with ml have "length buf \<le> unat len" by simp
  moreover have "unat len < 2 ^ 64" using unsigned_less[of len] by simp
  ultimately have "unat (of_nat (length buf) :: size_t) = length buf"
    by (simp add: unat_of_nat)
  with l have lb: "length buf = unat len" by simp
  with b ml have "min (unat m) (length xs) = unat len" by simp
  with ml have "unat m = unat len" by (simp add: min_def split: if_splits)
  with b lb show ?thesis by (simp add: xs_def)
qed

lemma spec_page_read:
  fixes pg ps :: size_t
  assumes sp: "spec_page (unat ps) b (unat pg) = Some pgb" and lb: "length b < 2 ^ 64"
  shows "take (unat ps) (drop (unat (pg * ps + start)) b) = pgb"
proof -
  from sp have fit: "8 + (unat pg + 1) * unat ps \<le> length b"
    and pgb: "pgb = take (unat ps) (drop (8 + unat pg * unat ps) b)"
    by (auto simp: spec_page_def split: if_splits)
  from fit lb have "unat pg * unat ps < 2 ^ 64" by simp
  then have m: "unat (pg * ps) = unat pg * unat ps"
    by (simp add: unat_mult_lem[THEN iffD1])
  from fit lb m have "unat (pg * ps) + unat (8::size_t) < 2 ^ 64" by simp
  then have "unat (pg * ps + 8) = unat (pg * ps) + unat (8::size_t)"
    by (rule unat_add_small)
  with m have "unat (pg * ps + start) = 8 + unat pg * unat ps"
    by (simp add: start_def st_size_def)
  with pgb show ?thesis by simp
qed

lemma GetNextPage_spec:
  assumes "st_size \<le> ps" and "length buf = unat ps"
  shows "unat (GetNextPage ps buf) = spec_next_page (unat ps) buf"
proof -
  from assms(1) have "unat (ps - st_size) = unat ps - 8"
    by (simp add: st_size_def unat_sub)
  moreover from assms have "8 \<le> unat ps" by (simp add: st_size_def word_le_nat_alt)
  ultimately show ?thesis using assms(2)
    by (simp add: GetNextPage_def spec_next_page_def)
qed


lemma Init_pages_spec:
  assumes "Init_pages st path pf pg = Some y"
  shows "\<forall>st'. y = Inr st' \<longrightarrow>
           virtual_dirs st \<subseteq>\<^sub>m virtual_dirs st' \<and> virtual_files st' = virtual_files st
           \<and> physical_files st' = physical_files st \<and> page_size st' = page_size st
           \<and> (st_size \<le> page_size st \<longrightarrow> length (str pf) < 2 ^ 64 \<longrightarrow>
               (\<forall>p pgb r. spec_chain (unat (page_size st)) (str pf) (unat pg) p
                 \<and> spec_page (unat (page_size st)) (str pf) p = Some pgb
                 \<and> r \<in> set (spec_records (unat (page_size st)) pgb 0)
                 \<and> info_type r = CHR 0x07 \<longrightarrow>
                 virtual_dirs st' (info_name r) = Some \<lparr>dir_p_file = path, dir_page = info_page r\<rparr>))"
    (is "?P st path pf pg y")
proof (rule Init_pages.raw_induct[where P = ?P, OF _ assms])
  fix loop :: "'a VFS \<Rightarrow> 'a \<Rightarrow> 'a PhysicalFile \<Rightarrow> size_t \<Rightarrow> 'a VFS result"
  fix st :: "'a VFS" and path :: 'a and pf :: "'a PhysicalFile" and pg :: size_t and y
  assume IH: "\<And>st path pf pg y. loop st path pf pg = Some y \<Longrightarrow> ?P st path pf pg y"
  assume step: "(let ps = page_size st; (n, buf) = pf_Read pf True ps (pg * ps + start)
      in if n \<noteq> ps then Some (Inl FileReadingError)
         else case Init_records st path buf 0 of None \<Rightarrow> None
              | Some (Inl e) \<Rightarrow> Some (Inl e)
              | Some (Inr st1) \<Rightarrow>
                  let pg1 = GetNextPage ps buf
                  in if 0 < pg1 then loop st1 path pf pg1
                     else Some (Inr st1)) = Some y"
  show "?P st path pf pg y"
  proof (intro allI impI conjI)
    fix st' assume y: "y = Inr st'"
    let ?ps = "page_size st"
    let ?b = "str pf"
    from step y obtain buf st1 where
      rd: "pf_Read pf True ?ps (pg * ?ps + start) = (?ps, buf)"
      and recs: "Init_records st path buf 0 = Some (Inr st1)"
      and rest: "(if 0 < GetNextPage ?ps buf then loop st1 path pf (GetNextPage ?ps buf)
                  else Some (Inr st1)) = Some (Inr st')"
      by (auto simp: Let_def split: prod.splits if_splits option.splits sum.splits)
    have len: "length buf = unat ?ps"
      using pf_Read_full[OF rd] by (rule conjunct1)
    have buf: "buf = take (unat ?ps) (drop (unat (pg * ?ps + start)) ?b)"
      using pf_Read_full[OF rd] by (rule conjunct2)
    from Init_records_spec[OF recs] len
    have s1: "virtual_dirs st \<subseteq>\<^sub>m virtual_dirs st1" "virtual_files st1 = virtual_files st"
      "physical_files st1 = physical_files st" "page_size st1 = page_size st"
      and r1: "\<forall>r \<in> set (spec_records (unat ?ps) buf 0). info_type r = CHR 0x07 \<longrightarrow>
                 virtual_dirs st1 (info_name r) = Some \<lparr>dir_p_file = path, dir_page = info_page r\<rparr>"
      by simp_all
    have s2: "virtual_dirs st1 \<subseteq>\<^sub>m virtual_dirs st'" "virtual_files st' = virtual_files st1"
      "physical_files st' = physical_files st1" "page_size st' = page_size st1"
      using rest IH[of st1 path pf "GetNextPage ?ps buf" "Inr st'"]
      by (auto split: if_splits)
    have r2: "\<forall>p pgb r. spec_chain (unat ?ps) ?b (unat (GetNextPage ?ps buf)) p
                 \<and> spec_page (unat ?ps) ?b p = Some pgb
                 \<and> r \<in> set (spec_records (unat ?ps) pgb 0)
                 \<and> info_type r = CHR 0x07 \<longrightarrow>
                 virtual_dirs st' (info_name r) = Some \<lparr>dir_p_file = path, dir_page = info_page r\<rparr>"
      if "0 < GetNextPage ?ps buf" and "st_size \<le> ?ps" and "length ?b < 2 ^ 64"
      using that rest IH[of st1 path pf "GetNextPage ?ps buf" "Inr st'"] s1(4)
      by (auto split: if_splits)
    have chain: "virtual_dirs st' (info_name r) = Some \<lparr>dir_p_file = path, dir_page = info_page r\<rparr>"
      if ps8: "st_size \<le> ?ps" and lb: "length ?b < 2 ^ 64"
        and c: "spec_chain (unat ?ps) ?b (unat pg) p" and sp: "spec_page (unat ?ps) ?b p = Some pgb"
        and r: "r \<in> set (spec_records (unat ?ps) pgb 0)" and d: "info_type r = CHR 0x07"
      for p pgb r
      using c
    proof (cases rule: spec_chain.cases)
      case (here pg0)
      with sp have "spec_page (unat ?ps) ?b (unat pg) = Some pgb" by simp
      from spec_page_read[OF this lb] buf have "pgb = buf" by simp
      with r d r1 have "virtual_dirs st1 (info_name r) = Some \<lparr>dir_p_file = path, dir_page = info_page r\<rparr>"
        by simp
      with s2(1) show ?thesis by (auto simp: map_le_def dom_def)
    next
      case (link pg0 q)
      from spec_page_read[OF link(1) lb] buf have "pg0 = buf" by simp
      with link(2) GetNextPage_spec[OF ps8 len] have q: "unat (GetNextPage ?ps buf) = q" by simp
      with link(3) have "0 < GetNextPage ?ps buf" by (simp add: word_greater_zero_iff unat_eq_zero[symmetric])
      from r2[OF this ps8 lb] link(4) q sp r d show ?thesis by blast
    qed
    from s1 s2 show "virtual_dirs st \<subseteq>\<^sub>m virtual_dirs st'" by (auto intro: map_le_trans)
    from s1 s2 show "virtual_files st' = virtual_files st" by simp
    from s1 s2 show "physical_files st' = physical_files st" by simp
    from s1 s2 show "page_size st' = page_size st" by simp
    fix p pgb r
    assume "st_size \<le> page_size st" "length (str pf) < 2 ^ 64"
      "spec_chain (unat (page_size st)) (str pf) (unat pg) p
                 \<and> spec_page (unat (page_size st)) (str pf) p = Some pgb
                 \<and> r \<in> set (spec_records (unat (page_size st)) pgb 0)
                 \<and> info_type r = CHR 0x07"
    then show "virtual_dirs st' (info_name r) = Some \<lparr>dir_p_file = path, dir_page = info_page r\<rparr>"
      using chain by blast
  qed
qed

text \<open>
  \<^verbatim>\<open>Init\<close> returns. On a chain of page 0 that ends, with well packed pages whose directory
  names are distinct and new, both loops of \<^verbatim>\<open>Init\<close> terminate without an exception, and the
  names in \<open>virtual_dirs\<close> afterwards are the old ones and those of the directory records.
\<close>

lemma pf_Read_spec_page:
  fixes pg ps :: size_t
  assumes sp: "spec_page (unat ps) (str pf) (unat pg) = Some pgb"
    and lb: "length (str pf) < 2 ^ 64"
    and gs: "GetSize pf = of_nat (length (str pf))"
    and ps0: "ps \<noteq> 0"
  shows "pf_Read pf True ps (pg * ps + start) = (ps, pgb)"
proof -
  let ?L = "length (str pf)"
  from sp have fit: "8 + (unat pg + 1) * unat ps \<le> ?L"
    and pgb: "pgb = take (unat ps) (drop (8 + unat pg * unat ps) (str pf))"
    by (auto simp: spec_page_def split: if_splits)
  from fit lb have "unat pg * unat ps < 2 ^ 64" by simp
  then have m: "unat (pg * ps) = unat pg * unat ps"
    by (simp add: unat_mult_lem[THEN iffD1])
  from fit lb m have "unat (pg * ps) + unat (8::size_t) < 2 ^ 64" by simp
  then have "unat (pg * ps + 8) = unat (pg * ps) + unat (8::size_t)"
    by (rule unat_add_small)
  with m have o: "unat (pg * ps + start) = 8 + unat pg * unat ps"
    by (simp add: start_def st_size_def)
  have uL: "unat (GetSize pf) = ?L" using lb by (simp add: gs unat_of_nat)
  have psp: "0 < unat ps" using ps0 by (simp add: unat_gt_0)
  from fit have room: "8 + unat pg * unat ps + unat ps \<le> ?L" by simp
  with psp have lt: "pg * ps + start < GetSize pf"
    by (simp add: word_less_nat_alt o uL)
  then have nge: "\<not> GetSize pf \<le> pg * ps + start" by simp
  from lt have "pg * ps + start \<le> GetSize pf" by simp
  then have d: "unat (GetSize pf - (pg * ps + start)) = ?L - (8 + unat pg * unat ps)"
    by (simp add: unat_sub o uL)
  with room have "ps \<le> GetSize pf - (pg * ps + start)"
    by (simp add: word_le_nat_alt)
  then have mn: "min ps (GetSize pf - (pg * ps + start)) = ps" by simp
  have len: "length pgb = unat ps" using room by (simp add: pgb)
  show ?thesis
    using nge ps0 by (simp add: pf_Read_def Let_def mn o pgb[symmetric] len)
qed

lemma ReadFileInfo_zero:
  fixes pos ps :: size_t
  assumes "length buf = unat ps" and "unat pos < unat ps" and "buf ! unat pos = CHR 0x00"
  shows "ReadFileInfo ps buf pos = ok (Info (CHR 0x00) [] 0, 0)"
  using assms by (simp add: ReadFileInfo_def Let_def word_less_nat_alt)


lemma Init_records_total:
  fixes pos :: size_t and st :: "'p VFS"
  assumes "length buf = unat (page_size st)"
    and "unat pos + 8 < unat (page_size st)"
    and "spec_packed (unat (page_size st)) buf (unat pos)"
    and "distinct (dir_names (spec_records (unat (page_size st)) buf (unat pos)))"
    and "set (dir_names (spec_records (unat (page_size st)) buf (unat pos))) \<inter> dom (virtual_dirs st) = {}"
  shows "\<exists>st'. Init_records st path buf pos = Some (Inr st')
           \<and> dom (virtual_dirs st') = dom (virtual_dirs st)
                \<union> set (dir_names (spec_records (unat (page_size st)) buf (unat pos)))"
  using assms
proof (induction "unat (page_size st) - unat pos" arbitrary: pos st rule: less_induct)
  case less
  let ?ps = "page_size st"
  note len = less.prems(1) and room = less.prems(2) and packed = less.prems(3)
    and dist = less.prems(4) and fresh = less.prems(5)
  show ?case
  proof (cases "buf ! unat pos = CHR 0x00")
    case True
    from room have "unat pos < unat ?ps" by simp
    from ReadFileInfo_zero[OF len this True]
    have rfi: "ReadFileInfo ?ps buf pos = ok (Info (CHR 0x00) [] 0, 0)" .
    have recs: "spec_records (unat ?ps) buf (unat pos) = []"
      using True by (subst spec_records.simps) simp
    show ?thesis
      by (subst Init_records.simps) (simp add: rfi recs dir_names_def)
  next
    case False
    define n where "n = unat (bytes_size_t (take 8 (drop (unat pos + 1) buf)))"
    from room len have inpg: "unat pos < length buf" by simp
    from packed room inpg False
    have fit: "unat pos + 17 + n + 8 \<le> unat ?ps"
      and packed': "spec_packed (unat ?ps) buf (unat pos + 17 + n)"
      by (subst (asm) spec_packed.simps, simp add: Let_def n_def split: if_splits)+
    define info where "info = Info (buf ! unat pos) (take n (drop (unat pos + 9) buf))
                 (bytes_size_t (take 8 (drop (unat pos + 9 + n) buf)))"
    from ReadFileInfo_spec[OF len False n_def fit] obtain new_pos where
      rfi: "ReadFileInfo ?ps buf pos = ok (info, new_pos)"
      and np: "unat new_pos = unat pos + 17 + n"
      by (auto simp: info_def)
    have unf: "spec_records (unat ?ps) buf (unat pos) = info # spec_records (unat ?ps) buf (unat new_pos)"
      using room inpg False fit
      by (subst spec_records.simps) (simp add: Let_def n_def info_def np)
    let ?tl = "dir_names (spec_records (unat ?ps) buf (unat new_pos))"
    have "\<exists>st1. (if info_type info = FileType_char dir
                 then InsertDir st (info_name info) (info_page info) path else ok st) = ok st1
            \<and> page_size st1 = ?ps
            \<and> dom (virtual_dirs st1) = dom (virtual_dirs st) \<union> set (dir_names [info])"
    proof (cases "info_type info = FileType_char dir")
      case True
      with fresh have "virtual_dirs st (info_name info) = None"
        by (auto simp: unf dir_names_def)
      with True show ?thesis
        by (auto simp: InsertDir_def Let_def lock_guard_def dir_names_def)
    next
      case False
      then show ?thesis by (simp add: dir_names_def)
    qed
    then obtain st1 where
      ins: "(if info_type info = FileType_char dir
                 then InsertDir st (info_name info) (info_page info) path else ok st) = ok st1"
      and ps1: "page_size st1 = ?ps"
      and dom1: "dom (virtual_dirs st1) = dom (virtual_dirs st) \<union> set (dir_names [info])"
      by blast
    have names: "dir_names (spec_records (unat ?ps) buf (unat pos)) = dir_names [info] @ ?tl"
      by (simp add: unf dir_names_def)
    have ps8: "unat (?ps - st_size) = unat ?ps - 8"
      using fit by (simp add: st_size_def unat_sub word_le_nat_alt)
    have step: "Init_records st path buf pos =
        (if new_pos > 0 \<and> new_pos < ?ps - st_size
         then Init_records st1 path buf new_pos else Some (Inr st1))"
      by (subst Init_records.simps) (simp only: rfi case_ok sum.case prod.case ins)
    show ?thesis
    proof (cases "new_pos > 0 \<and> new_pos < ?ps - st_size")
      case True
      then have "unat new_pos < unat ?ps - 8"
        by (simp add: word_less_nat_alt ps8)
      then have room': "unat new_pos + 8 < unat (page_size st1)"
        unfolding ps1 by arith
      have less': "unat (page_size st1) - unat new_pos < unat ?ps - unat pos"
        using np room by (simp add: ps1)
      have dist': "distinct (dir_names (spec_records (unat (page_size st1)) buf (unat new_pos)))"
        using dist by (simp add: names ps1)
      have fresh': "set (dir_names (spec_records (unat (page_size st1)) buf (unat new_pos)))
                      \<inter> dom (virtual_dirs st1) = {}"
        using dist fresh by (auto simp: names ps1 dom1)
      from less.hyps[OF less' _ room' _ dist' fresh'] len packed' np
      obtain st' where r: "Init_records st1 path buf new_pos = Some (Inr st')"
        and d: "dom (virtual_dirs st') = dom (virtual_dirs st1) \<union> set ?tl"
        by (auto simp: ps1)
      have "Init_records st path buf pos = Some (Inr st')"
        unfolding step if_P[OF True] by (rule r)
      with d show ?thesis by (auto simp: names dom1)
    next
      case False
      have "new_pos > 0" using np by (simp add: word_less_nat_alt)
      with False have "\<not> unat new_pos < unat ?ps - 8"
        by (simp add: word_less_nat_alt ps8)
      then have e: "spec_records (unat ?ps) buf (unat new_pos) = []"
        by (subst spec_records.simps) auto
      have "Init_records st path buf pos = Some (Inr st1)"
        unfolding step by (rule if_not_P[OF False])
      moreover have "?tl = []" by (simp add: e dir_names_def)
      ultimately show ?thesis by (simp add: names dom1)
    qed
  qed
qed


lemma dir_names_append [simp]: "dir_names (xs @ ys) = dir_names xs @ dir_names ys"
  by (simp add: dir_names_def)

lemma spec_chain_records_Cons:
  "spec_chain_records ps b (p # pages) = spec_page_records ps b p @ spec_chain_records ps b pages"
  by (simp add: spec_chain_records_def)

lemma Init_pages_total:
  fixes pg :: size_t and st :: "'p VFS"
  assumes "spec_walk (unat (page_size st)) (str pf) (unat pg) qs"
    and "list_all (spec_page_packed (unat (page_size st)) (str pf)) (unat pg # qs)"
    and "distinct (dir_names (spec_chain_records (unat (page_size st)) (str pf) (unat pg # qs)))"
    and "set (dir_names (spec_chain_records (unat (page_size st)) (str pf) (unat pg # qs)))
           \<inter> dom (virtual_dirs st) = {}"
    and "length (str pf) < 2 ^ 64"
    and "GetSize pf = of_nat (length (str pf))"
    and "st_size < page_size st"
  shows "\<exists>st'. Init_pages st path pf pg = Some (Inr st')
           \<and> dom (virtual_dirs st') = dom (virtual_dirs st)
                \<union> set (dir_names (spec_chain_records (unat (page_size st)) (str pf) (unat pg # qs)))"
  using assms
proof (induction qs arbitrary: pg st)
  case Nil
  let ?ps = "page_size st"
  let ?b = "str pf"
  note walk = Nil.prems(1) and packed = Nil.prems(2) and dist = Nil.prems(3)
    and fresh = Nil.prems(4) and lb = Nil.prems(5) and gs = Nil.prems(6) and ps8 = Nil.prems(7)
  from walk obtain pgb where sp: "spec_page (unat ?ps) ?b (unat pg) = Some pgb"
    and nx: "spec_next_page (unat ?ps) pgb = 0"
    by (auto split: option.splits)
  from ps8 have ps0: "?ps \<noteq> 0" by auto
  from ps8 have le: "st_size \<le> ?ps" by simp
  from ps8 have room: "unat (0::size_t) + 8 < unat ?ps"
    by (simp add: st_size_def word_less_nat_alt)
  from pf_Read_spec_page[OF sp lb gs ps0]
  have rd: "pf_Read pf True ?ps (pg * ?ps + start) = (?ps, pgb)" .
  have len: "length pgb = unat ?ps" using pf_Read_full[OF rd] by (rule conjunct1)
  have recs: "spec_page_records (unat ?ps) ?b (unat pg) = spec_records (unat ?ps) pgb 0"
    by (simp add: spec_page_records_def sp)
  from packed have pk: "spec_packed (unat ?ps) pgb (unat (0::size_t))"
    by (simp add: spec_page_packed_def sp)
  from dist have d0: "distinct (dir_names (spec_records (unat ?ps) pgb (unat (0::size_t))))"
    by (simp add: spec_chain_records_Cons recs)
  from fresh have f0: "set (dir_names (spec_records (unat ?ps) pgb (unat (0::size_t))))
                         \<inter> dom (virtual_dirs st) = {}"
    by (auto simp: spec_chain_records_Cons recs)
  from Init_records_total[OF len room pk d0 f0, of path] obtain st1 where
    r1: "Init_records st path pgb 0 = Some (Inr st1)"
    and dom1: "dom (virtual_dirs st1) = dom (virtual_dirs st)
                 \<union> set (dir_names (spec_records (unat ?ps) pgb 0))"
    by auto
  from GetNextPage_spec[OF le len] nx have g: "GetNextPage ?ps pgb = 0"
    by (simp add: unat_eq_zero)
  have "Init_pages st path pf pg = Some (Inr st1)"
    by (subst Init_pages.simps) (simp add: Let_def rd r1 g)
  with dom1 show ?case
    by (simp add: spec_chain_records_Cons recs spec_chain_records_def)
next
  case (Cons q qs)
  let ?ps = "page_size st"
  let ?b = "str pf"
  note walk = Cons.prems(1) and packed = Cons.prems(2) and dist = Cons.prems(3)
    and fresh = Cons.prems(4) and lb = Cons.prems(5) and gs = Cons.prems(6) and ps8 = Cons.prems(7)
  from walk obtain pgb where sp: "spec_page (unat ?ps) ?b (unat pg) = Some pgb"
    and nx: "spec_next_page (unat ?ps) pgb = q" and q0: "q \<noteq> 0"
    and walk': "spec_walk (unat ?ps) ?b q qs"
    by (auto split: option.splits)
  from ps8 have ps0: "?ps \<noteq> 0" by auto
  from ps8 have le: "st_size \<le> ?ps" by simp
  from ps8 have room: "unat (0::size_t) + 8 < unat ?ps"
    by (simp add: st_size_def word_less_nat_alt)
  from pf_Read_spec_page[OF sp lb gs ps0]
  have rd: "pf_Read pf True ?ps (pg * ?ps + start) = (?ps, pgb)" .
  have len: "length pgb = unat ?ps" using pf_Read_full[OF rd] by (rule conjunct1)
  have recs: "spec_page_records (unat ?ps) ?b (unat pg) = spec_records (unat ?ps) pgb 0"
    by (simp add: spec_page_records_def sp)
  from packed have pk0: "spec_page_packed (unat ?ps) ?b (unat pg)"
    and packed': "list_all (spec_page_packed (unat ?ps) ?b) (q # qs)"
    by simp_all
  from pk0 have pk: "spec_packed (unat ?ps) pgb (unat (0::size_t))"
    by (simp add: spec_page_packed_def sp)
  from dist have d0: "distinct (dir_names (spec_records (unat ?ps) pgb (unat (0::size_t))))"
    and dist': "distinct (dir_names (spec_chain_records (unat ?ps) ?b (q # qs)))"
    by (simp_all add: spec_chain_records_Cons[of _ _ "unat pg"] recs)
  from fresh have f0: "set (dir_names (spec_records (unat ?ps) pgb (unat (0::size_t))))
                         \<inter> dom (virtual_dirs st) = {}"
    by (auto simp: spec_chain_records_Cons[of _ _ "unat pg"] recs)
  from Init_records_total[OF len room pk d0 f0, of path] obtain st1 where
    r1: "Init_records st path pgb 0 = Some (Inr st1)"
    and dom1: "dom (virtual_dirs st1) = dom (virtual_dirs st)
                 \<union> set (dir_names (spec_records (unat ?ps) pgb 0))"
    by auto
  from Init_records_spec[OF r1] len have ps1: "page_size st1 = ?ps" by simp
  define pg1 where "pg1 = GetNextPage ?ps pgb"
  from GetNextPage_spec[OF le len] nx have g: "unat pg1 = q" by (simp add: pg1_def)
  with q0 have gpos: "0 < pg1" by (auto simp: word_greater_zero_iff)
  have fresh': "set (dir_names (spec_chain_records (unat ?ps) ?b (q # qs)))
                  \<inter> dom (virtual_dirs st1) = {}"
    using dist fresh
    by (auto simp: spec_chain_records_Cons[of _ _ "unat pg"] recs dom1)
  from Cons.IH[of st1 pg1] walk' packed' dist' fresh' lb gs ps8
  obtain st' where r: "Init_pages st1 path pf pg1 = Some (Inr st')"
    and d: "dom (virtual_dirs st') = dom (virtual_dirs st1)
              \<union> set (dir_names (spec_chain_records (unat ?ps) ?b (q # qs)))"
    by (auto simp: ps1 g)
  have "Init_pages st path pf pg = Some (Inr st')"
    using gpos by (subst Init_pages.simps) (simp add: Let_def rd r1 pg1_def[symmetric] r)
  with d dom1 show ?case
    by (auto simp: spec_chain_records_Cons[of _ _ "unat pg"] recs)
qed


lemma spec_walk_chain:
  "spec_walk ps b p qs \<Longrightarrow> r \<in> set (p # qs) \<Longrightarrow> spec_chain ps b p r"
proof (induction qs arbitrary: p)
  case Nil
  then show ?case by (auto split: option.splits intro: spec_chain.here)
next
  case (Cons q qs)
  from Cons.prems(1) obtain pg where sp: "spec_page ps b p = Some pg"
    and nx: "spec_next_page ps pg = q" and q0: "q \<noteq> 0" and w: "spec_walk ps b q qs"
    by (auto split: option.splits)
  show ?case
  proof (cases "r = p")
    case True
    with sp show ?thesis by (auto intro: spec_chain.here)
  next
    case False
    with Cons.prems(2) have "r \<in> set (q # qs)" by simp
    from Cons.IH[OF w this] have "spec_chain ps b q r" .
    from spec_chain.link[OF sp nx q0 this] show ?thesis .
  qed
qed

lemma Init_spec:
  assumes i: "Init st path pf = ok st'"
  shows "virtual_files st' = virtual_files st \<and> physical_files st' = physical_files st
         \<and> virtual_dirs st \<subseteq>\<^sub>m virtual_dirs st' \<and> page_size st' = page_size st
         \<and> (st_size \<le> page_size st \<and> length (str pf) < 2 ^ 64 \<longrightarrow>
             (\<forall>hdr. pf_Read pf True st_size 0 = (st_size, hdr) \<and> bytes_size_t hdr \<noteq> 0 \<longrightarrow>
               (\<forall>p pgb r. spec_chain (unat (page_size st)) (str pf) 0 p
                     \<and> spec_page (unat (page_size st)) (str pf) p = Some pgb
                     \<and> r \<in> set (spec_records (unat (page_size st)) pgb 0)
                     \<and> info_type r = FileType_char dir \<longrightarrow>
                     virtual_dirs st' (info_name r)
                       = Some \<lparr>dir_p_file = path, dir_page = info_page r\<rparr>)))"
proof -
  obtain n hdr where h: "pf_Read pf True st_size 0 = (n, hdr)" by (cases "pf_Read pf True st_size 0")
  let ?st = "st\<lparr>num_of_files := num_of_files st + bytes_size_t hdr\<rparr>"
  from h i have n: "n = st_size"
    by (auto simp: Init_def ok_def throw_def split: if_splits)
  from h i n have cases: "(bytes_size_t hdr = 0 \<and> st' = st)
      \<or> (bytes_size_t hdr \<noteq> 0 \<and> Init_pages ?st path pf 0 = Some (Inr st'))"
    by (auto simp: Init_def ok_def split: if_splits)
  then show ?thesis
  proof
    assume "bytes_size_t hdr = 0 \<and> st' = st"
    then show ?thesis using h n by simp
  next
    assume a: "bytes_size_t hdr \<noteq> 0 \<and> Init_pages ?st path pf 0 = Some (Inr st')"
    from Init_pages_spec[OF a[THEN conjunct2]]
    show ?thesis by auto
  qed
qed

lemma Init_total:
  assumes h: "pf_Read pf True st_size 0 = (st_size, hdr)" and nz: "bytes_size_t hdr \<noteq> 0"
    and ps8: "st_size < page_size st" and lb: "length (str pf) < 2 ^ 64"
    and gs: "GetSize pf = of_nat (length (str pf))"
    and walk: "spec_walk (unat (page_size st)) (str pf) 0 qs"
    and packed: "list_all (spec_page_packed (unat (page_size st)) (str pf)) (0 # qs)"
    and dist: "distinct (dir_names (spec_chain_records (unat (page_size st)) (str pf) (0 # qs)))"
    and fresh: "set (dir_names (spec_chain_records (unat (page_size st)) (str pf) (0 # qs)))
                  \<inter> dom (virtual_dirs st) = {}"
  shows "\<exists>st'. Init st path pf = ok st'
           \<and> dom (virtual_dirs st') = dom (virtual_dirs st)
                \<union> set (dir_names (spec_chain_records (unat (page_size st)) (str pf) (0 # qs)))
           \<and> (\<forall>r \<in> set (spec_chain_records (unat (page_size st)) (str pf) (0 # qs)).
                 info_type r = FileType_char dir \<longrightarrow>
                 virtual_dirs st' (info_name r) = Some \<lparr>dir_p_file = path, dir_page = info_page r\<rparr>)"
proof -
  let ?st = "st\<lparr>num_of_files := num_of_files st + bytes_size_t hdr\<rparr>"
  let ?ps = "unat (page_size st)"
  have "\<exists>st'. Init_pages ?st path pf 0 = Some (Inr st')
           \<and> dom (virtual_dirs st') = dom (virtual_dirs ?st)
                \<union> set (dir_names (spec_chain_records (unat (page_size ?st)) (str pf) (unat (0::size_t) # qs)))"
    by (rule Init_pages_total) (use walk packed dist fresh lb gs ps8 in simp_all)
  then obtain st' where ip: "Init_pages ?st path pf 0 = Some (Inr st')"
    and d: "dom (virtual_dirs st') = dom (virtual_dirs st)
                \<union> set (dir_names (spec_chain_records ?ps (str pf) (0 # qs)))"
    by auto
  from ip h nz have i: "Init st path pf = ok st'"
    by (simp add: Init_def ok_def)
  from ps8 have le: "st_size \<le> page_size st" by simp
  have recs: "virtual_dirs st' (info_name r) = Some \<lparr>dir_p_file = path, dir_page = info_page r\<rparr>"
    if r: "r \<in> set (spec_chain_records ?ps (str pf) (0 # qs))" and t: "info_type r = FileType_char dir"
    for r
  proof -
    from r obtain p where p: "p \<in> set (0 # qs)" and rp: "r \<in> set (spec_page_records ?ps (str pf) p)"
      by (auto simp: spec_chain_records_def)
    from rp obtain pgb where sp: "spec_page ?ps (str pf) p = Some pgb"
      and rr: "r \<in> set (spec_records ?ps pgb 0)"
      by (cases "spec_page ?ps (str pf) p") (auto simp: spec_page_records_def)
    from spec_walk_chain[OF walk p] have c: "spec_chain ?ps (str pf) 0 p" .
    from Init_spec[OF i] le lb h nz c sp rr t show ?thesis by blast
  qed
  from i d recs show ?thesis by blast
qed


text \<open>
  The constructor: it binds every backing file and then runs \<^verbatim>\<open>Init\<close> on each of them.
\<close>

lemma VFS_files_spec:
  "VFS_files st host files = ok st1 \<Longrightarrow>
     virtual_files st1 = virtual_files st \<and> virtual_dirs st1 = virtual_dirs st
     \<and> page_size st1 = page_size st
     \<and> set (physical_files st) \<subseteq> set (physical_files st1)
     \<and> (\<forall>f \<in> set files. GetSize (PhysicalFile_new f (host f)) \<noteq> 0 \<longrightarrow>
           (f, PhysicalFile_new f (host f)) \<in> set (physical_files st1))"
proof (induction files arbitrary: st)
  case Nil
  then show ?case by simp
next
  case (Cons f files)
  let ?pf = "PhysicalFile_new f (host f)"
  from Cons.prems obtain pf' where
    r: "VFS_files (st\<lparr>physical_files := insort_key fst (f, pf') (physical_files st)\<rparr>) host files = ok st1"
    and p: "GetSize ?pf \<noteq> 0 \<longrightarrow> pf' = ?pf"
    by (auto simp: Let_def split: if_splits prod.splits)
  from Cons.IH[OF r] p show ?case by (auto simp: set_insort_key)
qed

lemma VFS_inits_spec:
  "VFS_inits st pfs = ok st' \<Longrightarrow>
     virtual_files st' = virtual_files st \<and> virtual_dirs st \<subseteq>\<^sub>m virtual_dirs st'
     \<and> page_size st' = page_size st
     \<and> (\<forall>(path, pf) \<in> set pfs. st_size \<le> page_size st \<and> length (str pf) < 2 ^ 64 \<longrightarrow>
           (\<forall>hdr. pf_Read pf True st_size 0 = (st_size, hdr) \<and> bytes_size_t hdr \<noteq> 0 \<longrightarrow>
               (\<forall>p pgb r. spec_chain (unat (page_size st)) (str pf) 0 p
                     \<and> spec_page (unat (page_size st)) (str pf) p = Some pgb
                     \<and> r \<in> set (spec_records (unat (page_size st)) pgb 0)
                     \<and> info_type r = FileType_char dir \<longrightarrow>
                     virtual_dirs st' (info_name r)
                       = Some \<lparr>dir_p_file = path, dir_page = info_page r\<rparr>)))"
proof (induction pfs arbitrary: st)
  case Nil
  then show ?case by simp
next
  case (Cons x pfs)
  obtain path pf where x: "x = (path, pf)" by (cases x)
  from Cons.prems x obtain st1 where i: "Init st path pf = ok st1"
    and r: "VFS_inits st1 pfs = ok st'"
    by (auto simp: ok_def split: option.splits sum.splits)
  note a = Init_spec[OF i]
  note b = Cons.IH[OF r]
  from a b have f1: "virtual_files st' = virtual_files st" by simp
  from a b have f2: "virtual_dirs st \<subseteq>\<^sub>m virtual_dirs st'" by (auto intro: map_le_trans)
  from a b have f3: "page_size st' = page_size st" by simp
  from a have ps1: "page_size st1 = page_size st" by simp
  have hd: "virtual_dirs st' (info_name r) = Some \<lparr>dir_p_file = path, dir_page = info_page r\<rparr>"
    if "st_size \<le> page_size st" "length (str pf) < 2 ^ 64"
      "pf_Read pf True st_size 0 = (st_size, hdr)" "bytes_size_t hdr \<noteq> 0"
      "spec_chain (unat (page_size st)) (str pf) 0 p"
      "spec_page (unat (page_size st)) (str pf) p = Some pgb"
      "r \<in> set (spec_records (unat (page_size st)) pgb 0)"
      "info_type r = FileType_char dir" for hdr p pgb r
  proof -
    from a that
    have "virtual_dirs st1 (info_name r) = Some \<lparr>dir_p_file = path, dir_page = info_page r\<rparr>"
      by blast
    moreover from b have "virtual_dirs st1 \<subseteq>\<^sub>m virtual_dirs st'" by simp
    ultimately show ?thesis by (auto simp: map_le_def dom_def)
  qed
  from b have tl: "\<forall>(path, pf) \<in> set pfs. st_size \<le> page_size st \<and> length (str pf) < 2 ^ 64 \<longrightarrow>
           (\<forall>hdr. pf_Read pf True st_size 0 = (st_size, hdr) \<and> bytes_size_t hdr \<noteq> 0 \<longrightarrow>
               (\<forall>p pgb r. spec_chain (unat (page_size st)) (str pf) 0 p
                     \<and> spec_page (unat (page_size st)) (str pf) p = Some pgb
                     \<and> r \<in> set (spec_records (unat (page_size st)) pgb 0)
                     \<and> info_type r = FileType_char dir \<longrightarrow>
                     virtual_dirs st' (info_name r)
                       = Some \<lparr>dir_p_file = path, dir_page = info_page r\<rparr>))"
    unfolding ps1 by (rule conjunct2[THEN conjunct2, THEN conjunct2])
  from f1 f2 f3 hd tl show ?case
    unfolding x by (simp del: FileType_char.simps) blast
qed

lemma VFS_new_spec:
  assumes n: "VFS_new n ps rd host files = ok st'"
  shows "virtual_files st' = Map.empty
     \<and> (\<forall>f \<in> set files. st_size \<le> ps \<and> host f \<noteq> [] \<and> length (host f) < 2 ^ 64 \<longrightarrow>
           (\<forall>hdr. pf_Read (PhysicalFile_new f (host f)) True st_size 0 = (st_size, hdr)
                  \<and> bytes_size_t hdr \<noteq> 0 \<longrightarrow>
               (\<forall>p pgb r. spec_chain (unat ps) (host f) 0 p
                     \<and> spec_page (unat ps) (host f) p = Some pgb
                     \<and> r \<in> set (spec_records (unat ps) pgb 0)
                     \<and> info_type r = FileType_char dir \<longrightarrow>
                     virtual_dirs st' (info_name r)
                       = Some \<lparr>dir_p_file = f, dir_page = info_page r\<rparr>)))"
proof -
  let ?st0 = "\<lparr>page_size = ps, physical_files = [], virtual_files = Map.empty,
               virtual_dirs = Map.empty, num_of_files = 0, locked = []\<rparr> :: 'a VFS"
  from n obtain st1 where f: "VFS_files ?st0 host files = ok st1"
    and i: "VFS_inits st1 (physical_files st1) = ok st'"
    by (auto simp: VFS_new_def bindR_eq_ok split: if_splits)
  note a = VFS_files_spec[OF f]
  note b = VFS_inits_spec[OF i]
  from a have ps1: "page_size st1 = ps" by simp
  from a b have vf: "virtual_files st' = Map.empty" by simp
  have rec: "virtual_dirs st' (info_name r) = Some \<lparr>dir_p_file = f, dir_page = info_page r\<rparr>"
    if "f \<in> set files" "st_size \<le> ps" "host f \<noteq> []" "length (host f) < 2 ^ 64"
      "pf_Read (PhysicalFile_new f (host f)) True st_size 0 = (st_size, hdr)" "bytes_size_t hdr \<noteq> 0"
      "spec_chain (unat ps) (host f) 0 p" "spec_page (unat ps) (host f) p = Some pgb"
      "r \<in> set (spec_records (unat ps) pgb 0)" "info_type r = FileType_char dir"
    for f hdr p pgb r
  proof -
    let ?pf = "PhysicalFile_new f (host f)"
    from that(3,4) have "unat (of_nat (length (host f)) :: size_t) \<noteq> 0"
      by (simp add: unat_of_nat)
    then have "GetSize ?pf \<noteq> 0"
      by (auto simp: GetSize_def PhysicalFile_new_def)
    with a that(1) have m: "(f, ?pf) \<in> set (physical_files st1)" by blast
    have s: "str ?pf = host f" by (simp add: PhysicalFile_new_def)
    from b m have "st_size \<le> page_size st1 \<and> length (str ?pf) < 2 ^ 64 \<longrightarrow>
           (\<forall>hdr. pf_Read ?pf True st_size 0 = (st_size, hdr) \<and> bytes_size_t hdr \<noteq> 0 \<longrightarrow>
               (\<forall>p pgb r. spec_chain (unat (page_size st1)) (str ?pf) 0 p
                     \<and> spec_page (unat (page_size st1)) (str ?pf) p = Some pgb
                     \<and> r \<in> set (spec_records (unat (page_size st1)) pgb 0)
                     \<and> info_type r = FileType_char dir \<longrightarrow>
                     virtual_dirs st' (info_name r)
                       = Some \<lparr>dir_p_file = f, dir_page = info_page r\<rparr>))"
      by blast
    with that show ?thesis unfolding ps1 s by blast
  qed
  from vf rec show ?thesis by blast
qed

text \<open>
  Claim C8. \<^verbatim>\<open>Init\<close> is the bootstrap of one backing file; the constructor runs it on every
  backing file. When the header of the file reads as zero, \<^verbatim>\<open>Init\<close> returns the object
  unchanged. Whenever \<^verbatim>\<open>Init\<close> returns, \<open>virtual_files\<close> and the backing files are unchanged
  (no file record is loaded) and every directory known before is still known; for a header
  that is not zero, a page size of at least 8 and a file shorter than \<open>2 ^ 64\<close> bytes, every
  directory record of every page on the chain of page 0 is in \<open>virtual_dirs\<close>, its name mapped
  to the backing file and to the record's page. \<^verbatim>\<open>Init\<close> does return: when the header is not
  zero, the page is larger than 8 bytes, the object tracks the size of the file, the chain of
  page 0 is \<open>0 # qs\<close> and ends, its pages are well packed and the names of its directory
  records are distinct and not yet known, \<^verbatim>\<open>Init\<close> returns a state whose known directories are
  the old ones and exactly those of the directory records of the chain. The same holds
  after construction: when the constructor returns, no file is open, and for every backing
  file that was not empty and whose header is not zero, every directory record on the chain
  of its page 0 is in \<open>virtual_dirs\<close>.
\<close>

theorem Init_bootstrap:
  "(\<forall>hdr. pf_Read pf True st_size 0 = (st_size, hdr) \<longrightarrow>
      (bytes_size_t hdr = 0 \<longrightarrow> Init st path pf = ok st)
    \<and> (\<forall>st'. Init st path pf = ok st' \<longrightarrow>
          virtual_files st' = virtual_files st \<and> physical_files st' = physical_files st
        \<and> virtual_dirs st \<subseteq>\<^sub>m virtual_dirs st'
        \<and> (bytes_size_t hdr \<noteq> 0 \<and> st_size \<le> page_size st \<and> length (str pf) < 2 ^ 64 \<longrightarrow>
             (\<forall>p pgb r. spec_chain (unat (page_size st)) (str pf) 0 p
                \<and> spec_page (unat (page_size st)) (str pf) p = Some pgb
                \<and> r \<in> set (spec_records (unat (page_size st)) pgb 0)
                \<and> info_type r = FileType_char dir \<longrightarrow>
                virtual_dirs st' (info_name r)
                  = Some \<lparr>dir_p_file = path, dir_page = info_page r\<rparr>)))
    \<and> (\<forall>qs. bytes_size_t hdr \<noteq> 0 \<and> st_size < page_size st \<and> length (str pf) < 2 ^ 64
           \<and> GetSize pf = of_nat (length (str pf))
           \<and> spec_walk (unat (page_size st)) (str pf) 0 qs
           \<and> list_all (spec_page_packed (unat (page_size st)) (str pf)) (0 # qs)
           \<and> distinct (dir_names (spec_chain_records (unat (page_size st)) (str pf) (0 # qs)))
           \<and> set (dir_names (spec_chain_records (unat (page_size st)) (str pf) (0 # qs)))
                \<inter> dom (virtual_dirs st) = {}
         \<longrightarrow> (\<exists>st'. Init st path pf = ok st'
               \<and> dom (virtual_dirs st') = dom (virtual_dirs st)
                    \<union> set (dir_names (spec_chain_records (unat (page_size st)) (str pf) (0 # qs)))
               \<and> (\<forall>r \<in> set (spec_chain_records (unat (page_size st)) (str pf) (0 # qs)).
                     info_type r = FileType_char dir \<longrightarrow>
                     virtual_dirs st' (info_name r)
                       = Some \<lparr>dir_p_file = path, dir_page = info_page r\<rparr>))))
   \<and> (\<forall>st'. VFS_new n ps rd host files = ok st' \<longrightarrow>
         virtual_files st' = Map.empty
       \<and> (\<forall>f \<in> set files. st_size \<le> ps \<and> host f \<noteq> [] \<and> length (host f) < 2 ^ 64 \<longrightarrow>
             (\<forall>hdr. pf_Read (PhysicalFile_new f (host f)) True st_size 0 = (st_size, hdr)
                    \<and> bytes_size_t hdr \<noteq> 0 \<longrightarrow>
                 (\<forall>p pgb r. spec_chain (unat ps) (host f) 0 p
                       \<and> spec_page (unat ps) (host f) p = Some pgb
                       \<and> r \<in> set (spec_records (unat ps) pgb 0)
                       \<and> info_type r = FileType_char dir \<longrightarrow>
                       virtual_dirs st' (info_name r)
                         = Some \<lparr>dir_p_file = f, dir_page = info_page r\<rparr>))))"
proof (intro conjI allI impI ballI)
  fix hdr assume "pf_Read pf True st_size 0 = (st_size, hdr)" "bytes_size_t hdr = 0"
  then show "Init st path pf = ok st" by (simp add: Init_def)
next
  fix hdr st' assume i: "Init st path pf = ok st'"
  from Init_spec[OF i] show "virtual_files st' = virtual_files st" by simp
  from Init_spec[OF i] show "physical_files st' = physical_files st" by simp
  from Init_spec[OF i] show "virtual_dirs st \<subseteq>\<^sub>m virtual_dirs st'" by simp
  fix p pgb r
  assume h: "pf_Read pf True st_size 0 = (st_size, hdr)"
    and a: "bytes_size_t hdr \<noteq> 0 \<and> st_size \<le> page_size st \<and> length (str pf) < 2 ^ 64"
    and c: "spec_chain (unat (page_size st)) (str pf) 0 p
                \<and> spec_page (unat (page_size st)) (str pf) p = Some pgb
                \<and> r \<in> set (spec_records (unat (page_size st)) pgb 0)
                \<and> info_type r = FileType_char dir"
  from Init_spec[OF i] h a c
  show "virtual_dirs st' (info_name r) = Some \<lparr>dir_p_file = path, dir_page = info_page r\<rparr>"
    by blast
next
  fix hdr qs
  assume h: "pf_Read pf True st_size 0 = (st_size, hdr)"
    and a: "bytes_size_t hdr \<noteq> 0 \<and> st_size < page_size st \<and> length (str pf) < 2 ^ 64
           \<and> GetSize pf = of_nat (length (str pf))
           \<and> spec_walk (unat (page_size st)) (str pf) 0 qs
           \<and> list_all (spec_page_packed (unat (page_size st)) (str pf)) (0 # qs)
           \<and> distinct (dir_names (spec_chain_records (unat (page_size st)) (str pf) (0 # qs)))
           \<and> set (dir_names (spec_chain_records (unat (page_size st)) (str pf) (0 # qs)))
                \<inter> dom (virtual_dirs st) = {}"
  show "\<exists>st'. Init st path pf = ok st'
               \<and> dom (virtual_dirs st') = dom (virtual_dirs st)
                    \<union> set (dir_names (spec_chain_records (unat (page_size st)) (str pf) (0 # qs)))
               \<and> (\<forall>r \<in> set (spec_chain_records (unat (page_size st)) (str pf) (0 # qs)).
                     info_type r = FileType_char dir \<longrightarrow>
                     virtual_dirs st' (info_name r)
                       = Some \<lparr>dir_p_file = path, dir_page = info_page r\<rparr>)"
    by (rule Init_total[OF h]) (use a in blast)+
next
  fix st' assume n: "VFS_new n ps rd host files = ok st'"
  from VFS_new_spec[OF n] show "virtual_files st' = Map.empty" by (rule conjunct1)
  fix f hdr p pgb r
  assume "f \<in> set files" "st_size \<le> ps \<and> host f \<noteq> [] \<and> length (host f) < 2 ^ 64"
    "pf_Read (PhysicalFile_new f (host f)) True st_size 0 = (st_size, hdr) \<and> bytes_size_t hdr \<noteq> 0"
    "spec_chain (unat ps) (host f) 0 p
                       \<and> spec_page (unat ps) (host f) p = Some pgb
                       \<and> r \<in> set (spec_records (unat ps) pgb 0)
                       \<and> info_type r = FileType_char dir"
  with VFS_new_spec[OF n]
  show "virtual_dirs st' (info_name r) = Some \<lparr>dir_p_file = f, dir_page = info_page r\<rparr>"
    by blast
qed

lemma read_page0: "pf_Read pf_dirs True 4096 8 = (4096, rec_d1 @ replicate 4076 (CHR 0x00))"
  by (simp add: pf_Read_def GetSize_def pf_dirs_def disk_dirs_def rec_d1_def)

lemma read_header: "pf_Read pf_dirs True 8 0 = (8, size_t_bytes 1)"
  by (simp add: pf_Read_def GetSize_def pf_dirs_def disk_dirs_def)

lemma ReadFileInfo_d1:
  "ReadFileInfo 4096 (rec_d1 @ replicate 4076 (CHR 0x00)) 0 = ok (Info (CHR 0x07) ''/d1'' 1, 20)"
  by (simp add: ReadFileInfo_def rec_d1_def Let_def st_size_def)

lemma ReadFileInfo_end:
  "ReadFileInfo 4096 (rec_d1 @ replicate 4076 (CHR 0x00)) 20 = ok (Info (CHR 0x00) [] 0, 0)"
  by (simp add: ReadFileInfo_def rec_d1_def Let_def st_size_def nth_append)

lemma Init_boot: "\<exists>st'. Init vfs_boot 0 pf_dirs = ok st'"
proof -
  have ps: "page_size vfs_boot = 4096" by (simp add: vfs_boot_def vfs0_def)
  have recs: "\<exists>st'. Init_records (vfs_boot\<lparr>num_of_files := 1\<rparr>) 0 (rec_d1 @ replicate 4076 (CHR 0x00)) 0
                  = Some (Inr st')"
    apply (subst Init_records.simps)
    apply (simp add: ps ReadFileInfo_d1 InsertDir_def lock_guard_def vfs_boot_def vfs0_def st_size_def)
    apply (subst Init_records.simps)
    apply (simp add: ReadFileInfo_end ok_def)
    done
  then obtain st1 where st1: "Init_records (vfs_boot\<lparr>num_of_files := 1\<rparr>) 0
       (rec_d1 @ replicate 4076 (CHR 0x00)) 0 = Some (Inr st1)" ..
  have nx: "GetNextPage 4096 (rec_d1 @ replicate 4076 (CHR 0x00)) = 0"
    by (simp add: GetNextPage_def st_size_def rec_d1_def)
  have "Init_pages (vfs_boot\<lparr>num_of_files := 1\<rparr>) 0 pf_dirs 0 = Some (Inr st1)"
    apply (subst Init_pages.simps)
    apply (simp add: ps start_def st_size_def read_page0 st1 nx)
    done
  then show ?thesis
    by (simp add: Init_def st_size_def read_header ok_def vfs_boot_def vfs0_def)
qed

lemma length_dir_record [simp]: "length (dir_record nm pg) = 17 + length nm"
  by (simp add: dir_record_def)

lemma length_file_record [simp]: "length (file_record nm pg) = 17 + length nm"
  by (simp add: file_record_def)

lemma length_page0_chain [simp]: "length page0_chain = 64"
  by (simp add: page0_chain_def)

lemma length_page6_chain [simp]: "length page6_chain = 64"
  by (simp add: page6_chain_def)

lemma length_disk_chain: "length disk_chain = 520"
  by (simp add: disk_chain_def)

lemma spec_page_chain0: "spec_page 64 disk_chain 0 = Some page0_chain"
  by (simp add: spec_page_def length_disk_chain) (simp add: disk_chain_def)

lemma spec_page_chain6: "spec_page 64 disk_chain 6 = Some page6_chain"
  by (simp add: spec_page_def length_disk_chain) (simp add: disk_chain_def)

lemma spec_next_page_chain0: "spec_next_page 64 page0_chain = 6"
  by (simp add: spec_next_page_def page0_chain_def)

lemma spec_next_page_chain6: "spec_next_page 64 page6_chain = 0"
  by (simp add: spec_next_page_def page6_chain_def)

lemma spec_walk_chain06: "spec_walk 64 disk_chain 0 [6]"
  by (simp add: spec_page_chain0 spec_page_chain6 spec_next_page_chain0 spec_next_page_chain6)

lemma spec_records_chain0:
  "spec_records 64 page0_chain 0 = [Info (CHR 0x07) ''/d1'' 1, Info (CHR 0x07) ''/d2'' 3]"
  apply (subst spec_records.simps)
  apply (simp add: page0_chain_def dir_record_def Let_def)
  apply (subst spec_records.simps)
  apply (simp add: nth_append Let_def)
  apply (subst spec_records.simps)
  apply (simp add: nth_append)
  done

lemma spec_records_chain6: "spec_records 64 page6_chain 0 = [Info (CHR 0x07) ''/d3'' 5]"
  apply (subst spec_records.simps)
  apply (simp add: page6_chain_def dir_record_def Let_def)
  apply (subst spec_records.simps)
  apply (simp add: nth_append)
  done

lemma spec_packed_chain0: "spec_packed 64 page0_chain 0"
  apply (subst spec_packed.simps)
  apply (simp add: page0_chain_def dir_record_def Let_def)
  apply (subst spec_packed.simps)
  apply (simp add: nth_append Let_def)
  apply (subst spec_packed.simps)
  apply (simp add: nth_append)
  done

lemma spec_packed_chain6: "spec_packed 64 page6_chain 0"
  apply (subst spec_packed.simps)
  apply (simp add: page6_chain_def dir_record_def Let_def)
  apply (subst spec_packed.simps)
  apply (simp add: nth_append)
  done

lemma spec_chain_records_chain:
  "spec_chain_records 64 disk_chain [0, 6]
     = [Info (CHR 0x07) ''/d1'' 1, Info (CHR 0x07) ''/d2'' 3, Info (CHR 0x07) ''/d3'' 5]"
  by (simp add: spec_chain_records_def spec_page_records_def spec_page_chain0 spec_page_chain6
      spec_records_chain0 spec_records_chain6)

lemma read_header_chain:
  "pf_Read (PhysicalFile_new 0 disk_chain) True st_size 0 = (st_size, size_t_bytes 3)"
  by (simp add: pf_Read_def GetSize_def PhysicalFile_new_def length_disk_chain st_size_def)
     (simp add: disk_chain_def)


lemma VFS_files_chain:
  "VFS_files \<lparr>page_size = 64, physical_files = [], virtual_files = Map.empty,
              virtual_dirs = Map.empty, num_of_files = 0, locked = []\<rparr> (\<lambda>_. disk_chain) [0::nat]
     = ok vfs_chain"
  by (simp add: GetSize_def PhysicalFile_new_def length_disk_chain vfs_chain_def)

theorem Init_bootstrap_witness:
  "Init vfs0 0 \<lparr>filepath = 0, str = replicate 8 (CHR 0x00) @ replicate 4096 (CHR 0x00), file_size = 4104\<rparr>
     = ok vfs0
   \<and> (\<exists>st'. Init vfs_boot 0 pf_dirs = ok st'
         \<and> virtual_dirs st' ''/d1'' = Some \<lparr>dir_p_file = 0, dir_page = 1\<rparr>
         \<and> virtual_files st' = Map.empty)
   \<and> (\<exists>st'. VFS_new 5 64 True (\<lambda>_. disk_chain) [0::nat] = ok st'
         \<and> Init vfs_chain 0 (PhysicalFile_new 0 disk_chain) = ok st'
         \<and> virtual_dirs st' ''/d1'' = Some \<lparr>dir_p_file = 0, dir_page = 1\<rparr>
         \<and> virtual_dirs st' ''/d2'' = Some \<lparr>dir_p_file = 0, dir_page = 3\<rparr>
         \<and> virtual_dirs st' ''/d3'' = Some \<lparr>dir_p_file = 0, dir_page = 5\<rparr>
         \<and> dom (virtual_dirs st') = {''/d1'', ''/d2'', ''/d3''}
         \<and> virtual_files st' = Map.empty)"
proof -
  let ?fresh = "\<lparr>filepath = 0::nat, str = replicate 8 (CHR 0x00) @ replicate 4096 (CHR 0x00), file_size = 4104\<rparr>"
  have h0: "pf_Read ?fresh True st_size 0 = (st_size, replicate 8 (CHR 0x00))"
    by (simp add: pf_Read_def GetSize_def st_size_def)
  from Init_bootstrap[where pf = ?fresh and st = vfs0 and path = 0, THEN conjunct1, THEN spec, THEN mp, OF h0]
  have zero: "Init vfs0 0 ?fresh = ok vfs0" by simp
  have boot: "\<exists>st'. Init vfs_boot 0 pf_dirs = ok st'
         \<and> virtual_dirs st' ''/d1'' = Some \<lparr>dir_p_file = 0, dir_page = 1\<rparr>
         \<and> virtual_files st' = Map.empty"
  proof -
    have u: "unat (page_size vfs_boot) = 4096" by (simp add: vfs_boot_def vfs0_def)
    have h: "pf_Read pf_dirs True st_size 0 = (st_size, size_t_bytes 1)"
      using read_header by (simp add: st_size_def)
    have sp: "spec_page 4096 (str pf_dirs) 0 = Some (rec_d1 @ replicate 4076 (CHR 0x00))"
      by (simp add: spec_page_def pf_dirs_def disk_dirs_def rec_d1_def)
    have ch: "spec_chain 4096 (str pf_dirs) 0 0"
      by (rule spec_chain.here) (rule sp)
    have rs: "spec_records 4096 (rec_d1 @ replicate 4076 (CHR 0x00)) 0 = [Info (CHR 0x07) ''/d1'' 1]"
      apply (subst spec_records.simps)
      apply (simp add: rec_d1_def Let_def)
      apply (subst spec_records.simps)
      apply (simp add: nth_append)
      done
    obtain st' where i: "Init vfs_boot 0 pf_dirs = ok st'" using Init_boot ..
    note B = Init_bootstrap[where pf = pf_dirs and st = vfs_boot and path = 0,
        THEN conjunct1, THEN spec, THEN mp, OF h, THEN conjunct2, THEN conjunct1, THEN spec, THEN mp, OF i]
    from B have vf: "virtual_files st' = Map.empty" by (simp add: vfs_boot_def vfs0_def)
    have pre: "bytes_size_t (size_t_bytes 1) \<noteq> 0 \<and> st_size \<le> page_size vfs_boot
                 \<and> length (str pf_dirs) < 2 ^ 64"
      by (simp add: st_size_def vfs_boot_def vfs0_def pf_dirs_def)
    from B pre have A: "\<forall>p pgb r. spec_chain 4096 (str pf_dirs) 0 p
                     \<and> spec_page 4096 (str pf_dirs) p = Some pgb
                     \<and> r \<in> set (spec_records 4096 pgb 0)
                     \<and> info_type r = FileType_char dir \<longrightarrow>
                     virtual_dirs st' (info_name r)
                       = Some \<lparr>dir_p_file = 0, dir_page = info_page r\<rparr>"
      unfolding u by blast
    have "virtual_dirs st' ''/d1'' = Some \<lparr>dir_p_file = 0, dir_page = 1\<rparr>"
      using A[rule_format, of 0 "rec_d1 @ replicate 4076 (CHR 0x00)" "Info (CHR 0x07) ''/d1'' 1"]
        ch sp rs by simp
    with i vf show ?thesis by blast
  qed
  have chain: "\<exists>st'. VFS_new 5 64 True (\<lambda>_. disk_chain) [0::nat] = ok st'
         \<and> Init vfs_chain 0 (PhysicalFile_new 0 disk_chain) = ok st'
         \<and> virtual_dirs st' ''/d1'' = Some \<lparr>dir_p_file = 0, dir_page = 1\<rparr>
         \<and> virtual_dirs st' ''/d2'' = Some \<lparr>dir_p_file = 0, dir_page = 3\<rparr>
         \<and> virtual_dirs st' ''/d3'' = Some \<lparr>dir_p_file = 0, dir_page = 5\<rparr>
         \<and> dom (virtual_dirs st') = {''/d1'', ''/d2'', ''/d3''}
         \<and> virtual_files st' = Map.empty"
  proof -
    let ?pf = "PhysicalFile_new (0::nat) disk_chain"
    have u: "unat (page_size vfs_chain) = 64" "page_size vfs_chain = 64"
      "virtual_dirs vfs_chain = Map.empty" "virtual_files vfs_chain = Map.empty"
      by (simp_all add: vfs_chain_def)
    have s: "str ?pf = disk_chain" by (simp add: PhysicalFile_new_def)
    have pre: "bytes_size_t (size_t_bytes 3) \<noteq> 0 \<and> st_size < page_size vfs_chain
           \<and> length (str ?pf) < 2 ^ 64
           \<and> GetSize ?pf = of_nat (length (str ?pf))
           \<and> spec_walk (unat (page_size vfs_chain)) (str ?pf) 0 [6]
           \<and> list_all (spec_page_packed (unat (page_size vfs_chain)) (str ?pf)) (0 # [6])
           \<and> distinct (dir_names (spec_chain_records (unat (page_size vfs_chain)) (str ?pf) (0 # [6])))
           \<and> set (dir_names (spec_chain_records (unat (page_size vfs_chain)) (str ?pf) (0 # [6])))
                \<inter> dom (virtual_dirs vfs_chain) = {}"
      unfolding u s
      by (simp add: st_size_def length_disk_chain GetSize_def PhysicalFile_new_def
          spec_next_page_chain0 spec_next_page_chain6
          spec_page_packed_def spec_page_chain0 spec_page_chain6 spec_packed_chain0 spec_packed_chain6
          spec_chain_records_chain dir_names_def)
    note C = Init_bootstrap[where pf = ?pf and st = vfs_chain and path = 0,
        THEN conjunct1, THEN spec, THEN mp, OF read_header_chain]
    from C[THEN conjunct2, THEN conjunct2, THEN spec, THEN mp, OF pre]
    obtain st' where i: "Init vfs_chain 0 ?pf = ok st'"
      and d: "dom (virtual_dirs st') = {''/d1'', ''/d2'', ''/d3''}"
      unfolding u s by (auto simp: spec_chain_records_chain dir_names_def)
    from C[THEN conjunct2, THEN conjunct1, THEN spec, THEN mp, OF i]
    have vf: "virtual_files st' = Map.empty" by (simp add: u)
    have pfz: "physical_files vfs_chain = [(0, ?pf)]" by (simp add: vfs_chain_def)
    have "VFS_new 5 64 True (\<lambda>_. disk_chain) [0::nat]
            = bindR (VFS_files \<lparr>page_size = 64, physical_files = [], virtual_files = Map.empty,
                       virtual_dirs = Map.empty, num_of_files = 0, locked = []\<rparr>
                       (\<lambda>_. disk_chain) [0::nat]) (\<lambda>st. VFS_inits st (physical_files st))"
      by (simp add: VFS_new_def del: VFS_files.simps)
    also have "\<dots> = VFS_inits vfs_chain (physical_files vfs_chain)"
      by (simp only: VFS_files_chain bindR_ok)
    also have "\<dots> = ok st'" by (simp add: pfz i)
    finally have vn: "VFS_new 5 64 True (\<lambda>_. disk_chain) [0::nat] = ok st'" .
    have c0: "spec_chain 64 disk_chain 0 0"
      by (rule spec_chain.here) (rule spec_page_chain0)
    have c6: "spec_chain 64 disk_chain 0 6"
      by (rule spec_chain.link[OF spec_page_chain0 spec_next_page_chain0])
         (simp, rule spec_chain.here, rule spec_page_chain6)
    have hdr: "pf_Read ?pf True st_size 0 = (st_size, size_t_bytes 3) \<and> bytes_size_t (size_t_bytes 3) \<noteq> 0"
      using read_header_chain by simp
    have g: "st_size \<le> (64::size_t) \<and> disk_chain \<noteq> [] \<and> length disk_chain < 2 ^ 64"
      using length_disk_chain by (auto simp: st_size_def)
    from Init_bootstrap[where n = 5 and ps = 64 and rd = True and host = "\<lambda>_. disk_chain"
        and files = "[0::nat]", THEN conjunct2, THEN spec, THEN mp, OF vn] g hdr
    have R: "\<forall>p pgb r. spec_chain 64 disk_chain 0 p
                       \<and> spec_page 64 disk_chain p = Some pgb
                       \<and> r \<in> set (spec_records 64 pgb 0)
                       \<and> info_type r = FileType_char dir \<longrightarrow>
                       virtual_dirs st' (info_name r)
                         = Some \<lparr>dir_p_file = 0::nat, dir_page = info_page r\<rparr>"
      by simp blast
    have d1: "virtual_dirs st' ''/d1'' = Some \<lparr>dir_p_file = 0, dir_page = 1\<rparr>"
      using R[rule_format, of 0 page0_chain "Info (CHR 0x07) ''/d1'' 1"]
        c0 spec_page_chain0 spec_records_chain0 by simp
    have d2: "virtual_dirs st' ''/d2'' = Some \<lparr>dir_p_file = 0, dir_page = 3\<rparr>"
      using R[rule_format, of 0 page0_chain "Info (CHR 0x07) ''/d2'' 3"]
        c0 spec_page_chain0 spec_records_chain0 by simp
    have d3: "virtual_dirs st' ''/d3'' = Some \<lparr>dir_p_file = 0, dir_page = 5\<rparr>"
      using R[rule_format, of 6 page6_chain "Info (CHR 0x07) ''/d3'' 5"]
        c6 spec_page_chain6 spec_records_chain6 by simp
    from vn i d1 d2 d3 d vf show ?thesis by blast
  qed
  from zero boot chain show ?thesis by blast
qed

end
